(* ===== verification/Prelude.thy ===== *)
theory Prelude
  imports Main "HOL-Library.Word" "HOL-Library.AList"
begin

text \<open>
  What the components of (f)db share: the Go values they pass around (bytes, slices,
  32-byte arrays, errors), the three ways a Go call can end (it returns, it panics, it
  blocks), the parts of the standard library the sources call (big-endian integers,
  decimal and hexadecimal formatting, \<open>errors.Is\<close>, \<open>strings.Contains\<close>, channels of empty
  structs, maps), and the generic lemmas that carry the component proofs.
\<close>

section \<open>Collections of facts\<close>

named_theorems go_simps \<open>rules that evaluate the Go primitives\<close>

section \<open>Bytes, slices and arrays\<close>

type_synonym byte = "8 word"
type_synonym bytes = "byte list"

text \<open>A Go string literal converted with \<^verbatim>\<open>[]byte("...")\<close>.\<close>

definition bytes_of_string :: "string \<Rightarrow> bytes" where
  "bytes_of_string s = map (\<lambda>c. word_of_nat (of_char c)) s"

text \<open>The Go array type \<^verbatim>\<open>[32]byte\<close>: its values are the byte lists of length 32.\<close>

definition is_key :: "bytes \<Rightarrow> bool" where
  "is_key k \<longleftrightarrow> length k = 32"

section \<open>How a call ends\<close>

datatype 'a go = Ret 'a | Panic string | Blocked

fun go_bind :: "'a go \<Rightarrow> ('a \<Rightarrow> 'b go) \<Rightarrow> 'b go" where
  "go_bind (Ret a) f = f a"
| "go_bind (Panic p) f = Panic p"
| "go_bind Blocked f = Blocked"

fun returns :: "'a go \<Rightarrow> bool" where
  "returns (Ret a) = True"
| "returns (Panic p) = False"
| "returns Blocked = False"

fun panics :: "'a go \<Rightarrow> bool" where
  "panics (Ret a) = False"
| "panics (Panic p) = True"
| "panics Blocked = False"

lemma go_bind_Ret_iff: "go_bind m f = Ret b \<longleftrightarrow> (\<exists>a. m = Ret a \<and> f a = Ret b)"
  by (cases m) auto

lemma go_bind_RetE:
  assumes "go_bind m f = Ret y"
  obtains x where "m = Ret x" and "f x = Ret y"
  using assms by (auto simp: go_bind_Ret_iff)

lemma go_try_Inr_iff:
  "go_bind m (\<lambda>r. case r of Inl e \<Rightarrow> Ret (Inl (h e)) | Inr a \<Rightarrow> f a) = Ret (Inr b) \<longleftrightarrow>
     (\<exists>a. m = Ret (Inr a) \<and> f a = Ret (Inr b))"
  by (cases m) (auto split: sum.split)

lemma returns_iff: "returns m \<longleftrightarrow> (\<exists>a. m = Ret a)"
  by (cases m) auto

text \<open>
  \<^verbatim>\<open>xs[lo:hi]\<close>. Go panics when \<open>lo\<close> exceeds \<open>hi\<close> or \<open>hi\<close> exceeds the capacity; every use in
  the sources that does not panic has \<open>hi\<close> within the length.
\<close>

definition go_slice :: "'a list \<Rightarrow> nat \<Rightarrow> nat \<Rightarrow> 'a list go" where
  "go_slice xs lo hi =
     (if lo \<le> hi \<and> hi \<le> length xs then Ret (take (hi - lo) (drop lo xs))
      else Panic ''slice bounds out of range'')"

text \<open>\<^verbatim>\<open>copy(xs[lo:hi], src)\<close>: at most \<open>hi - lo\<close> elements are overwritten.\<close>

definition go_copy :: "nat \<Rightarrow> nat \<Rightarrow> 'a list \<Rightarrow> 'a list \<Rightarrow> 'a list" where
  "go_copy lo hi src xs =
     (let n = min (hi - lo) (length src) in take lo xs @ take n src @ drop (lo + n) xs)"

lemma go_slice_ok [go_simps]:
  "lo \<le> hi \<Longrightarrow> hi \<le> length xs \<Longrightarrow> go_slice xs lo hi = Ret (take (hi - lo) (drop lo xs))"
  by (simp add: go_slice_def)

lemma length_go_copy [simp]:
  "lo \<le> hi \<Longrightarrow> hi \<le> length xs \<Longrightarrow> length (go_copy lo hi src xs) = length xs"
  by (auto simp: go_copy_def Let_def)

lemma go_copy_full:
  "length src = hi - lo \<Longrightarrow> lo \<le> hi \<Longrightarrow> go_copy lo hi src xs = take lo xs @ src @ drop hi xs"
  by (simp add: go_copy_def Let_def)

lemma go_copy_tail:
  "length src \<le> length xs - lo \<Longrightarrow>
   go_copy lo (length xs) src xs = take lo xs @ src @ drop (lo + length src) xs"
  by (simp add: go_copy_def Let_def)

section \<open>Big-endian integers (encoding/binary)\<close>

definition PutUint32 :: "32 word \<Rightarrow> bytes" where
  "PutUint32 v = [ucast (drop_bit 24 v), ucast (drop_bit 16 v), ucast (drop_bit 8 v), ucast v]"

definition Uint32 :: "bytes \<Rightarrow> 32 word" where
  "Uint32 b = or (ucast (b ! 3)) (or (push_bit 8 (ucast (b ! 2)))
     (or (push_bit 16 (ucast (b ! 1))) (push_bit 24 (ucast (b ! 0)))))"

lemma length_PutUint32 [simp]: "length (PutUint32 v) = 4"
  by (simp add: PutUint32_def)

lemma Uint32_PutUint32 [simp]: "Uint32 (PutUint32 v) = v"
proof (rule bit_word_eqI)
  fix n assume "n < LENGTH(32)"
  then consider "n < 8" | "8 \<le> n" "n < 16" | "16 \<le> n" "n < 24" | "24 \<le> n" "n < 32"
    by fastforce
  then show "bit (Uint32 (PutUint32 v)) n \<longleftrightarrow> bit v n"
    by cases (auto simp: Uint32_def PutUint32_def bit_simps)
qed

lemma PutUint32_inject [simp]: "PutUint32 v = PutUint32 w \<longleftrightarrow> v = w"
  by (metis Uint32_PutUint32)

section \<open>Formatting (fmt) and strings\<close>

definition digit :: "nat \<Rightarrow> char" where
  "digit n = char_of (48 + n)"

fun show_nat :: "nat \<Rightarrow> string" where
  "show_nat n = (if n < 10 then [digit n] else show_nat (n div 10) @ [digit (n mod 10)])"

declare show_nat.simps [simp del]

text \<open>The verb \<^verbatim>\<open>%d\<close> on an \<^verbatim>\<open>int\<close>.\<close>

definition show_int :: "int \<Rightarrow> string" where
  "show_int i = (if i < 0 then ''-'' @ show_nat (nat (- i)) else show_nat (nat i))"

definition hex_digit :: "nat \<Rightarrow> char" where
  "hex_digit n = (if n < 10 then char_of (48 + n) else char_of (87 + n))"

text \<open>The verb \<^verbatim>\<open>%x\<close> on a byte sequence.\<close>

definition show_hex :: "bytes \<Rightarrow> string" where
  "show_hex bs = concat (map (\<lambda>b. [hex_digit (unat b div 16), hex_digit (unat b mod 16)]) bs)"

text \<open>\<^verbatim>\<open>strings.Contains(s, sub)\<close>.\<close>

fun strings_Contains :: "string \<Rightarrow> string \<Rightarrow> bool" where
  "strings_Contains [] sub = (sub = [])"
| "strings_Contains (c # s) sub = (take (length sub) (c # s) = sub \<or> strings_Contains s sub)"

lemma strings_Contains_iff: "strings_Contains s sub \<longleftrightarrow> (\<exists>p q. s = p @ sub @ q)"
proof (induction s)
  case Nil
  then show ?case by auto
next
  case (Cons c s)
  have "(\<exists>p q. c # s = p @ sub @ q) \<longleftrightarrow>
      (\<exists>q. c # s = sub @ q) \<or> (\<exists>p q. s = p @ sub @ q)"
    by (metis append_Cons append_Nil list.exhaust list.sel(3) tl_append2)
  moreover have "(\<exists>q. c # s = sub @ q) \<longleftrightarrow> take (length sub) (c # s) = sub"
    by (metis append_eq_conv_conj append_take_drop_id)
  ultimately show ?case using Cons.IH by simp
qed

section \<open>Errors\<close>

text \<open>
  An \<^verbatim>\<open>error\<close> value: one made from a text (\<^verbatim>\<open>errors.New\<close>, \<^verbatim>\<open>fmt.Errorf\<close>), one that wraps
  another under a text (\<^verbatim>\<open>errors.Wrap\<close>, \<^verbatim>\<open>fmt.Errorf\<close> with \<^verbatim>\<open>%w\<close>), or an error of a library
  the sources only pass on, named by a tag and its own text. \<open>nil\<close> is \<^term>\<open>None\<close>.
\<close>

datatype error = Errorf string | Wrapped string error | LibErr string string

fun Error_text :: "error \<Rightarrow> string" where
  "Error_text (Errorf s) = s"
| "Error_text (Wrapped s e) = s @ '': '' @ Error_text e"
| "Error_text (LibErr tag s) = s"

text \<open>\<^verbatim>\<open>errors.Is(err, target)\<close> for a library sentinel: the chain of wrapped errors is searched.\<close>

fun errors_Is :: "error \<Rightarrow> string \<Rightarrow> bool" where
  "errors_Is (Errorf s) tag = False"
| "errors_Is (Wrapped s e) tag = errors_Is e tag"
| "errors_Is (LibErr t s) tag = (t = tag)"

section \<open>Channels of empty structs\<close>

text \<open>
  A \<^verbatim>\<open>chan struct{}\<close>: its capacity, the number of buffered values and whether it is closed.
  Closing a closed channel and sending on one panic; a send that finds the buffer full
  blocks until a receiver takes it.
\<close>

record sigchan =
  ch_cap :: nat
  ch_queued :: nat
  ch_closed :: bool

definition make_chan :: "nat \<Rightarrow> sigchan" where
  "make_chan n = \<lparr>ch_cap = n, ch_queued = 0, ch_closed = False\<rparr>"

definition chan_close :: "sigchan \<Rightarrow> sigchan go" where
  "chan_close c = (if ch_closed c then Panic ''close of closed channel''
     else Ret (c\<lparr>ch_closed := True\<rparr>))"

definition chan_send :: "sigchan \<Rightarrow> sigchan go" where
  "chan_send c = (if ch_closed c then Panic ''send on closed channel''
     else if ch_queued c < ch_cap c then Ret (c\<lparr>ch_queued := ch_queued c + 1\<rparr>)
     else Blocked)"

text \<open>A receive case of a \<^verbatim>\<open>select\<close> is ready: a value is buffered or the channel is closed.\<close>

definition chan_recv_ready :: "sigchan \<Rightarrow> bool" where
  "chan_recv_ready c \<longleftrightarrow> 0 < ch_queued c \<or> ch_closed c"

lemmas chan_defs = make_chan_def chan_close_def chan_send_def chan_recv_ready_def

section \<open>Maps\<close>

text \<open>
  A Go map whose size and iteration matter is an association list with distinct keys;
  \<^verbatim>\<open>m[k] = v\<close> is \<^const>\<open>AList.update\<close>.
\<close>

lemma set_AList_update: "set (AList.update k v b) \<subseteq> insert (k, v) (set b)"
  by (induction b) auto

lemma nth_update_if: "xs[i := y] ! j = (if i = j \<and> i < length xs then y else xs ! j)"
  by (cases "i < length xs") (auto simp: nth_list_update list_update_beyond)

lemma distinct_map_fst_update [simp]:
  "distinct (map fst m) \<Longrightarrow> distinct (map fst (AList.update k v m))"
  by (rule distinct_update)

lemma map_of_update [simp]: "map_of (AList.update k v m) = (map_of m)(k \<mapsto> v)"
  by (rule update_conv')

lemma map_of_permuted:
  assumes "distinct (map fst m)" and "distinct (map fst m')" and "set m' = set m"
  shows "map_of m' = map_of m"
  using assms by (metis map_of_inject_set)

end
