(* ===== verification/Types.thy ===== *)
theory Types
  imports Prelude
begin

text \<open>
  The package \<open>types\<close> (\<^verbatim>\<open>src/types/types.go\<close>): transport types with their textual form and
  its parser, and the one-byte handler types that select the write and the read handler.
\<close>

section \<open>Transport types\<close>

type_synonym TransportType = int

definition UDPTransportType :: TransportType where "UDPTransportType = 0"

definition DummyTransportType :: TransportType where "DummyTransportType = 1"

definition QUICTransportType :: TransportType where "QUICTransportType = 2"

definition UDSTransportType :: TransportType where "UDSTransportType = 3"

definition TCPTransportType :: TransportType where "TCPTransportType = 4"

lemmas transport_types [go_simps] =
  UDPTransportType_def DummyTransportType_def QUICTransportType_def UDSTransportType_def
  TCPTransportType_def

definition TransportType_String :: "TransportType \<Rightarrow> string" where
  "TransportType_String t =
     (if t = UDSTransportType then ''uds''
      else if t = QUICTransportType then ''quic''
      else if t = TCPTransportType then ''tcp''
      else if t = UDPTransportType then ''udp''
      else if t = DummyTransportType then ''dummy''
      else ''unknown'')"

definition ParseTransportType :: "string \<Rightarrow> TransportType \<times> error option" where
  "ParseTransportType s =
     (if s = ''uds'' then (UDSTransportType, None)
      else if s = ''quic'' then (QUICTransportType, None)
      else if s = ''tcp'' then (TCPTransportType, None)
      else if s = ''udp'' then (UDPTransportType, None)
      else if s = ''dummy'' then (DummyTransportType, None)
      else (-1, Some (Errorf (''unknown transport type: '' @ s))))"

text \<open>
  \<open>UnmarshalYAML\<close>: the callback of the YAML library yields the scalar as a string or an
  error; the receiver is assigned only on success.
\<close>

definition TransportType_UnmarshalYAML ::
    "error + string \<Rightarrow> TransportType \<Rightarrow> error option \<times> TransportType" where
  "TransportType_UnmarshalYAML unmarshal t =
     (case unmarshal of
        Inl err \<Rightarrow> (Some err, t)
      | Inr s \<Rightarrow>
          (case ParseTransportType s of
             (tt, Some err) \<Rightarrow> (Some err, t)
           | (tt, None) \<Rightarrow> (None, tt)))"

section \<open>Handler types\<close>

type_synonym HandlerType = byte

definition WriteHandlerType :: HandlerType where "WriteHandlerType = 0x57"

definition ReadHandlerType :: HandlerType where "ReadHandlerType = 0x52"

lemmas handler_types [go_simps] = WriteHandlerType_def ReadHandlerType_def

text \<open>\<open>FromByte\<close>: the receiver keeps its value when the byte is not an action byte.\<close>

definition FromByte :: "HandlerType \<Rightarrow> byte \<Rightarrow> error option \<times> HandlerType" where
  "FromByte h b =
     (if b = 0x57 then (None, WriteHandlerType)
      else if b = 0x52 then (None, ReadHandlerType)
      else (Some (Errorf (''invalid action byte: '' @ show_nat (unat b))), h))"

section \<open>Lemmas\<close>

lemma ParseTransportType_String:
  "t \<in> {0..4} \<Longrightarrow> ParseTransportType (TransportType_String t) = (t, None)"
  by (auto simp: ParseTransportType_def TransportType_String_def go_simps)

lemma ParseTransportType_ok:
  "ParseTransportType s = (t, None) \<Longrightarrow> t \<in> {0..4} \<and> TransportType_String t = s"
  by (auto simp: ParseTransportType_def TransportType_String_def go_simps split: if_splits)

section \<open>Properties\<close>

text \<open>
  Parsing and printing transport types are inverse: a string parses without error to
  \<open>t\<close> exactly when \<open>t\<close> is one of the five transport types and the string is its textual form.
\<close>

theorem parse_transport_type_iff:
  "ParseTransportType s = (t, None) \<longleftrightarrow> t \<in> {0..4} \<and> s = TransportType_String t"
  using ParseTransportType_String ParseTransportType_ok by metis

end
