(* ===== verification/Config.thy ===== *)
theory Config
  imports Types
begin

text \<open>
  The package \<open>config\<close> (\<^verbatim>\<open>src/config/*.go\<close>): the configuration structs, their address and type
  accessors, the lookups, the loading of TLS material, and the YAML decoding of a
  transport entry. The YAML library is a parameter (what its \<open>Decode\<close> yields on a node); the
  answers of the file system and of the certificate parser are an input.
\<close>

section \<open>Structs\<close>

record Logger =
  log_Enabled :: bool
  log_Environment :: string
  log_Level :: string

record TLS =
  tls_Insecure :: bool
  tls_Cert :: string
  tls_Key :: string
  tls_RootCA :: string

record DTLS =
  dtls_Cert :: string
  dtls_Key :: string
  dtls_RootCA :: string
  dtls_Insecure :: bool

text \<open>The sizes and the permissions are 64-bit integers, as in the sources.\<close>

record MdbxNode =
  node_Name :: string
  node_Path :: string
  node_MaxReaders :: "64 word"
  node_MaxSize :: "64 word"
  node_MinSize :: "64 word"
  node_GrowthStep :: "64 word"
  node_FilePermissions :: "64 word"

record Mdbx =
  mdbx_Enabled :: bool
  mdbx_Nodes :: "MdbxNode list"

record Pprof =
  pprof_Enabled :: bool
  pprof_Name :: string
  pprof_Addr :: string

record DummyTransport =
  dummy_Type :: TransportType
  dummy_Enabled :: bool
  dummy_IPv4 :: string
  dummy_Port :: int
  dummy_TLS :: TLS

record UdsTransport =
  uds_Type :: TransportType
  uds_Enabled :: bool
  uds_Socket :: string

record QuicTransport =
  quic_Type :: TransportType
  quic_Enabled :: bool
  quic_IPv4 :: string
  quic_Port :: int
  quic_TLS :: TLS

text \<open>The TCP and UDP structs hold a pointer to their TLS settings, which may be nil.\<close>

record TcpTransport =
  tcp_Type :: TransportType
  tcp_Enabled :: bool
  tcp_IPv4 :: string
  tcp_Port :: int
  tcp_TLS :: "TLS option"

record UdpTransport =
  udp_Type :: TransportType
  udp_Enabled :: bool
  udp_IPv4 :: string
  udp_Port :: int
  udp_DTLS :: "DTLS option"

text \<open>The interface \<open>TransportConfig\<close>: the dynamic types its values have.\<close>

datatype TransportConfig =
  CDummy DummyTransport | CUds UdsTransport | CQuic QuicTransport | CTcp TcpTransport
| CUdp UdpTransport

text \<open>A generic transport entry; \<open>Config\<close> is an interface value and may be nil.\<close>

record Transport =
  tr_Type :: TransportType
  tr_Enabled :: bool
  tr_Config :: "TransportConfig option"

record Config =
  cfg_Logger :: Logger
  cfg_Transports :: "Transport list"
  cfg_Mdbx :: Mdbx
  cfg_Pprof :: "Pprof list"

section \<open>Accessors and lookups\<close>

definition DummyTransport_Addr :: "DummyTransport \<Rightarrow> string" where
  "DummyTransport_Addr q = dummy_IPv4 q @ '':'' @ show_int (dummy_Port q)"

definition UdsTransport_Addr :: "UdsTransport \<Rightarrow> string" where
  "UdsTransport_Addr u = uds_Socket u"

definition QuicTransport_Addr :: "QuicTransport \<Rightarrow> string" where
  "QuicTransport_Addr q = quic_IPv4 q @ '':'' @ show_int (quic_Port q)"

definition TcpTransport_Addr :: "TcpTransport \<Rightarrow> string" where
  "TcpTransport_Addr t = tcp_IPv4 t @ '':'' @ show_int (tcp_Port t)"

definition UdpTransport_Addr :: "UdpTransport \<Rightarrow> string" where
  "UdpTransport_Addr t = udp_IPv4 t @ '':'' @ show_int (udp_Port t)"

text \<open>The method \<open>GetTransportType\<close> of the interface, by dynamic type.\<close>

definition DummyTransport_GetTransportType :: "DummyTransport \<Rightarrow> TransportType" where
  [simp]: "DummyTransport_GetTransportType q = dummy_Type q"

definition UdsTransport_GetTransportType :: "UdsTransport \<Rightarrow> TransportType" where
  [simp]: "UdsTransport_GetTransportType u = uds_Type u"

definition QuicTransport_GetTransportType :: "QuicTransport \<Rightarrow> TransportType" where
  [simp]: "QuicTransport_GetTransportType q = quic_Type q"

definition TcpTransport_GetTransportType :: "TcpTransport \<Rightarrow> TransportType" where
  [simp]: "TcpTransport_GetTransportType t = tcp_Type t"

definition UdpTransport_GetTransportType :: "UdpTransport \<Rightarrow> TransportType" where
  [simp]: "UdpTransport_GetTransportType t = udp_Type t"

fun GetTransportType :: "TransportConfig \<Rightarrow> TransportType" where
  "GetTransportType (CDummy q) = DummyTransport_GetTransportType q"
| "GetTransportType (CUds u) = UdsTransport_GetTransportType u"
| "GetTransportType (CQuic q) = QuicTransport_GetTransportType q"
| "GetTransportType (CTcp t) = TcpTransport_GetTransportType t"
| "GetTransportType (CUdp t) = UdpTransport_GetTransportType t"

definition Config_Validate :: "Config \<Rightarrow> error option" where
  "Config_Validate c = None"

fun find_transport :: "Transport list \<Rightarrow> TransportType \<Rightarrow> Transport option" where
  "find_transport [] ty = None"
| "find_transport (t # ts) ty = (if tr_Type t = ty then Some t else find_transport ts ty)"

definition Config_GetTransportByType :: "Config \<Rightarrow> TransportType \<Rightarrow> Transport option" where
  "Config_GetTransportByType c ty = find_transport (cfg_Transports c) ty"

fun find_node :: "MdbxNode list \<Rightarrow> string \<Rightarrow> MdbxNode option" where
  "find_node [] name = None"
| "find_node (n # ns) name = (if node_Name n = name then Some n else find_node ns name)"

definition GetMdbxNodeByName :: "Config \<Rightarrow> string \<Rightarrow> MdbxNode option" where
  "GetMdbxNodeByName c name = find_node (mdbx_Nodes (cfg_Mdbx c)) name"

fun find_pprof :: "Pprof list \<Rightarrow> string \<Rightarrow> error + Pprof" where
  "find_pprof [] service = Inl (Errorf (''could not discover pprof service by tag: '' @ service))"
| "find_pprof (o' # os) service =
     (if pprof_Name o' = service then Inr o' else find_pprof os service)"

definition GetPprofByServiceTag :: "Config \<Rightarrow> string \<Rightarrow> error + Pprof" where
  "GetPprofByServiceTag c service = find_pprof (cfg_Pprof c) service"

section \<open>TLS material\<close>

text \<open>
  What the standard library answers: \<^verbatim>\<open>os.Stat\<close> (for a failing call, whether the error is
  \<open>IsNotExist\<close>), \<^verbatim>\<open>os.ReadFile\<close>, \<^verbatim>\<open>tls.LoadX509KeyPair\<close> and \<open>AppendCertsFromPEM\<close> on a fresh pool.
\<close>

record 'c tls_env =
  os_Stat_IsNotExist :: "string \<Rightarrow> bool"
  os_ReadFile :: "string \<Rightarrow> error + bytes"
  LoadX509KeyPair :: "string \<Rightarrow> string \<Rightarrow> error + 'c"
  AppendCertsFromPEM :: "bytes \<Rightarrow> bool"

record 'c tls_Config =
  InsecureSkipVerify :: bool
  Certificates :: "'c list"
  NextProtos :: "string list"
  RootCAs :: "bytes option"

definition DummyTransport_GetTLSConfig :: "DummyTransport \<Rightarrow> error + 'c tls_Config" where
  "DummyTransport_GetTLSConfig q =
     Inr \<lparr>InsecureSkipVerify = True, Certificates = [], NextProtos = [], RootCAs = None\<rparr>"

definition QuicTransport_GetTLSConfig :: "'c tls_env \<Rightarrow> QuicTransport \<Rightarrow> error + 'c tls_Config" where
  "QuicTransport_GetTLSConfig env q =
     (let tls = quic_TLS q
      in if os_Stat_IsNotExist env (tls_Cert tls)
         then Inl (Errorf (''certificate file does not exist: '' @ tls_Cert tls))
         else if os_Stat_IsNotExist env (tls_Key tls)
         then Inl (Errorf (''key file does not exist: '' @ tls_Key tls))
         else case LoadX509KeyPair env (tls_Cert tls) (tls_Key tls) of
           Inl err \<Rightarrow> Inl (Wrapped ''failed to load certificate and key'' err)
         | Inr cert \<Rightarrow>
             (let tlsConfig = \<lparr>InsecureSkipVerify = False, Certificates = [cert],
                               NextProtos = [''quic-example''], RootCAs = None\<rparr>
              in if tls_RootCA tls \<noteq> []
                 then case os_ReadFile env (tls_RootCA tls) of
                     Inl err \<Rightarrow> Inl (Wrapped ''failed to read root CA file'' err)
                   | Inr caCert \<Rightarrow>
                       (if \<not> AppendCertsFromPEM env caCert
                        then Inl (Errorf ''failed to append root CA certificates'')
                        else Inr (tlsConfig\<lparr>RootCAs := Some caCert\<rparr>))
                 else Inr tlsConfig))"

text \<open>The TCP and UDP variants return a nil configuration, without error, when TLS is not set.\<close>

definition TcpTransport_GetTLSConfig ::
    "'c tls_env \<Rightarrow> TcpTransport \<Rightarrow> error + 'c tls_Config option" where
  "TcpTransport_GetTLSConfig env t =
     (case tcp_TLS t of
        None \<Rightarrow> Inr None
      | Some tls \<Rightarrow>
         (if os_Stat_IsNotExist env (tls_Cert tls)
          then Inl (Errorf (''certificate file does not exist: '' @ tls_Cert tls))
          else if os_Stat_IsNotExist env (tls_Key tls)
          then Inl (Errorf (''key file does not exist: '' @ tls_Key tls))
          else case LoadX509KeyPair env (tls_Cert tls) (tls_Key tls) of
            Inl err \<Rightarrow> Inl (Wrapped ''failed to load certificate and key'' err)
          | Inr cert \<Rightarrow>
              (let tlsConfig = \<lparr>InsecureSkipVerify = tls_Insecure tls, Certificates = [cert],
                                NextProtos = [], RootCAs = None\<rparr>
               in if tls_RootCA tls \<noteq> []
                  then case os_ReadFile env (tls_RootCA tls) of
                      Inl err \<Rightarrow> Inl (Wrapped ''failed to read root CA file'' err)
                    | Inr caCert \<Rightarrow>
                        (if \<not> AppendCertsFromPEM env caCert
                         then Inl (Errorf ''failed to append root CA certificates'')
                         else Inr (Some (tlsConfig\<lparr>RootCAs := Some caCert\<rparr>)))
                  else Inr (Some tlsConfig))))"

definition UdpTransport_GetDTLSConfig ::
    "'c tls_env \<Rightarrow> UdpTransport \<Rightarrow> error + 'c tls_Config option" where
  "UdpTransport_GetDTLSConfig env t =
     (case udp_DTLS t of
        None \<Rightarrow> Inr None
      | Some dtls \<Rightarrow>
         (if os_Stat_IsNotExist env (dtls_Cert dtls)
          then Inl (Errorf (''certificate file does not exist: '' @ dtls_Cert dtls))
          else if os_Stat_IsNotExist env (dtls_Key dtls)
          then Inl (Errorf (''key file does not exist: '' @ dtls_Key dtls))
          else case LoadX509KeyPair env (dtls_Cert dtls) (dtls_Key dtls) of
            Inl err \<Rightarrow> Inl (Wrapped ''failed to load certificate and key'' err)
          | Inr cert \<Rightarrow>
              (let tlsConfig = \<lparr>InsecureSkipVerify = dtls_Insecure dtls, Certificates = [cert],
                                NextProtos = [], RootCAs = None\<rparr>
               in if dtls_RootCA dtls \<noteq> []
                  then case os_ReadFile env (dtls_RootCA dtls) of
                      Inl err \<Rightarrow> Inl (Wrapped ''failed to read root CA file'' err)
                    | Inr caCert \<Rightarrow>
                        (if \<not> AppendCertsFromPEM env caCert
                         then Inl (Errorf ''failed to append root CA certificates'')
                         else Inr (Some (tlsConfig\<lparr>RootCAs := Some caCert\<rparr>)))
                  else Inr (Some tlsConfig))))"

section \<open>YAML decoding\<close>

text \<open>
  The YAML library. Its \<open>Decode\<close> on a node fills a plain struct field by field (here the
  anonymous \<open>aux\<close> structs, which have the fields of the struct they serve; the common one
  also holds the raw \<open>config\<close> node); on a target with an \<open>UnmarshalYAML\<close> method it may call that
  method, which is why the \<open>node_Decode\<close> functions take it as an argument.
\<close>

record 'n yaml_lib =
  decode_common :: "'n \<Rightarrow> error + (TransportType \<times> bool \<times> 'n)"
  decode_dummy_aux :: "'n \<Rightarrow> error + DummyTransport"
  decode_uds_aux :: "'n \<Rightarrow> error + UdsTransport"
  decode_quic_aux :: "'n \<Rightarrow> error + QuicTransport"
  decode_tcp_aux :: "'n \<Rightarrow> error + TcpTransport"
  decode_udp_aux :: "'n \<Rightarrow> error + UdpTransport"
  node_Decode_dummy :: "'n \<Rightarrow> (DummyTransport \<Rightarrow> 'n \<Rightarrow> error option \<times> DummyTransport) \<Rightarrow>
    DummyTransport \<Rightarrow> error option \<times> DummyTransport"
  node_Decode_uds :: "'n \<Rightarrow> (UdsTransport \<Rightarrow> 'n \<Rightarrow> error option \<times> UdsTransport) \<Rightarrow>
    UdsTransport \<Rightarrow> error option \<times> UdsTransport"
  node_Decode_quic :: "'n \<Rightarrow> (QuicTransport \<Rightarrow> 'n \<Rightarrow> error option \<times> QuicTransport) \<Rightarrow>
    QuicTransport \<Rightarrow> error option \<times> QuicTransport"
  node_Decode_tcp :: "'n \<Rightarrow> (TcpTransport \<Rightarrow> 'n \<Rightarrow> error option \<times> TcpTransport) \<Rightarrow>
    TcpTransport \<Rightarrow> error option \<times> TcpTransport"
  node_Decode_udp :: "'n \<Rightarrow> (UdpTransport \<Rightarrow> 'n \<Rightarrow> error option \<times> UdpTransport) \<Rightarrow>
    UdpTransport \<Rightarrow> error option \<times> UdpTransport"

definition DummyTransport_UnmarshalYAML ::
    "'n yaml_lib \<Rightarrow> DummyTransport \<Rightarrow> 'n \<Rightarrow> error option \<times> DummyTransport" where
  "DummyTransport_UnmarshalYAML y d value =
     (case decode_dummy_aux y value of
        Inl err \<Rightarrow> (Some (Wrapped ''failed to unmarshal dummy transport fields'' err), d)
      | Inr aux \<Rightarrow>
          (None, d\<lparr>dummy_Type := dummy_Type aux, dummy_Enabled := dummy_Enabled aux, dummy_IPv4 := dummy_IPv4 aux, dummy_Port := dummy_Port aux, dummy_TLS := dummy_TLS aux\<rparr>))"

definition UdsTransport_UnmarshalYAML ::
    "'n yaml_lib \<Rightarrow> UdsTransport \<Rightarrow> 'n \<Rightarrow> error option \<times> UdsTransport" where
  "UdsTransport_UnmarshalYAML y d value =
     (case decode_uds_aux y value of
        Inl err \<Rightarrow> (Some (Wrapped ''failed to unmarshal UDS transport fields'' err), d)
      | Inr aux \<Rightarrow>
          (None, d\<lparr>uds_Type := uds_Type aux, uds_Enabled := uds_Enabled aux, uds_Socket := uds_Socket aux\<rparr>))"

definition QuicTransport_UnmarshalYAML ::
    "'n yaml_lib \<Rightarrow> QuicTransport \<Rightarrow> 'n \<Rightarrow> error option \<times> QuicTransport" where
  "QuicTransport_UnmarshalYAML y d value =
     (case decode_quic_aux y value of
        Inl err \<Rightarrow> (Some (Wrapped ''failed to unmarshal QUIC transport fields'' err), d)
      | Inr aux \<Rightarrow>
          (None, d\<lparr>quic_Type := quic_Type aux, quic_Enabled := quic_Enabled aux, quic_IPv4 := quic_IPv4 aux, quic_Port := quic_Port aux, quic_TLS := quic_TLS aux\<rparr>))"

definition TcpTransport_UnmarshalYAML ::
    "'n yaml_lib \<Rightarrow> TcpTransport \<Rightarrow> 'n \<Rightarrow> error option \<times> TcpTransport" where
  "TcpTransport_UnmarshalYAML y d value =
     (case decode_tcp_aux y value of
        Inl err \<Rightarrow> (Some (Wrapped ''failed to unmarshal TCP transport fields'' err), d)
      | Inr aux \<Rightarrow>
          (None, d\<lparr>tcp_Type := tcp_Type aux, tcp_Enabled := tcp_Enabled aux, tcp_IPv4 := tcp_IPv4 aux, tcp_Port := tcp_Port aux, tcp_TLS := tcp_TLS aux\<rparr>))"

definition UdpTransport_UnmarshalYAML ::
    "'n yaml_lib \<Rightarrow> UdpTransport \<Rightarrow> 'n \<Rightarrow> error option \<times> UdpTransport" where
  "UdpTransport_UnmarshalYAML y d value =
     (case decode_udp_aux y value of
        Inl err \<Rightarrow> (Some (Wrapped ''failed to unmarshal UDP transport fields'' err), d)
      | Inr aux \<Rightarrow>
          (None, d\<lparr>udp_Type := udp_Type aux, udp_Enabled := udp_Enabled aux, udp_IPv4 := udp_IPv4 aux, udp_Port := udp_Port aux, udp_DTLS := udp_DTLS aux\<rparr>))"

text \<open>The zero values the local variables of \<open>UnmarshalYAML\<close> start from.\<close>

definition zero_TLS :: TLS where
  "zero_TLS = \<lparr>tls_Insecure = False, tls_Cert = [], tls_Key = [], tls_RootCA = []\<rparr>"

definition zero_Dummy :: DummyTransport where
  "zero_Dummy = \<lparr>dummy_Type = 0, dummy_Enabled = False, dummy_IPv4 = [], dummy_Port = 0,
                 dummy_TLS = zero_TLS\<rparr>"

definition zero_Uds :: UdsTransport where
  "zero_Uds = \<lparr>uds_Type = 0, uds_Enabled = False, uds_Socket = []\<rparr>"

definition zero_Quic :: QuicTransport where
  "zero_Quic = \<lparr>quic_Type = 0, quic_Enabled = False, quic_IPv4 = [], quic_Port = 0,
                quic_TLS = zero_TLS\<rparr>"

definition zero_Tcp :: TcpTransport where
  "zero_Tcp = \<lparr>tcp_Type = 0, tcp_Enabled = False, tcp_IPv4 = [], tcp_Port = 0, tcp_TLS = None\<rparr>"

definition zero_Udp :: UdpTransport where
  "zero_Udp = \<lparr>udp_Type = 0, udp_Enabled = False, udp_IPv4 = [], udp_Port = 0, udp_DTLS = None\<rparr>"

definition Transport_UnmarshalYAML ::
    "'n yaml_lib \<Rightarrow> Transport \<Rightarrow> 'n \<Rightarrow> error option \<times> Transport" where
  "Transport_UnmarshalYAML y t value =
     (case decode_common y value of
        Inl err \<Rightarrow> (Some (Wrapped ''failed to unmarshal common transport fields'' err), t)
      | Inr (aux_Type, aux_Enabled, aux_Config) \<Rightarrow>
         (let t = t\<lparr>tr_Type := aux_Type, tr_Enabled := aux_Enabled\<rparr>
          in if tr_Type t = DummyTransportType then
               (case node_Decode_dummy y aux_Config (DummyTransport_UnmarshalYAML y) zero_Dummy of
                  (Some err, _) \<Rightarrow> (Some (Wrapped ''failed to unmarshal dummy transport config'' err), t)
                | (None, c) \<Rightarrow>
                    (None, t\<lparr>tr_Config := Some (CDummy (c\<lparr>dummy_Type := DummyTransportType\<rparr>))\<rparr>))
             else if tr_Type t = UDSTransportType then
               (case node_Decode_uds y aux_Config (UdsTransport_UnmarshalYAML y) zero_Uds of
                  (Some err, _) \<Rightarrow> (Some (Wrapped ''failed to unmarshal UDS transport config'' err), t)
                | (None, c) \<Rightarrow>
                    (None, t\<lparr>tr_Config := Some (CUds (c\<lparr>uds_Type := UDSTransportType\<rparr>))\<rparr>))
             else if tr_Type t = QUICTransportType then
               (case node_Decode_quic y aux_Config (QuicTransport_UnmarshalYAML y) zero_Quic of
                  (Some err, _) \<Rightarrow> (Some (Wrapped ''failed to unmarshal QUIC transport config'' err), t)
                | (None, c) \<Rightarrow>
                    (None, t\<lparr>tr_Config := Some (CQuic (c\<lparr>quic_Type := QUICTransportType\<rparr>))\<rparr>))
             else if tr_Type t = TCPTransportType then
               (case node_Decode_tcp y aux_Config (TcpTransport_UnmarshalYAML y) zero_Tcp of
                  (Some err, _) \<Rightarrow> (Some (Wrapped ''failed to unmarshal TCP transport config'' err), t)
                | (None, c) \<Rightarrow>
                    (None, t\<lparr>tr_Config := Some (CTcp (c\<lparr>tcp_Type := TCPTransportType\<rparr>))\<rparr>))
             else if tr_Type t = UDPTransportType then
               (case node_Decode_udp y aux_Config (UdpTransport_UnmarshalYAML y) zero_Udp of
                  (Some err, _) \<Rightarrow> (Some (Wrapped ''failed to unmarshal UDP transport config'' err), t)
                | (None, c) \<Rightarrow>
                    (None, t\<lparr>tr_Config := Some (CUdp (c\<lparr>udp_Type := UDPTransportType\<rparr>))\<rparr>))
             else (Some (Errorf (''unsupported transport type: '' @ TransportType_String (tr_Type t))), t)))"

text \<open>
  \<open>LoadConfig\<close>: the file contents and the YAML library's \<open>Unmarshal\<close> into a zero \<open>Config\<close> are
  inputs.
\<close>

definition LoadConfig ::
    "(string \<Rightarrow> error + bytes) \<Rightarrow> (bytes \<Rightarrow> error + Config) \<Rightarrow> string \<Rightarrow> error + Config" where
  "LoadConfig ReadFile yaml_Unmarshal filename =
     (case ReadFile filename of
        Inl err \<Rightarrow> Inl (Wrapped ''failed to read config file'' err)
      | Inr data \<Rightarrow>
         (case yaml_Unmarshal data of
            Inl err \<Rightarrow> Inl (Wrapped ''failed to unmarshal yaml'' err)
          | Inr rawConfig \<Rightarrow>
             (case Config_Validate rawConfig of
                Some err \<Rightarrow> Inl (Wrapped ''invalid configuration'' err)
              | None \<Rightarrow> Inr rawConfig)))"

section \<open>Lemmas\<close>

text \<open>The dynamic type of a configuration, as a transport type.\<close>

fun config_kind :: "TransportConfig \<Rightarrow> TransportType" where
  "config_kind (CDummy q) = DummyTransportType"
| "config_kind (CUds u) = UDSTransportType"
| "config_kind (CQuic q) = QUICTransportType"
| "config_kind (CTcp t) = TCPTransportType"
| "config_kind (CUdp t) = UDPTransportType"

text \<open>
  A decoded entry: the configuration is there, and the entry, its dynamic type and its own
  type field agree.
\<close>

definition wf_Transport :: "Transport \<Rightarrow> bool" where
  "wf_Transport t \<longleftrightarrow>
     (case tr_Config t of
        None \<Rightarrow> False
      | Some c \<Rightarrow> config_kind c = tr_Type t \<and> GetTransportType c = tr_Type t)"

lemma Transport_UnmarshalYAML_wf:
  "Transport_UnmarshalYAML y t value = (None, t') \<Longrightarrow> wf_Transport t'"
  by (auto simp: Transport_UnmarshalYAML_def wf_Transport_def Let_def go_simps
      split: sum.splits prod.splits option.splits if_splits)

section \<open>Properties\<close>

text \<open>A YAML library on nodes that hold the decoded parts already.\<close>

definition sample_yaml :: "bool yaml_lib" where
  "sample_yaml =
     \<lparr>decode_common = (\<lambda>tcp. Inr (if tcp then TCPTransportType else UDPTransportType, tcp = False, tcp)),
      decode_dummy_aux = (\<lambda>_. Inr zero_Dummy), decode_uds_aux = (\<lambda>_. Inr zero_Uds),
      decode_quic_aux = (\<lambda>_. Inr zero_Quic), decode_tcp_aux = (\<lambda>_. Inr zero_Tcp),
      decode_udp_aux = (\<lambda>_. Inr zero_Udp),
      node_Decode_dummy = (\<lambda>n u d. u d n), node_Decode_uds = (\<lambda>n u d. u d n),
      node_Decode_quic = (\<lambda>n u d. u d n), node_Decode_tcp = (\<lambda>n u d. u d n),
      node_Decode_udp = (\<lambda>n u d. u d n)\<rparr>"

text \<open>
  C33. Decoding a transport entry is all or nothing about its type: whatever the YAML library
  yields, an entry that is accepted has a configuration, of the kind its type says, whose own
  type field agrees; and an entry of no known type is refused.
\<close>

theorem transport_yaml_typed:
  "(case Transport_UnmarshalYAML y t value of
      (None, t') \<Rightarrow> wf_Transport t' \<and> tr_Type t' \<in> {0..4}
    | (Some err, t') \<Rightarrow> tr_Config t' = tr_Config t)"
proof -
  obtain r t' where u: "Transport_UnmarshalYAML y t value = (r, t')" by fastforce
  show ?thesis
  proof (cases r)
    case None
    then have "wf_Transport t'" using Transport_UnmarshalYAML_wf [of y t "value" t'] u by simp
    moreover from this obtain c where "config_kind c = tr_Type t'"
      by (cases "tr_Config t'") (auto simp: wf_Transport_def)
    then have "tr_Type t' \<in> {0..4}" by (cases c) (auto simp: transport_types)
    ultimately show ?thesis by (simp add: u None)
  next
    case (Some err)
    then have "tr_Config t' = tr_Config t"
      using u by (auto simp: Transport_UnmarshalYAML_def Let_def
          split: sum.split_asm prod.split_asm option.split_asm if_split_asm)
    then show ?thesis by (simp add: u Some)
  qed
qed

text \<open>
  The QUIC TLS configuration exists exactly when the certificate and key files exist and
  load as a pair and the root CA, if one is named, can be read and parsed; it then carries
  that one certificate, the QUIC protocol name and the root CA.
\<close>

theorem quic_tls_config_iff:
  "QuicTransport_GetTLSConfig env q = Inr cfg \<longleftrightarrow>
     \<not> os_Stat_IsNotExist env (tls_Cert (quic_TLS q)) \<and>
     \<not> os_Stat_IsNotExist env (tls_Key (quic_TLS q)) \<and>
     (\<exists>cert. LoadX509KeyPair env (tls_Cert (quic_TLS q)) (tls_Key (quic_TLS q)) = Inr cert \<and>
        (if tls_RootCA (quic_TLS q) = []
         then cfg = \<lparr>InsecureSkipVerify = False, Certificates = [cert],
                     NextProtos = [''quic-example''], RootCAs = None\<rparr>
         else \<exists>ca. os_ReadFile env (tls_RootCA (quic_TLS q)) = Inr ca \<and> AppendCertsFromPEM env ca \<and>
           cfg = \<lparr>InsecureSkipVerify = False, Certificates = [cert],
                  NextProtos = [''quic-example''], RootCAs = Some ca\<rparr>))"
  by (auto simp: QuicTransport_GetTLSConfig_def Let_def split: sum.splits)

end
