(* ===== verification/Observability.thy ===== *)
theory Observability
  imports Config
begin

text \<open>
  What the instance uses to be observed: \<^verbatim>\<open>src/logger\<close> (the choice of a logger and the helpers that
  write entries), \<^verbatim>\<open>src/pprof\<close> (the profiling server) and \<^verbatim>\<open>src/metrics\<close> (the meter provider). The
  libraries behind them (zap, \<^verbatim>\<open>net/http\<close>, OpenTelemetry) are parameters.
\<close>

section \<open>The logger\<close>

text \<open>
  A zap configuration, as far as the two constructors set it; a logger is represented by the
  configuration it was built from.
\<close>

datatype level_encoder = LowercaseLevelEncoder | CapitalLevelEncoder | CapitalColorLevelEncoder

record zap_Config =
  zc_Level :: int
  zc_Encoding :: string
  zc_EncodeLevel :: level_encoder

record zap_lib =
  zap_ParseAtomicLevel :: "string \<Rightarrow> error + int"
  zap_NewProductionConfig :: zap_Config
  zap_NewDevelopmentConfig :: zap_Config
  zap_Build :: "zap_Config \<Rightarrow> error option"

definition GetProductionLogger :: "zap_lib \<Rightarrow> int \<Rightarrow> error + zap_Config" where
  "GetProductionLogger zap level =
     (let config = zap_NewProductionConfig zap;
          config = config\<lparr>zc_Level := level\<rparr>
      in case zap_Build zap config of Some err \<Rightarrow> Inl err | None \<Rightarrow> Inr config)"

definition GetDevelopmentLogger :: "zap_lib \<Rightarrow> int \<Rightarrow> error + zap_Config" where
  "GetDevelopmentLogger zap level =
     (let config = zap_NewDevelopmentConfig zap;
          config = config\<lparr>zc_Level := level\<rparr>;
          config = config\<lparr>zc_EncodeLevel := CapitalColorLevelEncoder\<rparr>
      in case zap_Build zap config of Some err \<Rightarrow> Inl err | None \<Rightarrow> Inr config)"

definition GetLogger :: "zap_lib \<Rightarrow> string \<Rightarrow> string \<Rightarrow> error + zap_Config" where
  "GetLogger zap env level =
     (case zap_ParseAtomicLevel zap level of
        Inl err \<Rightarrow> Inl (Errorf (''invalid logger level provided: '' @ level @ '' - err: '' @ Error_text err))
      | Inr configLevel \<Rightarrow>
         (if env = ''development'' then GetDevelopmentLogger zap configLevel
          else if env = ''production'' then GetProductionLogger zap configLevel
          else Inl (Errorf (''not supported environment requested env: '' @ env))))"

text \<open>
  The helpers hand an entry to the global logger. \<open>Fatal\<close> ends the process: it gives the exit
  status, the others go on.
\<close>

datatype log_level = FatalLevel | ErrorLevel | WarnLevel | InfoLevel | DebugLevel

datatype log_field = FieldText string string | FieldError "error option"

type_synonym log_entry = "log_level \<times> string \<times> log_field list"

definition logger_Fatal :: "string \<Rightarrow> error option \<Rightarrow> log_field list \<Rightarrow> log_entry list \<Rightarrow> nat option \<times> log_entry list" where
  "logger_Fatal message err fs out = (Some 1, out @ [(FatalLevel, message, fs @ [FieldError err])])"

definition logger_Error :: "string \<Rightarrow> error option \<Rightarrow> log_field list \<Rightarrow> log_entry list \<Rightarrow> nat option \<times> log_entry list" where
  "logger_Error message err fs out = (None, out @ [(ErrorLevel, message, fs @ [FieldError err])])"

definition logger_Warn :: "string \<Rightarrow> log_field list \<Rightarrow> log_entry list \<Rightarrow> nat option \<times> log_entry list" where
  "logger_Warn message fs out = (None, out @ [(WarnLevel, message, fs)])"

definition logger_Info :: "string \<Rightarrow> log_field list \<Rightarrow> log_entry list \<Rightarrow> nat option \<times> log_entry list" where
  "logger_Info message fs out = (None, out @ [(InfoLevel, message, fs)])"

definition logger_Debug :: "string \<Rightarrow> log_field list \<Rightarrow> log_entry list \<Rightarrow> nat option \<times> log_entry list" where
  "logger_Debug message fs out = (None, out @ [(DebugLevel, message, fs)])"

section \<open>pprof\<close>

record PprofServer =
  pp_opts :: Pprof

definition Pprof_New :: "Pprof \<Rightarrow> PprofServer" where
  "Pprof_New opts = \<lparr>pp_opts = opts\<rparr>"

definition Pprof_IsEnabled :: "PprofServer \<Rightarrow> bool" where
  "Pprof_IsEnabled p = pprof_Enabled (pp_opts p)"

definition Pprof_GetName :: "PprofServer \<Rightarrow> string" where
  "Pprof_GetName p = pprof_Name (pp_opts p)"

definition Pprof_GetAddress :: "PprofServer \<Rightarrow> string" where
  "Pprof_GetAddress p = pprof_Addr (pp_opts p)"

text \<open>\<open>Start\<close>: \<open>ListenAndServe\<close> returns only with an error, and is blocked while it serves.\<close>

definition Pprof_Start :: "(string \<Rightarrow> error go) \<Rightarrow> PprofServer \<Rightarrow> error go" where
  "Pprof_Start ListenAndServe p = ListenAndServe (pprof_Addr (pp_opts p))"

section \<open>Metrics\<close>

text \<open>The OpenTelemetry library: exporters, readers, providers and meters, and the global provider.\<close>

record ('x, 'r, 'p, 'm) otel_lib =
  otlpmetric_New :: "string \<Rightarrow> error + 'x"
  NewPeriodicReader :: "'x \<Rightarrow> int \<Rightarrow> 'r"
  NewMeterProvider :: "'r \<Rightarrow> 'p"
  provider_Meter :: "'p \<Rightarrow> string \<Rightarrow> 'm"
  provider_Shutdown :: "'p \<Rightarrow> error option"

record 'p Metrics =
  meterProvider :: 'p

text \<open>\<open>NewMetrics\<close>: the second result is the global provider after the call.\<close>

definition NewMetrics ::
    "('x, 'r, 'p, 'm) otel_lib \<Rightarrow> string \<Rightarrow> 'p option \<Rightarrow> (error + 'p Metrics) \<times> 'p option" where
  "NewMetrics lib endpoint global =
     (case otlpmetric_New lib endpoint of
        Inl err \<Rightarrow> (Inl err, global)
      | Inr exporter \<Rightarrow>
          let reader = NewPeriodicReader lib exporter (15 * 1000000000);
              provider = NewMeterProvider lib reader
          in (Inr \<lparr>meterProvider = provider\<rparr>, Some provider))"

definition GetMeter :: "('x, 'r, 'p, 'm) otel_lib \<Rightarrow> 'p Metrics \<Rightarrow> string \<Rightarrow> 'm" where
  "GetMeter lib m instrumentationName = provider_Meter lib (meterProvider m) instrumentationName"

definition Metrics_Shutdown :: "('x, 'r, 'p, 'm) otel_lib \<Rightarrow> 'p Metrics \<Rightarrow> error option" where
  "Metrics_Shutdown lib m = provider_Shutdown lib (meterProvider m)"

section \<open>Lemmas\<close>

text \<open>The environments are exactly two, and the level of the logger is the one that was parsed.\<close>

lemma GetLogger_Inr:
  assumes "GetLogger zap env level = Inr l"
  shows "env \<in> {''development'', ''production''}" and "zap_ParseAtomicLevel zap level = Inr (zc_Level l)"
    and "env = ''development'' \<Longrightarrow> zc_EncodeLevel l = CapitalColorLevelEncoder"
    and "zap_Build zap l = None"
  using assms
  by (auto simp: GetLogger_def GetProductionLogger_def GetDevelopmentLogger_def Let_def
      split: sum.split_asm if_splits option.split_asm)

lemma GetLogger_error:
  assumes "env \<notin> {''development'', ''production''}"
  shows "\<exists>err. GetLogger zap env level = Inl err"
  using assms by (auto simp: GetLogger_def split: sum.split)

text \<open>A failed exporter leaves the global provider alone; otherwise it is the one returned.\<close>

lemma NewMetrics_global:
  assumes "NewMetrics lib endpoint global = (r, global')"
  shows "case r of Inl err \<Rightarrow> global' = global \<and> otlpmetric_New lib endpoint = Inl err
    | Inr m \<Rightarrow> global' = Some (meterProvider m)"
  using assms by (auto simp: NewMetrics_def Let_def split: sum.splits)

end
