(* ===== verification/Engine.thy ===== *)
theory Engine
  imports Prelude
begin

text \<open>
  The storage engine (the MDBX binding, which is not part of the repository) as a parameter.
  A value of the record \<open>mdbx\<close> gives the behaviour of every method the sources call; the
  predicate \<open>mdbx_ok\<close> states the documented behaviour the code relies on, over two
  specification fields that say which key-value pairs an environment and a transaction
  hold. \<open>mem_mdbx\<close> is an engine that satisfies it: a bounded in-memory store.
\<close>

section \<open>The engine's methods\<close>

type_synonym dbi = nat

text \<open>The variables of the enclosing Go function that a transaction closure assigns.\<close>

record txn_vars =
  tv_value :: bytes
  tv_dbi :: dbi

type_synonym 't txn_fn = "'t \<Rightarrow> txn_vars \<Rightarrow> error option \<times> 't \<times> txn_vars"

text \<open>
  \<open>'e\<close> is the state behind an environment handle, \<open>'t\<close> that behind a transaction handle.
  Integers are passed at their 64-bit width. A cursor is identified by the table it was
  opened on. The fields \<open>env_store\<close> and \<open>txn_store\<close> are for specification only.
\<close>

record ('e, 't) mdbx =
  NewEnv :: "error + 'e"
  SetGeometry :: "'e \<Rightarrow> 64 word \<Rightarrow> 64 word \<Rightarrow> 64 word \<Rightarrow> 64 word \<Rightarrow> 64 word \<Rightarrow> 64 word \<Rightarrow>
    error option \<times> 'e"
  SetOption_MaxReaders :: "'e \<Rightarrow> 64 word \<Rightarrow> error option \<times> 'e"
  Open_Create :: "'e \<Rightarrow> string \<Rightarrow> 32 word \<Rightarrow> error option \<times> 'e"
  Env_Close :: "'e \<Rightarrow> 'e"
  Update :: "'e \<Rightarrow> 't txn_fn \<Rightarrow> txn_vars \<Rightarrow> error option \<times> 'e \<times> txn_vars"
  View :: "'e \<Rightarrow> 't txn_fn \<Rightarrow> txn_vars \<Rightarrow> error option \<times> txn_vars"
  OpenRoot_Create :: "'t \<Rightarrow> dbi \<times> error option \<times> 't"
  OpenCursor :: "'t \<Rightarrow> dbi \<Rightarrow> error option"
  Cursor_Put :: "'t \<Rightarrow> dbi \<Rightarrow> bytes \<Rightarrow> bytes \<Rightarrow> error option \<times> 't"
  Txn_Get :: "'t \<Rightarrow> dbi \<Rightarrow> bytes \<Rightarrow> bytes \<times> error option"
  Txn_Del :: "'t \<Rightarrow> dbi \<Rightarrow> bytes \<Rightarrow> error option \<times> 't"
  env_store :: "'e \<Rightarrow> bytes \<rightharpoonup> bytes"
  txn_store :: "'t \<Rightarrow> bytes \<rightharpoonup> bytes"

text \<open>The engine's sentinel \<^verbatim>\<open>mdbx.ErrNotFound\<close>.\<close>

abbreviation ErrNotFound :: string where
  "ErrNotFound \<equiv> ''mdbx.ErrNotFound''"

section \<open>Documented behaviour\<close>

text \<open>
  \<open>Update\<close> runs the closure in a write transaction on the environment's contents. An error
  of the closure aborts the transaction and is returned; when the closure returns nil the
  transaction is committed. Beginning or committing may fail, and then nothing is written.
\<close>

definition update_ok :: "('e, 't) mdbx \<Rightarrow> bool" where
  "update_ok m \<longleftrightarrow> (\<forall>e f v r e' v'. Update m e f v = (r, e', v') \<longrightarrow>
     (r \<noteq> None \<and> env_store m e' = env_store m e \<and> v' = v) \<or>
     (\<exists>t fr t'. txn_store m t = env_store m e \<and> f t v = (fr, t', v') \<and>
        (case fr of
           Some x \<Rightarrow> r = Some x \<and> env_store m e' = env_store m e
         | None \<Rightarrow> (r = None \<and> env_store m e' = txn_store m t') \<or>
                   (r \<noteq> None \<and> env_store m e' = env_store m e))))"

text \<open>
  \<open>View\<close> runs the closure on a consistent view of the environment and returns its error;
  beginning the transaction may fail, with an error that is not \<open>ErrNotFound\<close>.
\<close>

definition view_ok :: "('e, 't) mdbx \<Rightarrow> bool" where
  "view_ok m \<longleftrightarrow> (\<forall>e f v r v'. View m e f v = (r, v') \<longrightarrow>
     (\<exists>x. r = Some x \<and> \<not> errors_Is x ErrNotFound \<and> v' = v) \<or>
     (\<exists>t t'. txn_store m t = env_store m e \<and> f t v = (r, t', v')))"

text \<open>
  The operations inside a transaction: a lookup returns the stored value or \<open>ErrNotFound\<close>, a
  \<open>Put\<close> that returns nil has stored the pair, and a \<open>Del\<close> that returns nil has removed the key,
  which was there; \<open>Del\<close> of a missing key reports \<open>ErrNotFound\<close>.
\<close>

definition txn_ok :: "('e, 't) mdbx \<Rightarrow> bool" where
  "txn_ok m \<longleftrightarrow>
     (\<forall>t d k. case txn_store m t k of
        Some v \<Rightarrow> Txn_Get m t d k = (v, None)
      | None \<Rightarrow> (\<exists>x. Txn_Get m t d k = ([], Some x) \<and> errors_Is x ErrNotFound)) \<and>
     (\<forall>t d k v t'. Cursor_Put m t d k v = (None, t') \<longrightarrow> txn_store m t' = (txn_store m t)(k \<mapsto> v)) \<and>
     (\<forall>t d k t'. Txn_Del m t d k = (None, t') \<longrightarrow>
        k \<in> dom (txn_store m t) \<and> txn_store m t' = (txn_store m t)(k := None)) \<and>
     (\<forall>t d k. txn_store m t k = None \<longrightarrow>
        (\<exists>x t'. Txn_Del m t d k = (Some x, t') \<and> errors_Is x ErrNotFound))"

definition mdbx_ok :: "('e, 't) mdbx \<Rightarrow> bool" where
  "mdbx_ok m \<longleftrightarrow> update_ok m \<and> view_ok m \<and> txn_ok m"

text \<open>How the laws are used: what a call of \<open>Update\<close> and of \<open>View\<close> can be.\<close>

lemma update_cases:
  assumes "mdbx_ok m" and "Update m e f v = (r, e', v')"
  obtains (refused) x where "r = Some x" "env_store m e' = env_store m e"
  | (committed) t t' where "r = None" "txn_store m t = env_store m e" "f t v = (None, t', v')"
      "env_store m e' = txn_store m t'"
proof -
  from assms have "(r \<noteq> None \<and> env_store m e' = env_store m e \<and> v' = v) \<or>
     (\<exists>t fr t'. txn_store m t = env_store m e \<and> f t v = (fr, t', v') \<and>
        (case fr of
           Some x \<Rightarrow> r = Some x \<and> env_store m e' = env_store m e
         | None \<Rightarrow> (r = None \<and> env_store m e' = txn_store m t') \<or>
                   (r \<noteq> None \<and> env_store m e' = env_store m e)))"
    unfolding mdbx_ok_def update_ok_def by blast
  then show thesis using that by (auto split: option.splits)
qed

lemma view_cases:
  assumes "mdbx_ok m" and "View m e f v = (r, v')"
  obtains (refused) x where "r = Some x" "\<not> errors_Is x ErrNotFound" "v' = v"
  | (ran) t t' where "txn_store m t = env_store m e" "f t v = (r, t', v')"
  using assms unfolding mdbx_ok_def view_ok_def by blast

lemma get_cases:
  assumes "mdbx_ok m"
  obtains (found) v where "txn_store m t k = Some v" "Txn_Get m t d k = (v, None)"
  | (missing) x where "txn_store m t k = None" "Txn_Get m t d k = ([], Some x)"
      "errors_Is x ErrNotFound"
proof -
  have "case txn_store m t k of
        Some v \<Rightarrow> Txn_Get m t d k = (v, None)
      | None \<Rightarrow> (\<exists>x. Txn_Get m t d k = ([], Some x) \<and> errors_Is x ErrNotFound)"
    using assms unfolding mdbx_ok_def txn_ok_def by blast
  then show thesis using found missing by (cases "txn_store m t k") auto
qed

lemma put_ok:
  "mdbx_ok m \<Longrightarrow> Cursor_Put m t d k v = (None, t') \<Longrightarrow> txn_store m t' = (txn_store m t)(k \<mapsto> v)"
  unfolding mdbx_ok_def txn_ok_def by blast

lemma del_ok:
  "mdbx_ok m \<Longrightarrow> Txn_Del m t d k = (None, t') \<Longrightarrow>
   k \<in> dom (txn_store m t) \<and> txn_store m t' = (txn_store m t)(k := None)"
  unfolding mdbx_ok_def txn_ok_def by blast

section \<open>An engine that satisfies the laws\<close>

text \<open>
  A store that holds at most \<open>limit\<close> entries, when a limit is given: a \<open>Put\<close> of a new key
  beyond the limit fails and the transaction is rolled back.
\<close>

type_synonym mem_store = "(bytes \<times> bytes) list"

definition mem_full :: "nat option \<Rightarrow> mem_store \<Rightarrow> bool" where
  "mem_full limit t = (case limit of None \<Rightarrow> False | Some n \<Rightarrow> n \<le> length t)"

definition mem_mdbx :: "nat option \<Rightarrow> (mem_store, mem_store) mdbx" where
  "mem_mdbx limit =
    \<lparr>NewEnv = Inr [],
     SetGeometry = (\<lambda>e a b c d f g. (None, e)),
     SetOption_MaxReaders = (\<lambda>e n. (None, e)),
     Open_Create = (\<lambda>e p perm. (None, e)),
     Env_Close = (\<lambda>e. e),
     Update = (\<lambda>e f v. case f e v of
        (None, t, v') \<Rightarrow> (None, t, v')
      | (Some x, t, v') \<Rightarrow> (Some x, e, v')),
     View = (\<lambda>e f v. case f e v of (r, t, v') \<Rightarrow> (r, v')),
     OpenRoot_Create = (\<lambda>t. (1, None, t)),
     OpenCursor = (\<lambda>t d. None),
     Cursor_Put = (\<lambda>t d k v.
        if map_of t k = None \<and> mem_full limit t then (Some (LibErr ''mdbx.MapFull'' ''map full''), t)
        else (None, AList.update k v t)),
     Txn_Get = (\<lambda>t d k. case map_of t k of
        Some v \<Rightarrow> (v, None)
      | None \<Rightarrow> ([], Some (LibErr ErrNotFound ''not found''))),
     Txn_Del = (\<lambda>t d k. case map_of t k of
        Some v \<Rightarrow> (None, AList.delete k t)
      | None \<Rightarrow> (Some (LibErr ErrNotFound ''not found''), t)),
     env_store = map_of,
     txn_store = map_of\<rparr>"

lemma mem_mdbx_update_ok: "update_ok (mem_mdbx limit)"
  by (auto simp: update_ok_def mem_mdbx_def split: prod.splits option.splits)

lemma mem_mdbx_view_ok: "view_ok (mem_mdbx limit)"
  by (auto simp: view_ok_def mem_mdbx_def split: prod.splits)

lemma mem_mdbx_txn_ok: "txn_ok (mem_mdbx limit)"
  by (auto simp: txn_ok_def mem_mdbx_def delete_conv' split: option.splits if_splits)

lemma mem_mdbx_ok: "mdbx_ok (mem_mdbx limit)"
  by (simp add: mdbx_ok_def mem_mdbx_update_ok mem_mdbx_view_ok mem_mdbx_txn_ok)

end
