(* ===== verification/Database.thy ===== *)
theory Database
  imports Engine Config
begin

text \<open>
  The key-value store of \<^verbatim>\<open>src/db/mdbx.go\<close>, and the interface \<open>Provider\<close> of
  \<^verbatim>\<open>src/db/provider.go\<close> as a locale: the laws every handler relies on are proved once for
  \<open>Provider\<close> and discharged for \<open>Db\<close> by interpretation.
\<close>

section \<open>The struct Db and its operations\<close>

text \<open>
  A \<open>Db\<close> holds its options, the environment and the table handle; the field \<open>db_mdbx\<close> is the
  engine the environment's methods belong to.
\<close>

record ('e, 't) Db =
  db_mdbx :: "('e, 't) mdbx"
  db_opts :: MdbxNode
  db_env :: 'e
  db_dbi :: dbi

abbreviation no_vars :: txn_vars where
  "no_vars \<equiv> \<lparr>tv_value = [], tv_dbi = 0\<rparr>"

text \<open>Sizes are multiplied in 64-bit arithmetic.\<close>

definition gigabytes :: "64 word \<Rightarrow> 64 word" where
  "gigabytes n = n * 1024 * 1024 * 1024"

text \<open>
  \<open>NewDb\<close>. On failure the error comes with the state the environment is left in, if one was
  created: it is closed only when opening the table fails.
\<close>

definition NewDb ::
    "('e, 't) mdbx \<Rightarrow> MdbxNode \<Rightarrow> (error \<times> 'e option) + ('e, 't) Db" where
  "NewDb m opts =
     (case NewEnv m of
        Inl err \<Rightarrow> Inl (err, None)
      | Inr env \<Rightarrow>
         (let maxSize = gigabytes (node_MaxSize opts);
              minSize = gigabytes (node_MinSize opts);
              growthStep = node_GrowthStep opts
          in case SetGeometry m env minSize (-1) maxSize (-1) (-1) growthStep of
               (Some err, env) \<Rightarrow> Inl (err, Some env)
             | (None, env) \<Rightarrow>
          (case SetOption_MaxReaders m env (node_MaxReaders opts) of
               (Some soErr, env) \<Rightarrow> Inl (soErr, Some env)
             | (None, env) \<Rightarrow>
          (case Open_Create m env (node_Path opts) (ucast (node_FilePermissions opts)) of
               (Some eoErr, env) \<Rightarrow> Inl (eoErr, Some env)
             | (None, env) \<Rightarrow>
          (case Update m env
                  (\<lambda>txn vs. case OpenRoot_Create m txn of
                     (dbi, err, txn) \<Rightarrow> (err, txn, vs\<lparr>tv_dbi := dbi\<rparr>)) no_vars of
               (Some err, env, vs) \<Rightarrow> Inl (err, Some (Env_Close m env))
             | (None, env, vs) \<Rightarrow>
                 Inr \<lparr>db_mdbx = m, db_opts = opts, db_env = env, db_dbi = tv_dbi vs\<rparr>)))))"

definition Db_Close :: "('e, 't) Db \<Rightarrow> error option \<times> ('e, 't) Db" where
  "Db_Close db = (None, db\<lparr>db_env := Env_Close (db_mdbx db) (db_env db)\<rparr>)"

text \<open>\<open>Destroy\<close>: what \<^verbatim>\<open>os.RemoveAll\<close> answers for a path is an input.\<close>

definition Db_Destroy ::
    "(string \<Rightarrow> error option) \<Rightarrow> ('e, 't) Db \<Rightarrow> error option \<times> ('e, 't) Db" where
  "Db_Destroy RemoveAll db =
     (case Db_Close db of
        (Some err, db) \<Rightarrow> (Some err, db)
      | (None, db) \<Rightarrow>
         (case RemoveAll (node_Path (db_opts db)) of
            Some err \<Rightarrow> (Some (Wrapped ''failed to remove database files'' err), db)
          | None \<Rightarrow> (None, db)))"

definition Db_GetEnv :: "('e, 't) Db \<Rightarrow> 'e" where
  "Db_GetEnv db = db_env db"

definition Db_GetDBI :: "('e, 't) Db \<Rightarrow> dbi" where
  "Db_GetDBI db = db_dbi db"

definition Db_Set :: "('e, 't) Db \<Rightarrow> bytes \<Rightarrow> bytes \<Rightarrow> error option \<times> ('e, 't) Db" where
  "Db_Set db key value =
     (case Update (db_mdbx db) (db_env db)
             (\<lambda>txn vs. case OpenCursor (db_mdbx db) txn (Db_GetDBI db) of
                Some err \<Rightarrow> (Some (Wrapped ''failed to open cursor'' err), txn, vs)
              | None \<Rightarrow>
                  (case Cursor_Put (db_mdbx db) txn (Db_GetDBI db) key value of
                     (err, txn) \<Rightarrow> (err, txn, vs))) no_vars of
        (err, env, vs) \<Rightarrow> (err, db\<lparr>db_env := env\<rparr>))"

definition Db_Get :: "('e, 't) Db \<Rightarrow> bytes \<Rightarrow> bytes \<times> error option" where
  "Db_Get db key =
     (case View (db_mdbx db) (db_env db)
             (\<lambda>txn vs. case Txn_Get (db_mdbx db) txn (db_dbi db) key of
                (value, err) \<Rightarrow> (err, txn, vs\<lparr>tv_value := value\<rparr>)) no_vars of
        (err, vs) \<Rightarrow> (tv_value vs, err))"

definition Db_Exists :: "('e, 't) Db \<Rightarrow> bytes \<Rightarrow> bool \<times> error option" where
  "Db_Exists db key =
     (case View (db_mdbx db) (db_env db)
             (\<lambda>txn vs. case Txn_Get (db_mdbx db) txn (db_dbi db) key of
                (_, err) \<Rightarrow> (err, txn, vs)) no_vars of
        (None, vs) \<Rightarrow> (True, None)
      | (Some err, vs) \<Rightarrow> (if errors_Is err ErrNotFound then (False, None) else (False, Some err)))"

definition Db_Delete :: "('e, 't) Db \<Rightarrow> bytes \<Rightarrow> error option \<times> ('e, 't) Db" where
  "Db_Delete db key =
     (case Update (db_mdbx db) (db_env db)
             (\<lambda>txn vs. case Txn_Del (db_mdbx db) txn (db_dbi db) key of
                (err, txn) \<Rightarrow> (err, txn, vs)) no_vars of
        (err, env, vs) \<Rightarrow> (err, db\<lparr>db_env := env\<rparr>))"

text \<open>
  The interface \<open>Provider\<close> of \<^verbatim>\<open>src/db/provider.go\<close> as the record of its methods, and the value of this type
  that \<open>Db\<close> is.
\<close>

record 'd Provider =
  pr_Set :: "'d \<Rightarrow> bytes \<Rightarrow> bytes \<Rightarrow> error option \<times> 'd"
  pr_Get :: "'d \<Rightarrow> bytes \<Rightarrow> bytes \<times> error option"
  pr_Exists :: "'d \<Rightarrow> bytes \<Rightarrow> bool \<times> error option"
  pr_Delete :: "'d \<Rightarrow> bytes \<Rightarrow> error option \<times> 'd"
  pr_Close :: "'d \<Rightarrow> error option \<times> 'd"
  pr_Destroy :: "'d \<Rightarrow> error option \<times> 'd"

definition Db_Provider :: "(string \<Rightarrow> error option) \<Rightarrow> ('e, 't) Db Provider" where
  "Db_Provider RemoveAll =
     \<lparr>pr_Set = Db_Set, pr_Get = Db_Get, pr_Exists = Db_Exists, pr_Delete = Db_Delete,
      pr_Close = Db_Close, pr_Destroy = Db_Destroy RemoveAll\<rparr>"

text \<open>The sentinel of \<^verbatim>\<open>src/errors/errors.go\<close>, with its qualified name as the tag.\<close>

definition errors_ErrNotFound :: error where
  "errors_ErrNotFound = LibErr ''errors.ErrNotFound'' ''key not found''"

section \<open>Contents and well-formedness\<close>

text \<open>The pairs the database holds, and the requirement on its engine.\<close>

definition db_store :: "('e, 't) Db \<Rightarrow> bytes \<rightharpoonup> bytes" where
  "db_store db = env_store (db_mdbx db) (db_env db)"

definition db_ok :: "('e, 't) Db \<Rightarrow> bool" where
  "db_ok db \<longleftrightarrow> mdbx_ok (db_mdbx db)"

lemma Db_Set_cases:
  assumes "db_ok db" and "Db_Set db k v = (r, db')"
  shows "db_ok db'" and "db_store db' = (if r = None then (db_store db)(k \<mapsto> v) else db_store db)"
proof -
  let ?m = "db_mdbx db"
  obtain env vs where upd: "Update ?m (db_env db)
       (\<lambda>txn vs. case OpenCursor ?m txn (Db_GetDBI db) of
          Some err \<Rightarrow> (Some (Wrapped ''failed to open cursor'' err), txn, vs)
        | None \<Rightarrow> (case Cursor_Put ?m txn (Db_GetDBI db) k v of (err, txn) \<Rightarrow> (err, txn, vs)))
       no_vars = (r, env, vs)" and db': "db' = db\<lparr>db_env := env\<rparr>"
    using assms(2) by (auto simp: Db_Set_def split: prod.splits)
  have m: "mdbx_ok ?m" using assms(1) by (simp add: db_ok_def)
  show "db_ok db'" using m by (simp add: db_ok_def db')
  show "db_store db' = (if r = None then (db_store db)(k \<mapsto> v) else db_store db)"
    using m upd
    by (rule update_cases)
       (auto simp: db_store_def db' dest: put_ok [OF m] split: option.splits prod.splits)
qed

lemma Db_Delete_cases:
  assumes "db_ok db" and "Db_Delete db k = (r, db')"
  shows "db_ok db'" and "db_store db' = (if r = None then (db_store db)(k := None) else db_store db)"
    and "r = None \<Longrightarrow> k \<in> dom (db_store db)"
proof -
  let ?m = "db_mdbx db"
  obtain env vs where upd: "Update ?m (db_env db)
       (\<lambda>txn vs. case Txn_Del ?m txn (db_dbi db) k of (err, txn) \<Rightarrow> (err, txn, vs))
       no_vars = (r, env, vs)" and db': "db' = db\<lparr>db_env := env\<rparr>"
    using assms(2) by (auto simp: Db_Delete_def split: prod.splits)
  have m: "mdbx_ok ?m" using assms(1) by (simp add: db_ok_def)
  show "db_ok db'" using m by (simp add: db_ok_def db')
  show "db_store db' = (if r = None then (db_store db)(k := None) else db_store db)"
    using m upd by (rule update_cases)
       (auto simp: db_store_def db' dest: del_ok [OF m] split: prod.splits)
  show "k \<in> dom (db_store db)" if "r = None"
    using m upd by (rule update_cases)
       (auto simp: db_store_def that dest!: del_ok [OF m] split: prod.splits)
qed

lemma Db_Get_cases:
  assumes "db_ok db"
  obtains (found) v where "db_store db k = Some v" "Db_Get db k = (v, None)"
  | (missing) x where "db_store db k = None" "Db_Get db k = ([], Some x)" "errors_Is x ErrNotFound"
  | (refused) x where "Db_Get db k = ([], Some x)" "\<not> errors_Is x ErrNotFound"
proof -
  let ?m = "db_mdbx db"
  let ?f = "\<lambda>txn vs. case Txn_Get ?m txn (db_dbi db) k of
      (value, err) \<Rightarrow> (err, txn, vs\<lparr>tv_value := value\<rparr>)"
  have m: "mdbx_ok ?m" using assms(1) by (simp add: db_ok_def)
  obtain r vs where v: "View ?m (db_env db) ?f no_vars = (r, vs)" by fastforce
  have get: "Db_Get db k = (tv_value vs, r)" by (simp add: Db_Get_def v)
  from m v show thesis
  proof (rule view_cases)
    fix x assume "r = Some x" "\<not> errors_Is x ErrNotFound" "vs = no_vars"
    then show thesis using refused get by simp
  next
    fix t t' assume t: "txn_store ?m t = env_store ?m (db_env db)" "?f t no_vars = (r, t', vs)"
    show thesis
      by (rule get_cases [OF m, of t k "db_dbi db"])
         (use t get in \<open>auto simp: db_store_def intro: found missing\<close>)
  qed
qed

lemma Db_Exists_cases:
  assumes "db_ok db"
  obtains (found) "k \<in> dom (db_store db)" "Db_Exists db k = (True, None)"
  | (missing) "k \<notin> dom (db_store db)" "Db_Exists db k = (False, None)"
  | (refused) x where "Db_Exists db k = (False, Some x)"
proof -
  let ?m = "db_mdbx db"
  let ?f = "\<lambda>txn vs. case Txn_Get ?m txn (db_dbi db) k of (_, err) \<Rightarrow> (err, txn, vs)"
  have m: "mdbx_ok ?m" using assms(1) by (simp add: db_ok_def)
  obtain r vs where v: "View ?m (db_env db) ?f no_vars = (r, vs)" by fastforce
  from m v show thesis
  proof (rule view_cases)
    fix x assume "r = Some x" "\<not> errors_Is x ErrNotFound"
    then show thesis using refused by (simp add: Db_Exists_def v)
  next
    fix t t' assume t: "txn_store ?m t = env_store ?m (db_env db)" "?f t no_vars = (r, t', vs)"
    show thesis
      by (rule get_cases [OF m, of t k "db_dbi db"])
         (use t in \<open>auto simp: db_store_def Db_Exists_def v intro: found missing\<close>)
  qed
qed

section \<open>The interface Provider\<close>

text \<open>
  The laws of a provider over the pairs it stores: a write that returns nil is a map update
  and one that fails changes nothing, a lookup that returns nil returns the stored value,
  and the not-found answers are truthful. A call may also fail for reasons of the engine.
\<close>

locale provider =
  fixes Set_op :: "'d \<Rightarrow> bytes \<Rightarrow> bytes \<Rightarrow> error option \<times> 'd"
    and Get_op :: "'d \<Rightarrow> bytes \<Rightarrow> bytes \<times> error option"
    and Exists_op :: "'d \<Rightarrow> bytes \<Rightarrow> bool \<times> error option"
    and Delete_op :: "'d \<Rightarrow> bytes \<Rightarrow> error option \<times> 'd"
    and store :: "'d \<Rightarrow> bytes \<rightharpoonup> bytes"
    and good :: "'d \<Rightarrow> bool"
  assumes set_good: "good d \<Longrightarrow> Set_op d k v = (r, d') \<Longrightarrow> good d'"
    and set_store: "good d \<Longrightarrow> Set_op d k v = (r, d') \<Longrightarrow>
      store d' = (if r = None then (store d)(k \<mapsto> v) else store d)"
    and delete_good: "good d \<Longrightarrow> Delete_op d k = (r, d') \<Longrightarrow> good d'"
    and delete_store: "good d \<Longrightarrow> Delete_op d k = (r, d') \<Longrightarrow>
      store d' = (if r = None then (store d)(k := None) else store d)"
    and delete_present: "good d \<Longrightarrow> Delete_op d k = (None, d') \<Longrightarrow> k \<in> dom (store d)"
    and get_found: "good d \<Longrightarrow> Get_op d k = (v, None) \<Longrightarrow> store d k = Some v"
    and get_missing: "good d \<Longrightarrow> Get_op d k = (v, Some x) \<Longrightarrow> errors_Is x ErrNotFound \<Longrightarrow>
      store d k = None"
    and exists_truth: "good d \<Longrightarrow> Exists_op d k = (b, None) \<Longrightarrow> b \<longleftrightarrow> k \<in> dom (store d)"
begin

lemma get_after_set:
  assumes "good d" and "Set_op d k v = (None, d')" and "Get_op d' k' = (x, r)"
  shows "r = None \<Longrightarrow> ((store d)(k \<mapsto> v)) k' = Some x"
    and "k' = k \<Longrightarrow> r = Some e \<Longrightarrow> \<not> errors_Is e ErrNotFound"
proof -
  have d': "good d'" "store d' = (store d)(k \<mapsto> v)"
    using set_good [OF assms(1,2)] set_store [OF assms(1,2)] by simp_all
  show "r = None \<Longrightarrow> ((store d)(k \<mapsto> v)) k' = Some x"
    using get_found [OF d'(1), of k' x] assms(3) d'(2) by simp
  show "k' = k \<Longrightarrow> r = Some e \<Longrightarrow> \<not> errors_Is e ErrNotFound"
    using get_missing [OF d'(1), of k' x e] assms(3) d'(2) by auto
qed

lemma get_after_delete:
  assumes "good d" and "Delete_op d k = (None, d')"
  shows "Get_op d' k \<noteq> (x, None)" and "Exists_op d' k \<noteq> (True, None)"
    and "fst (Delete_op d' k) \<noteq> None"
proof -
  have d': "good d'" "store d' k = None"
    using delete_good [OF assms] delete_store [OF assms] by simp_all
  show "Get_op d' k \<noteq> (x, None)" using get_found [OF d'(1)] d'(2) by fastforce
  show "Exists_op d' k \<noteq> (True, None)" using exists_truth [OF d'(1)] d'(2) by fastforce
  show "fst (Delete_op d' k) \<noteq> None"
    using delete_present [OF d'(1), of k] d'(2) by (cases "Delete_op d' k") auto
qed

end

interpretation mdb: provider Db_Set Db_Get Db_Exists Db_Delete db_store db_ok
proof (unfold_locales, goal_cases)
  case (1 d k v r d')
  then show ?case by (rule Db_Set_cases(1))
next
  case (2 d k v r d')
  then show ?case by (rule Db_Set_cases(2))
next
  case (3 d k r d')
  then show ?case by (rule Db_Delete_cases(1))
next
  case (4 d k r d')
  then show ?case by (rule Db_Delete_cases(2))
next
  case (5 d k d')
  then show ?case by (rule Db_Delete_cases(3)) simp
next
  case (6 d k v)
  from 6(1) show ?case by (rule Db_Get_cases [of d k]) (use 6(2) in auto)
next
  case (7 d k v x)
  from 7(1) show ?case by (rule Db_Get_cases [of d k]) (use 7(2,3) in auto)
next
  case (8 d k b)
  from 8(1) show ?case by (rule Db_Exists_cases [of d k]) (use 8(2) in auto)
qed

interpretation dbp: provider "pr_Set (Db_Provider RemoveAll)" "pr_Get (Db_Provider RemoveAll)"
  "pr_Exists (Db_Provider RemoveAll)" "pr_Delete (Db_Provider RemoveAll)" db_store db_ok for RemoveAll
  by (simp add: Db_Provider_def mdb.provider_axioms)

section \<open>Properties\<close>

text \<open>A database on the in-memory engine, for concrete instances.\<close>

definition sample_node :: MdbxNode where
  "sample_node = \<lparr>node_Name = ''fdb'', node_Path = ''/tmp/'', node_MaxReaders = 4096,
     node_MaxSize = 1024, node_MinSize = 1, node_GrowthStep = 4096, node_FilePermissions = 384\<rparr>"

definition mem_db :: "nat option \<Rightarrow> mem_store \<Rightarrow> (mem_store, mem_store) Db" where
  "mem_db limit entries =
     \<lparr>db_mdbx = mem_mdbx limit, db_opts = sample_node, db_env = entries, db_dbi = 1\<rparr>"

lemma mem_db_ok [simp]: "db_ok (mem_db limit entries)"
  by (simp add: db_ok_def mem_db_def mem_mdbx_ok)

lemma mem_db_store [simp]: "db_store (mem_db limit entries) = map_of entries"
  by (simp add: db_store_def mem_db_def mem_mdbx_def)

lemma mem_db_Set: "Db_Set (mem_db limit es) k v =
    (if map_of es k = None \<and> mem_full limit es
     then (Some (LibErr ''mdbx.MapFull'' ''map full''), mem_db limit es)
     else (None, mem_db limit (AList.update k v es)))"
  by (simp add: Db_Set_def mem_db_def mem_mdbx_def)

lemma mem_db_Get: "Db_Get (mem_db limit es) k =
    (case map_of es k of Some v \<Rightarrow> (v, None) | None \<Rightarrow> ([], Some (LibErr ErrNotFound ''not found'')))"
  by (simp add: Db_Get_def mem_db_def mem_mdbx_def split: option.split)

lemma mem_db_Delete: "Db_Delete (mem_db limit es) k =
    (case map_of es k of
       Some v \<Rightarrow> (None, mem_db limit (AList.delete k es))
     | None \<Rightarrow> (Some (LibErr ErrNotFound ''not found''), mem_db limit es))"
  by (simp add: Db_Delete_def mem_db_def mem_mdbx_def split: option.split)

lemma NewDb_mem: "NewDb (mem_mdbx limit) sample_node = Inr (mem_db limit [])"
  by (simp add: NewDb_def mem_mdbx_def mem_db_def Let_def)

text \<open>
  C25. A value is read back: after a \<open>Set\<close> that returns nil, a \<open>Get\<close> of that key that returns
  nil returns the value, no lookup of it reports that it is missing, and every other key is
  as before; a \<open>Set\<close> that fails leaves the contents unchanged.
\<close>

theorem db_set_get:
  assumes "db_ok db" and "Db_Set db k v = (r, db')"
  shows "(r = None \<longrightarrow> db_store db' = (db_store db)(k \<mapsto> v) \<and>
            (\<forall>x. Db_Get db' k = (x, None) \<longrightarrow> x = v) \<and>
            (\<forall>x e. Db_Get db' k = (x, Some e) \<longrightarrow> \<not> errors_Is e ErrNotFound)) \<and>
         (r \<noteq> None \<longrightarrow> db_store db' = db_store db)"
  using mdb.set_store [OF assms] mdb.get_after_set [OF assms(1), of k v db' k] assms(2)
  by fastforce

theorem db_set_get_witness:
  "fst (Db_Set (mem_db (Some 8) []) [1, 2] [3]) = None \<and>
   db_store (snd (Db_Set (mem_db (Some 8) []) [1, 2] [3])) = [[1, 2] \<mapsto> [3]] \<and>
   Db_Get (snd (Db_Set (mem_db (Some 8) []) [1, 2] [3])) [1, 2] = ([3], None)"
  using db_set_get [of "mem_db (Some 8) []" "[1, 2]" "[3]" "fst (Db_Set (mem_db (Some 8) []) [1, 2] [3])"
      "snd (Db_Set (mem_db (Some 8) []) [1, 2] [3])"]
  by (simp add: mem_db_Set mem_db_Get mem_full_def)

text \<open>
  A \<open>Delete\<close> that returns nil removed a key that was there: afterwards \<open>Get\<close> fails, \<open>Exists\<close>
  never answers true, and deleting again fails.
\<close>

theorem db_delete_gone:
  assumes "db_ok db" and "Db_Delete db k = (None, db')"
  shows "k \<in> dom (db_store db) \<and> db_store db' = (db_store db)(k := None) \<and>
    snd (Db_Get db' k) \<noteq> None \<and> Db_Exists db' k \<noteq> (True, None) \<and> fst (Db_Delete db' k) \<noteq> None"
  using mdb.delete_present [OF assms] mdb.delete_store [OF assms] mdb.get_after_delete [OF assms]
  by (metis prod.collapse)

theorem db_delete_gone_witness:
  "Db_Delete (mem_db (Some 8) [([1], [2])]) [1] = (None, mem_db (Some 8) []) \<and>
   snd (Db_Get (mem_db (Some 8) []) [1]) \<noteq> None"
proof -
  have d: "Db_Delete (mem_db (Some 8) [([1], [2])]) [1] = (None, mem_db (Some 8) [])"
    by (simp add: mem_db_Delete)
  show ?thesis using d db_delete_gone [OF mem_db_ok d] by blast
qed

text \<open>
  The size limits handed to the engine are the configured number of gigabytes exactly when
  that number lies between $-2^{33}$ and $2^{33} - 1$; outside that range the 64-bit product
  wraps around.
\<close>

theorem gigabytes_exact_iff:
  "sint (gigabytes n) = sint n * 2 ^ 30 \<longleftrightarrow> - (2 ^ 33) \<le> sint n \<and> sint n < 2 ^ 33"
proof -
  have "gigabytes n = n * 1073741824" by (simp add: gigabytes_def)
  then have "sint (gigabytes n) = signed_take_bit 63 (sint n * 2 ^ 30)"
    by (simp add: sint_word_ariths(3))
  then show ?thesis by (auto simp: signed_take_bit_int_eq_self_iff)
qed

text \<open>
  The sentinel \<open>errors.ErrNotFound\<close> is documented to be returned when a key is not found, but no
  read returns it: over an engine whose own errors are not that value, a missing key is always
  reported as an error, and always as a different one.
\<close>

theorem missing_key_not_sentinel:
  assumes "db_ok db" and "db_store db k = None"
    and "\<And>e f vs. (\<And>t vs. fst (f t vs) \<noteq> Some errors_ErrNotFound) \<Longrightarrow>
      fst (View (db_mdbx db) e f vs) \<noteq> Some errors_ErrNotFound"
  shows "\<exists>v x. Db_Get db k = (v, Some x) \<and> x \<noteq> errors_ErrNotFound"
proof -
  let ?m = "db_mdbx db"
  let ?f = "\<lambda>txn vs. case Txn_Get ?m txn (db_dbi db) k of
      (value, err) \<Rightarrow> (err, txn, vs\<lparr>tv_value := value\<rparr>)"
  have m: "mdbx_ok ?m" using assms(1) by (simp add: db_ok_def)
  have "fst (?f t vs) \<noteq> Some errors_ErrNotFound" for t and vs :: txn_vars
    by (rule get_cases [OF m, of t k "db_dbi db"]) (auto simp: errors_ErrNotFound_def)
  then have not: "fst (View ?m (db_env db) ?f no_vars) \<noteq> Some errors_ErrNotFound" by (rule assms(3))
  obtain r vs where "View ?m (db_env db) ?f no_vars = (r, vs)" by fastforce
  then have "snd (Db_Get db k) \<noteq> Some errors_ErrNotFound" using not by (simp add: Db_Get_def)
  moreover have "\<exists>v x. Db_Get db k = (v, Some x)"
    using assms(1) by (rule Db_Get_cases [of db k]) (use assms(2) in auto)
  ultimately show ?thesis by auto
qed

theorem missing_key_not_sentinel_witness:
  "\<exists>v x. Db_Get (mem_db None []) [1] = (v, Some x) \<and> x \<noteq> errors_ErrNotFound"
proof (rule missing_key_not_sentinel [OF mem_db_ok])
  fix e vs and f :: "mem_store \<Rightarrow> txn_vars \<Rightarrow> error option \<times> mem_store \<times> txn_vars"
  assume "\<And>t vs. fst (f t vs) \<noteq> Some errors_ErrNotFound"
  then show "fst (View (db_mdbx (mem_db None [])) e f vs) \<noteq> Some errors_ErrNotFound"
    by (simp add: mem_db_def mem_mdbx_def split: prod.splits) (metis fst_conv)
qed simp

end
