(* ===== verification/Db_Manager.thy ===== *)
theory Db_Manager
  imports Database
begin

text \<open>
  The database manager of \<^verbatim>\<open>src/db/manager.go\<close>: it opens one database per configured node and
  hands them out by name.
\<close>

section \<open>State and operations\<close>

record ('e, 't) DbManager =
  dm_opts :: Mdbx
  dm_dbs :: "(string \<times> ('e, 't) Db) list"

text \<open>
  The loop of \<open>NewManager\<close> over the nodes. When a database cannot be opened the error is
  returned together with the databases opened so far, which nobody closes.
\<close>

fun open_nodes ::
    "('e, 't) mdbx \<Rightarrow> MdbxNode list \<Rightarrow> (string \<times> ('e, 't) Db) list \<Rightarrow>
     (error \<times> (string \<times> ('e, 't) Db) list) + (string \<times> ('e, 't) Db) list" where
  "open_nodes m [] dbs = Inr dbs"
| "open_nodes m (node # nodes) dbs =
     (case NewDb m node of
        Inl (err, _) \<Rightarrow> Inl (err, dbs)
      | Inr db \<Rightarrow> open_nodes m nodes (AList.update (node_Name node) db dbs))"

definition NewManager ::
    "('e, 't) mdbx \<Rightarrow> Mdbx \<Rightarrow>
     (error \<times> (string \<times> ('e, 't) Db) list) + ('e, 't) DbManager" where
  "NewManager m opts =
     (if mdbx_Enabled opts
      then case open_nodes m (mdbx_Nodes opts) [] of
             Inl e \<Rightarrow> Inl e
           | Inr dbs \<Rightarrow> Inr \<lparr>dm_opts = opts, dm_dbs = dbs\<rparr>
      else Inr \<lparr>dm_opts = opts, dm_dbs = []\<rparr>)"

definition GetDb :: "('e, 't) DbManager \<Rightarrow> string \<Rightarrow> error + ('e, 't) Db" where
  "GetDb mgr name =
     (case map_of (dm_dbs mgr) name of
        None \<Rightarrow> Inl (Errorf (''mdbx database not found: '' @ name))
      | Some db \<Rightarrow> Inr db)"

text \<open>\<open>Close\<close>: the loop stops at the first database that fails to close.\<close>

fun close_dbs :: "(string \<times> ('e, 't) Db) list \<Rightarrow> error option \<times> (string \<times> ('e, 't) Db) list" where
  "close_dbs [] = (None, [])"
| "close_dbs ((name, db) # dbs) =
     (case Db_Close db of
        (Some err, db) \<Rightarrow> (Some err, (name, db) # dbs)
      | (None, db) \<Rightarrow> (case close_dbs dbs of (r, dbs) \<Rightarrow> (r, (name, db) # dbs)))"

definition DbManager_Close ::
    "('e, 't) DbManager \<Rightarrow> error option \<times> ('e, 't) DbManager" where
  "DbManager_Close mgr = (case close_dbs (dm_dbs mgr) of (r, dbs) \<Rightarrow> (r, mgr\<lparr>dm_dbs := dbs\<rparr>))"

section \<open>Lemmas\<close>

lemma NewDb_opts: "NewDb m node = Inr db \<Longrightarrow> db_opts db = node \<and> db_mdbx db = m"
  by (auto simp: NewDb_def Let_def split: sum.splits prod.splits option.splits)

text \<open>The last node of a name is the one the manager keeps.\<close>

definition last_node :: "MdbxNode list \<Rightarrow> string \<Rightarrow> MdbxNode option" where
  "last_node nodes name = find (\<lambda>n. node_Name n = name) (rev nodes)"

lemma find_app:
  "find P (xs @ ys) = (case find P xs of None \<Rightarrow> find P ys | Some x \<Rightarrow> Some x)"
  by (induction xs) auto

lemma last_node_Cons:
  "last_node (n # ns) name =
     (case last_node ns name of None \<Rightarrow> if node_Name n = name then Some n else None | Some x \<Rightarrow> Some x)"
  by (auto simp: last_node_def find_app split: option.splits)

lemma open_nodes_lookup:
  "open_nodes m nodes dbs = Inr dbs' \<Longrightarrow>
   map_option db_opts (map_of dbs' name) =
     (case last_node nodes name of
        Some n \<Rightarrow> Some n
      | None \<Rightarrow> map_option db_opts (map_of dbs name))"
proof (induction nodes arbitrary: dbs)
  case Nil
  then show ?case by (simp add: last_node_def)
next
  case (Cons node nodes)
  then obtain db where db: "NewDb m node = Inr db"
    and rest: "open_nodes m nodes (AList.update (node_Name node) db dbs) = Inr dbs'"
    by (auto split: sum.splits)
  show ?case
    using Cons.IH [OF rest] NewDb_opts [OF db]
    by (auto simp: last_node_Cons split: option.splits)
qed

lemma open_nodes_engine:
  "open_nodes m nodes dbs = Inr dbs' \<Longrightarrow>
   (\<And>k d. map_of dbs k = Some d \<Longrightarrow> db_mdbx d = m) \<Longrightarrow>
   map_of dbs' name = Some db \<Longrightarrow> db_mdbx db = m"
proof (induction nodes arbitrary: dbs)
  case (Cons node nodes)
  then obtain d where d: "NewDb m node = Inr d"
    and rest: "open_nodes m nodes (AList.update (node_Name node) d dbs) = Inr dbs'"
    by (auto split: sum.splits)
  have "db_mdbx e = m" if "map_of (AList.update (node_Name node) d dbs) k = Some e" for k e
    using that Cons.prems(2) [of k e] NewDb_opts [OF d] by (simp split: if_splits)
  then show ?case using Cons.IH [OF rest] Cons.prems(3) by blast
qed auto

lemma close_dbs_all:
  "close_dbs dbs = (None, map (\<lambda>(name, db). (name, snd (Db_Close db))) dbs)"
  by (induction dbs) (auto simp: Db_Close_def)

section \<open>Properties\<close>

text \<open>
  A manager built from a configuration hands out exactly the configured databases: a name is
  found when MDBX is enabled and some node carries it, and the database then has the options
  of the last such node; every other name is an error. Every database handed out runs on the
  engine the manager was given.
\<close>

theorem manager_get_db:
  assumes "NewManager m opts = Inr mgr"
  shows "(case (if mdbx_Enabled opts then last_node (mdbx_Nodes opts) name else None) of
       None \<Rightarrow> GetDb mgr name = Inl (Errorf (''mdbx database not found: '' @ name))
     | Some node \<Rightarrow> \<exists>db. GetDb mgr name = Inr db \<and> db_opts db = node \<and> db_mdbx db = m)"
proof (cases "mdbx_Enabled opts")
  case True
  then obtain dbs where o: "open_nodes m (mdbx_Nodes opts) [] = Inr dbs"
    and mgr: "mgr = \<lparr>dm_opts = opts, dm_dbs = dbs\<rparr>"
    using assms by (auto simp: NewManager_def split: sum.splits)
  have eng: "db_mdbx db = m" if "map_of dbs name = Some db" for db
    by (rule open_nodes_engine [OF o _ that]) simp
  have look: "map_option db_opts (map_of dbs name) = last_node (mdbx_Nodes opts) name"
    using open_nodes_lookup [OF o, of name] by (cases "last_node (mdbx_Nodes opts) name") simp_all
  show ?thesis
  proof (cases "map_of dbs name")
    case None
    then show ?thesis using True look by (simp add: GetDb_def mgr)
  next
    case (Some db)
    then have "last_node (mdbx_Nodes opts) name = Some (db_opts db)" using look by simp
    then show ?thesis using True Some eng [OF Some] by (simp add: GetDb_def mgr)
  qed
next
  case False
  then show ?thesis using assms by (auto simp: NewManager_def GetDb_def)
qed

theorem manager_get_db_witness:
  "\<exists>mgr db. NewManager (mem_mdbx None) \<lparr>mdbx_Enabled = True, mdbx_Nodes = [sample_node]\<rparr> = Inr mgr \<and>
     GetDb mgr ''fdb'' = Inr db \<and> db_opts db = sample_node"
proof -
  let ?opts = "\<lparr>mdbx_Enabled = True, mdbx_Nodes = [sample_node]\<rparr>"
  obtain mgr where mgr: "NewManager (mem_mdbx None) ?opts = Inr mgr"
    by (simp add: NewManager_def NewDb_mem)
  have "last_node [sample_node] ''fdb'' = Some sample_node"
    by (simp add: last_node_def sample_node_def)
  then show ?thesis using mgr manager_get_db [OF mgr, of "''fdb''"] by auto
qed

text \<open>
  Closing the manager closes every database it holds and reports no error.
\<close>

theorem manager_close_all:
  "DbManager_Close mgr =
     (None, mgr\<lparr>dm_dbs := map (\<lambda>(name, db). (name, db\<lparr>db_env := Env_Close (db_mdbx db) (db_env db)\<rparr>))
        (dm_dbs mgr)\<rparr>)"
  by (simp add: DbManager_Close_def close_dbs_all Db_Close_def)

end
