(* ===== verification/Transport_Manager.thy ===== *)
theory Transport_Manager
  imports Types
begin

text \<open>
  The transport manager of \<^verbatim>\<open>src/transports/manager.go\<close> and the part of the client,
  \<^verbatim>\<open>src/client/client.go\<close>, that does the same job. Both are registries that refuse a second entry
  under a name; the contract is the locale \<open>registry\<close>, with \<open>removable_registry\<close> for one that
  can also forget an entry.
\<close>

section \<open>Interface: a registry\<close>

text \<open>\<open>register_all\<close> registers entries in order and ignores refusals.\<close>

fun register_all :: "('m \<Rightarrow> 'k \<Rightarrow> 'v \<Rightarrow> error option \<times> 'm) \<Rightarrow> 'm \<Rightarrow> ('k \<times> 'v) list \<Rightarrow> 'm" where
  "register_all reg m [] = m"
| "register_all reg m ((k, v) # kvs) = register_all reg (snd (reg m k v)) kvs"

locale registry =
  fixes register :: "'m \<Rightarrow> 'k \<Rightarrow> 'v \<Rightarrow> error option \<times> 'm"
    and get :: "'m \<Rightarrow> 'k \<Rightarrow> error + 'v"
    and contents :: "'m \<Rightarrow> 'k \<rightharpoonup> 'v"
  assumes register_new: "contents m k = None \<Longrightarrow>
      \<exists>m'. register m k v = (None, m') \<and> contents m' = (contents m)(k \<mapsto> v)"
    and register_taken: "contents m k = Some u \<Longrightarrow> \<exists>e. register m k v = (Some e, m)"
    and get_found: "contents m k = Some v \<Longrightarrow> get m k = Inr v"
    and get_missing: "contents m k = None \<Longrightarrow> \<exists>e. get m k = Inl e"
begin

lemma register_ok_iff: "fst (register m k v) = None \<longleftrightarrow> contents m k = None"
  using register_new [of m k v] register_taken [of m k _ v] by (cases "contents m k") fastforce+

lemma contents_register:
  "contents (snd (register m k v)) =
     (case contents m k of None \<Rightarrow> (contents m)(k \<mapsto> v) | Some _ \<Rightarrow> contents m)"
  using register_new [of m k v] register_taken [of m k _ v] by (cases "contents m k") fastforce+

lemma get_Inr_iff: "get m k = Inr v \<longleftrightarrow> contents m k = Some v"
  using get_found [of m k] get_missing [of m k] by (cases "contents m k") auto

text \<open>The first registration of a name is the one that stays.\<close>

lemma contents_register_all: "contents (register_all register m kvs) = map_of kvs ++ contents m"
proof (induction kvs arbitrary: m)
  case (Cons kv kvs)
  obtain k v where kv: "kv = (k, v)" by fastforce
  show ?case
    by (auto simp: kv Cons.IH contents_register map_add_def fun_eq_iff split: option.splits)
qed simp

lemma get_register_all:
  "get (register_all register m kvs) k = Inr v \<longleftrightarrow> (map_of kvs ++ contents m) k = Some v"
  by (simp add: get_Inr_iff contents_register_all)

end

locale removable_registry = registry register get contents
  for register :: "'m \<Rightarrow> 'k \<Rightarrow> 'v \<Rightarrow> error option \<times> 'm" and get and contents +
  fixes deregister :: "'m \<Rightarrow> 'k \<Rightarrow> error option \<times> 'm"
  assumes deregister_there: "contents m k = Some v \<Longrightarrow>
      \<exists>m'. deregister m k = (None, m') \<and> contents m' = (contents m)(k := None)"
    and deregister_missing: "contents m k = None \<Longrightarrow> \<exists>e. deregister m k = (Some e, m)"
begin

lemma deregister_register:
  assumes "contents m k = None" and "register m k v = (None, m1)" and "deregister m1 k = (r, m2)"
  shows "r = None \<and> contents m2 = contents m"
proof -
  have c1: "contents m1 = (contents m)(k \<mapsto> v)" using register_new [OF assms(1), of v] assms(2) by auto
  then have "\<exists>m'. deregister m1 k = (None, m') \<and> contents m' = (contents m1)(k := None)"
    by (intro deregister_there) simp
  then have "r = None" "contents m2 = (contents m1)(k := None)" using assms(3) by auto
  then show ?thesis using c1 assms(1) by (simp add: fun_upd_idem)
qed

lemma replace:
  assumes "contents m k = Some u" and "deregister m k = (r, m1)" and "register m1 k v = (r', m2)"
  shows "r = None \<and> r' = None \<and> get m2 k = Inr v"
proof -
  have m1: "r = None" "contents m1 k = None" using deregister_there [OF assms(1)] assms(2) by auto
  then show ?thesis using register_new [OF m1(2), of v] assms(3) by (auto simp: get_Inr_iff)
qed

end

section \<open>The transport manager\<close>

text \<open>
  Every method holds the manager's mutex from its first to its last statement, so each is one
  atomic step.
\<close>

record 'a TransportManager =
  tm_transports :: "(TransportType \<times> 'a) list"

definition NewTransportManager :: "'a TransportManager" where
  "NewTransportManager = \<lparr>tm_transports = []\<rparr>"

definition RegisterTransport ::
    "'a TransportManager \<Rightarrow> TransportType \<Rightarrow> 'a \<Rightarrow> error option \<times> 'a TransportManager" where
  "RegisterTransport tm tType transport =
     (if map_of (tm_transports tm) tType \<noteq> None
      then (Some (Errorf ''transport already registered''), tm)
      else (None, tm\<lparr>tm_transports := AList.update tType transport (tm_transports tm)\<rparr>))"

definition GetTransport :: "'a TransportManager \<Rightarrow> TransportType \<Rightarrow> error + 'a" where
  "GetTransport tm tType =
     (case map_of (tm_transports tm) tType of
        None \<Rightarrow> Inl (Errorf ''transport not found'')
      | Some transport \<Rightarrow> Inr transport)"

definition DeregisterTransport ::
    "'a TransportManager \<Rightarrow> TransportType \<Rightarrow> error option \<times> 'a TransportManager" where
  "DeregisterTransport tm tType =
     (if map_of (tm_transports tm) tType = None
      then (Some (Errorf ''transport not registered''), tm)
      else (None, tm\<lparr>tm_transports := AList.delete tType (tm_transports tm)\<rparr>))"

definition tm_contents :: "'a TransportManager \<Rightarrow> TransportType \<rightharpoonup> 'a" where
  "tm_contents tm = map_of (tm_transports tm)"

lemma tm_contents_New [simp]: "tm_contents NewTransportManager = Map.empty"
  by (simp add: tm_contents_def NewTransportManager_def)

interpretation tmr: removable_registry RegisterTransport GetTransport tm_contents DeregisterTransport
  by unfold_locales
     (auto simp: RegisterTransport_def GetTransport_def DeregisterTransport_def tm_contents_def
        delete_conv')

section \<open>The client\<close>

text \<open>
  The client holds named transports. A transport's \<open>Connect\<close>, \<open>Send\<close> and \<open>Close\<close> are methods of an
  interface: they are given here as the functions to call on its state.
\<close>

record 'a Client =
  cl_transports :: "(string \<times> 'a) list"

definition NewConfig :: "(string \<times> 'a) list" where
  "NewConfig = []"

definition NewClient :: "(string \<times> 'a) list \<Rightarrow> 'a Client" where
  "NewClient cfg_Transports = \<lparr>cl_transports = cfg_Transports\<rparr>"

definition Client_RegisterTransport ::
    "'a Client \<Rightarrow> string \<Rightarrow> 'a \<Rightarrow> error option \<times> 'a Client" where
  "Client_RegisterTransport c name transport =
     (if map_of (cl_transports c) name \<noteq> None
      then (Some (Errorf (''transport '' @ name @ '' already registered'')), c)
      else (None, c\<lparr>cl_transports := AList.update name transport (cl_transports c)\<rparr>))"

definition Client_GetTransport :: "'a Client \<Rightarrow> string \<Rightarrow> error + 'a" where
  "Client_GetTransport c name =
     (case map_of (cl_transports c) name of
        None \<Rightarrow> Inl (Errorf ''transport not found'')
      | Some transport \<Rightarrow> Inr transport)"

definition Client_SendMessage ::
    "('a \<Rightarrow> bytes \<Rightarrow> error option \<times> 'a) \<Rightarrow> 'a Client \<Rightarrow> string \<Rightarrow> bytes \<Rightarrow> error option \<times> 'a Client" where
  "Client_SendMessage Send c name data =
     (case Client_GetTransport c name of
        Inl err \<Rightarrow> (Some err, c)
      | Inr transport \<Rightarrow>
         (case Send transport data of
            (r, transport) \<Rightarrow>
              (r, c\<lparr>cl_transports := AList.update name transport (cl_transports c)\<rparr>)))"

text \<open>
  \<open>Start\<close> and \<open>Close\<close> run one method over all transports, in the order the map's iteration takes,
  and stop at the first error; the second result lists the names whose method was called.
\<close>

fun for_transports ::
    "('a \<Rightarrow> error option \<times> 'a) \<Rightarrow> (string \<times> 'a) list \<Rightarrow>
     error option \<times> string list \<times> (string \<times> 'a) list" where
  "for_transports call [] = (None, [], [])"
| "for_transports call ((name, t) # ts) =
     (case call t of
        (Some err, t) \<Rightarrow> (Some err, [name], (name, t) # ts)
      | (None, t) \<Rightarrow>
          (case for_transports call ts of
             (r, called, ts) \<Rightarrow> (r, name # called, (name, t) # ts)))"

definition Client_Start ::
    "('a \<Rightarrow> error option \<times> 'a) \<Rightarrow> ((string \<times> 'a) list \<Rightarrow> (string \<times> 'a) list) \<Rightarrow> 'a Client \<Rightarrow>
     error option \<times> string list \<times> 'a Client" where
  "Client_Start Connect ord c =
     (case for_transports Connect (ord (cl_transports c)) of
        (r, called, ts) \<Rightarrow> (r, called, c\<lparr>cl_transports := ts\<rparr>))"

definition Client_Close ::
    "('a \<Rightarrow> error option \<times> 'a) \<Rightarrow> ((string \<times> 'a) list \<Rightarrow> (string \<times> 'a) list) \<Rightarrow> 'a Client \<Rightarrow>
     error option \<times> string list \<times> 'a Client" where
  "Client_Close Close ord c =
     (case for_transports Close (ord (cl_transports c)) of
        (r, called, ts) \<Rightarrow> (r, called, c\<lparr>cl_transports := ts\<rparr>))"

definition cl_contents :: "'a Client \<Rightarrow> string \<rightharpoonup> 'a" where
  "cl_contents c = map_of (cl_transports c)"

interpretation clr: registry Client_RegisterTransport Client_GetTransport cl_contents
  by unfold_locales (auto simp: Client_RegisterTransport_def Client_GetTransport_def cl_contents_def)

lemma for_transports_called:
  "for_transports f ts = (r, called, ts') \<Longrightarrow>
   called = take (length called) (map fst ts) \<and>
   (r = None \<longrightarrow> length called = length ts \<and> ts' = map (\<lambda>(n, t). (n, snd (f t))) ts \<and>
      (\<forall>t \<in> snd ` set ts. fst (f t) = None)) \<and>
   (\<forall>e. r = Some e \<longrightarrow> called \<noteq> [] \<and> fst (f (snd (ts ! (length called - 1)))) = Some e)"
proof (induction f ts arbitrary: r called ts' rule: for_transports.induct)
  case (2 call name t ts)
  obtain m t1 where m: "call t = (m, t1)" by fastforce
  show ?case
  proof (cases m)
    case None
    obtain r1 called1 ts1 where rest: "for_transports call ts = (r1, called1, ts1)"
      by (cases "for_transports call ts") auto
    have "r = r1" "called = name # called1" "ts' = (name, t1) # ts1"
      using 2(2) by (simp_all add: m None rest)
    then show ?thesis
      using 2(1) [OF m [symmetric] None rest] m None by (auto simp: nth_Cons')
  next
    case (Some x)
    then show ?thesis using 2(2) m by auto
  qed
qed auto

section \<open>Properties\<close>

text \<open>
  The first transport registered for a type wins: after any sequence of registrations on a
  manager, a lookup finds the earliest registered server of that type, later ones having been
  refused, and a type nobody registered is not found.
\<close>

theorem transport_manager_first_wins:
  "GetTransport (register_all RegisterTransport NewTransportManager kvs) ty =
     (case map_of kvs ty of
        None \<Rightarrow> Inl (Errorf ''transport not found'')
      | Some t \<Rightarrow> Inr t)"
proof -
  let ?m = "register_all RegisterTransport NewTransportManager kvs"
  have "tm_contents ?m = map_of kvs"
    by (simp add: tmr.contents_register_all)
  then show ?thesis by (simp add: GetTransport_def tm_contents_def)
qed

text \<open>
  A transport can be replaced by deregistering it first: deregistering a registered type
  succeeds, registering another server for it then succeeds, and lookups return the new one.
\<close>

theorem transport_manager_replace:
  assumes "GetTransport tm ty = Inr u" and "DeregisterTransport tm ty = (r, tm1)"
    and "RegisterTransport tm1 ty t = (r', tm2)"
  shows "r = None \<and> r' = None \<and> GetTransport tm2 ty = Inr t"
  using tmr.replace [OF _ assms(2,3)] assms(1) by (simp add: tmr.get_Inr_iff)

theorem transport_manager_replace_witness:
  "GetTransport (snd (RegisterTransport (snd (DeregisterTransport \<lparr>tm_transports = [(4, True)]\<rparr> 4)) 4 False)) 4 =
     Inr False"
  using transport_manager_replace [of "\<lparr>tm_transports = [(4, True)]\<rparr>" 4 True _ _ False]
  by (metis GetTransport_def map_of_Cons_code(2) option.simps(5) prod.collapse
      TransportManager.select_convs(1))

text \<open>
  Starting a client connects its transports one after another and stops at the first
  failure: if it returns nil every transport was connected; if it returns an error, that is
  the error of the last transport tried and the ones after it were not touched.
\<close>

theorem client_start_stops_at_first_error:
  assumes "Client_Start Connect ord c = (r, called, c')"
  shows "called = take (length called) (map fst (ord (cl_transports c))) \<and>
    (case r of
       None \<Rightarrow> length called = length (ord (cl_transports c)) \<and>
         (\<forall>t \<in> snd ` set (ord (cl_transports c)). fst (Connect t) = None)
     | Some e \<Rightarrow> called \<noteq> [] \<and>
         fst (Connect (snd (ord (cl_transports c) ! (length called - 1)))) = Some e)"
proof -
  obtain ts where "for_transports Connect (ord (cl_transports c)) = (r, called, ts)"
    using assms by (auto simp: Client_Start_def split: prod.splits)
  from for_transports_called [OF this] show ?thesis by (cases r) auto
qed

theorem client_start_stops_at_first_error_witness:
  "fst (snd (Client_Start (\<lambda>t. (if t then None else Some (Errorf ''refused''), t)) (\<lambda>ts. ts)
     \<lparr>cl_transports = [(''a'', True), (''b'', False), (''c'', True)]\<rparr>)) = [''a'', ''b'']"
proof -
  let ?c = "\<lparr>cl_transports = [(''a'', True), (''b'', False), (''c'', True)]\<rparr>"
  let ?f = "\<lambda>t. (if t then None else Some (Errorf ''refused''), t)"
  have "Client_Start ?f (\<lambda>ts. ts) ?c = (Some (Errorf ''refused''), [''a'', ''b''], ?c)"
    by (simp add: Client_Start_def)
  with client_start_stops_at_first_error [OF this] show ?thesis by simp
qed

end
