(* ===== verification/Batch_Writer.thy ===== *)
theory Batch_Writer
  imports Database "HOL-Library.Multiset"
begin

text \<open>
  The batch writer of \<^verbatim>\<open>src/db/writer.go\<close>. Requests are routed by the first key byte to one of
  the workers, wait in its channel, are collected in its buffer and written in one
  transaction when the buffer is full, on a timer tick and on stop. The workers are
  goroutines: their steps interleave freely, so the whole is a step relation. A worker's
  buffer is touched by that worker only, under its mutex, so each pass through its
  \<open>select\<close> is one step.
\<close>

section \<open>State\<close>

record WriteRequest =
  req_Key :: bytes
  req_Value :: bytes

type_synonym wbuffer = "(bytes \<times> bytes) list"

text \<open>
  The struct \<open>BatchWriter\<close>. The database is shared with other parts of the program and is
  passed to the operations; \<open>bw_running\<close> records which worker goroutines have not
  returned.
\<close>

record BatchWriter =
  bw_channels :: "WriteRequest list list"
  bw_buffers :: "wbuffer list"
  bw_maxBatchSize :: int
  bw_flushInterval :: int
  bw_stopChannel :: sigchan
  bw_workers :: int
  bw_running :: "bool list"

abbreviation chan_capacity :: nat where
  "chan_capacity \<equiv> 500000"

definition NewBatchWriter :: "int \<Rightarrow> int \<Rightarrow> int \<Rightarrow> BatchWriter go" where
  "NewBatchWriter maxBatchSize flushInterval workers =
     (if workers < 0 then Panic ''makeslice: len out of range''
      else if 0 < workers \<and> flushInterval \<le> 0 then Panic ''non-positive interval for NewTicker''
      else Ret \<lparr>bw_channels = replicate (nat workers) [],
                bw_buffers = replicate (nat workers) [],
                bw_maxBatchSize = maxBatchSize,
                bw_flushInterval = flushInterval,
                bw_stopChannel = make_chan 0,
                bw_workers = workers,
                bw_running = replicate (nat workers) True\<rparr>)"

section \<open>Operations\<close>

text \<open>\<^verbatim>\<open>int(key[0]) % bw.workers\<close>\<close>

definition workerID :: "BatchWriter \<Rightarrow> bytes \<Rightarrow> nat" where
  "workerID bw key = unat (key ! 0) mod nat (bw_workers bw)"

text \<open>\<open>BufferWrite\<close> blocks while the worker's channel is full.\<close>

definition BufferWrite :: "BatchWriter \<Rightarrow> bytes \<Rightarrow> bytes \<Rightarrow> BatchWriter go" where
  "BufferWrite bw key value =
     (if bw_workers bw = 0 then Panic ''integer divide by zero''
      else
        let i = workerID bw key; ch = bw_channels bw ! i
        in if length ch < chan_capacity
           then Ret (bw\<lparr>bw_channels :=
             (bw_channels bw)[i := ch @ [\<lparr>req_Key = key, req_Value = value\<rparr>]]\<rparr>)
           else Blocked)"

text \<open>The loop of \<open>flush\<close> inside its transaction: the first failing \<open>Put\<close> ends it.\<close>

fun put_all :: "('e, 't) mdbx \<Rightarrow> dbi \<Rightarrow> wbuffer \<Rightarrow> 't \<Rightarrow> error option \<times> 't" where
  "put_all m dbi [] txn = (None, txn)"
| "put_all m dbi ((key, value) # kvs) txn =
     (case Cursor_Put m txn dbi key value of
        (Some err, txn) \<Rightarrow> (Some (Wrapped (''failed to write key: '' @ show_hex key) err), txn)
      | (None, txn) \<Rightarrow> put_all m dbi kvs txn)"

text \<open>
  \<open>flush\<close>. Go iterates over a map in an unspecified order: \<open>ord\<close> is the order it takes. The
  third result is the error that is logged.
\<close>

definition flush ::
    "(wbuffer \<Rightarrow> wbuffer) \<Rightarrow> BatchWriter \<Rightarrow> ('e, 't) Db \<Rightarrow> nat \<Rightarrow>
     BatchWriter \<times> ('e, 't) Db \<times> error option" where
  "flush ord bw db i =
     (if length (bw_buffers bw ! i) = 0 then (bw, db, None)
      else
        case Update (db_mdbx db) (db_env db)
               (\<lambda>txn vs. case OpenCursor (db_mdbx db) txn (Db_GetDBI db) of
                  Some err \<Rightarrow> (Some (Wrapped ''failed to open cursor'' err), txn, vs)
                | None \<Rightarrow>
                    (case put_all (db_mdbx db) (Db_GetDBI db) (ord (bw_buffers bw ! i)) txn of
                       (err, txn) \<Rightarrow> (err, txn, vs))) no_vars of
          (err, env, vs) \<Rightarrow>
            (bw\<lparr>bw_buffers := (bw_buffers bw)[i := []]\<rparr>, db\<lparr>db_env := env\<rparr>, err))"

text \<open>The three cases of the \<open>select\<close> in \<open>runWorker\<close>: a request, a tick, the stop signal.\<close>

definition worker_recv ::
    "(wbuffer \<Rightarrow> wbuffer) \<Rightarrow> BatchWriter \<Rightarrow> ('e, 't) Db \<Rightarrow> nat \<Rightarrow>
     (BatchWriter \<times> ('e, 't) Db \<times> error option) option" where
  "worker_recv ord bw db i =
     (case bw_channels bw ! i of
        [] \<Rightarrow> None
      | req # ch \<Rightarrow>
          (let buf = AList.update (req_Key req) (req_Value req) (bw_buffers bw ! i);
               bw = bw\<lparr>bw_channels := (bw_channels bw)[i := ch],
                       bw_buffers := (bw_buffers bw)[i := buf]\<rparr>
           in if bw_maxBatchSize bw \<le> int (length (bw_buffers bw ! i))
              then Some (flush ord bw db i)
              else Some (bw, db, None)))"

definition worker_tick ::
    "(wbuffer \<Rightarrow> wbuffer) \<Rightarrow> BatchWriter \<Rightarrow> ('e, 't) Db \<Rightarrow> nat \<Rightarrow>
     BatchWriter \<times> ('e, 't) Db \<times> error option" where
  "worker_tick ord bw db i = flush ord bw db i"

definition worker_stop ::
    "(wbuffer \<Rightarrow> wbuffer) \<Rightarrow> BatchWriter \<Rightarrow> ('e, 't) Db \<Rightarrow> nat \<Rightarrow>
     (BatchWriter \<times> ('e, 't) Db \<times> error option) option" where
  "worker_stop ord bw db i =
     (if chan_recv_ready (bw_stopChannel bw)
      then case flush ord bw db i of
             (bw, db, err) \<Rightarrow> Some (bw\<lparr>bw_running := (bw_running bw)[i := False]\<rparr>, db, err)
      else None)"

definition FlushAndStop :: "BatchWriter \<Rightarrow> BatchWriter go" where
  "FlushAndStop bw =
     go_bind (chan_close (bw_stopChannel bw)) (\<lambda>c. Ret (bw\<lparr>bw_stopChannel := c\<rparr>))"

section \<open>The step relation\<close>

datatype bw_event = EWrite bytes bytes | ERecv nat | ETick nat | EStop nat | EFlushAndStop

text \<open>Every order of iteration visits each entry once.\<close>

definition iter_order :: "(wbuffer \<Rightarrow> wbuffer) \<Rightarrow> bool" where
  "iter_order ord \<longleftrightarrow> (\<forall>m. mset (ord m) = mset m)"

type_synonym ('e, 't) bw_state = "BatchWriter \<times> ('e, 't) Db"

inductive bw_step ::
    "('e, 't) bw_state \<Rightarrow> bw_event \<Rightarrow> error option \<Rightarrow> ('e, 't) bw_state \<Rightarrow> bool" where
  step_write: "is_key k \<Longrightarrow> BufferWrite bw k v = Ret bw' \<Longrightarrow>
    bw_step (bw, db) (EWrite k v) None (bw', db)"
| step_recv: "i < length (bw_running bw) \<Longrightarrow> bw_running bw ! i \<Longrightarrow> iter_order ord \<Longrightarrow>
    worker_recv ord bw db i = Some (bw', db', err) \<Longrightarrow>
    bw_step (bw, db) (ERecv i) err (bw', db')"
| step_tick: "i < length (bw_running bw) \<Longrightarrow> bw_running bw ! i \<Longrightarrow> iter_order ord \<Longrightarrow>
    worker_tick ord bw db i = (bw', db', err) \<Longrightarrow>
    bw_step (bw, db) (ETick i) err (bw', db')"
| step_stop: "i < length (bw_running bw) \<Longrightarrow> bw_running bw ! i \<Longrightarrow> iter_order ord \<Longrightarrow>
    worker_stop ord bw db i = Some (bw', db', err) \<Longrightarrow>
    bw_step (bw, db) (EStop i) err (bw', db')"
| step_flush_and_stop: "FlushAndStop bw = Ret bw' \<Longrightarrow>
    bw_step (bw, db) EFlushAndStop None (bw', db)"

inductive_cases bw_step_writeE: "bw_step (bw, db) (EWrite k v) err s'"
inductive_cases bw_step_recvE: "bw_step (bw, db) (ERecv i) err s'"
inductive_cases bw_step_tickE: "bw_step (bw, db) (ETick i) err s'"
inductive_cases bw_step_stopE: "bw_step (bw, db) (EStop i) err s'"
inductive_cases bw_step_fasE: "bw_step (bw, db) EFlushAndStop err s'"

text \<open>A run: the events taken and the errors logged along the way.\<close>

inductive bw_run ::
    "('e, 't) bw_state \<Rightarrow> bw_event list \<Rightarrow> error list \<Rightarrow> ('e, 't) bw_state \<Rightarrow> bool" where
  run_nil: "bw_run s [] [] s"
| run_step: "bw_run s evs errs s' \<Longrightarrow> bw_step s' ev err s'' \<Longrightarrow>
    bw_run s (evs @ [ev]) (errs @ (case err of None \<Rightarrow> [] | Some e \<Rightarrow> [e])) s''"

section \<open>Invariant\<close>

definition routed :: "BatchWriter \<Rightarrow> nat \<Rightarrow> bytes \<Rightarrow> bool" where
  "routed bw i k \<longleftrightarrow> is_key k \<and> workerID bw k = i"

definition worker_wf :: "BatchWriter \<Rightarrow> nat \<Rightarrow> bool" where
  "worker_wf bw i \<longleftrightarrow>
     distinct (map fst (bw_buffers bw ! i)) \<and>
     (\<forall>k \<in> dom (map_of (bw_buffers bw ! i)). routed bw i k) \<and>
     (\<forall>r \<in> set (bw_channels bw ! i). routed bw i (req_Key r)) \<and>
     length (bw_channels bw ! i) \<le> chan_capacity"

definition bw_wf :: "BatchWriter \<Rightarrow> bool" where
  "bw_wf bw \<longleftrightarrow>
     0 < bw_workers bw \<and>
     length (bw_channels bw) = nat (bw_workers bw) \<and>
     length (bw_buffers bw) = nat (bw_workers bw) \<and>
     length (bw_running bw) = nat (bw_workers bw) \<and>
     (\<forall>i < nat (bw_workers bw). worker_wf bw i)"

text \<open>Between two steps of a worker its buffer is empty or below the batch size.\<close>

definition buffers_bounded :: "BatchWriter \<Rightarrow> bool" where
  "buffers_bounded bw \<longleftrightarrow>
     (\<forall>i < nat (bw_workers bw). bw_buffers bw ! i = [] \<or>
        int (length (bw_buffers bw ! i)) < bw_maxBatchSize bw)"

definition bw_inv :: "BatchWriter \<Rightarrow> bool" where
  "bw_inv bw \<longleftrightarrow> bw_wf bw \<and> buffers_bounded bw"

section \<open>The contents a client may rely on\<close>

text \<open>
  The abstract specification: a batch writer over a database is a map in which every
  accepted write has taken effect, in the order of acceptance. \<open>bw_view\<close> computes it from the
  database, the buffer and the channel of the worker a key is routed to.
\<close>

definition queued :: "WriteRequest list \<Rightarrow> bytes \<rightharpoonup> bytes" where
  "queued q = map_of (rev (map (\<lambda>r. (req_Key r, req_Value r)) q))"

definition bw_view :: "BatchWriter \<Rightarrow> ('e, 't) Db \<Rightarrow> bytes \<rightharpoonup> bytes" where
  "bw_view bw db k =
     (db_store db ++ map_of (bw_buffers bw ! workerID bw k) ++ queued (bw_channels bw ! workerID bw k)) k"

fun spec_step :: "(bytes \<rightharpoonup> bytes) \<Rightarrow> bw_event \<Rightarrow> (bytes \<rightharpoonup> bytes)" where
  "spec_step m (EWrite k v) = m(k \<mapsto> v)"
| "spec_step m _ = m"

lemma queued_Nil [simp]: "queued [] = Map.empty"
  by (simp add: queued_def)

lemma queued_snoc [simp]: "queued (q @ [r]) = (queued q)(req_Key r \<mapsto> req_Value r)"
  by (simp add: queued_def)

lemma queued_Cons: "queued (r # q) = [req_Key r \<mapsto> req_Value r] ++ queued q"
  by (simp add: queued_def)

section \<open>Flushing\<close>

lemma put_all_store:
  assumes "mdbx_ok m" and "put_all m d kvs t = (None, t')"
  shows "txn_store m t' = txn_store m t ++ map_of (rev kvs)"
  using assms(2)
proof (induction kvs arbitrary: t)
  case Nil
  then show ?case by simp
next
  case (Cons kv kvs)
  obtain k v where kv: "kv = (k, v)" by fastforce
  with Cons.prems obtain t1 where put: "Cursor_Put m t d k v = (None, t1)"
    and rest: "put_all m d kvs t1 = (None, t')" by (auto split: prod.splits option.splits)
  have "txn_store m t' = (txn_store m t)(k \<mapsto> v) ++ map_of (rev kvs)"
    using Cons.IH [OF rest] put_ok [OF assms(1) put] by argo
  also have "\<dots> = txn_store m t ++ ([k \<mapsto> v] ++ map_of (rev kvs))" by simp
  finally show ?case by (simp add: kv)
qed

lemma map_of_ord:
  assumes "iter_order ord" and "distinct (map fst m)"
  shows "map_of (rev (ord m)) = map_of m"
proof (rule map_of_permuted [OF assms(2)])
  have "mset (map fst (ord m)) = mset (map fst m)"
    using assms(1) by (simp add: iter_order_def)
  then have "distinct (map fst (ord m))"
    using assms(2) mset_eq_imp_distinct_iff by blast
  then show "distinct (map fst (rev (ord m)))" by (simp flip: rev_map)
  show "set (rev (ord m)) = set m"
    using assms(1) by (metis iter_order_def set_mset_mset set_rev)
qed

lemma flush_bw:
  "flush ord bw db i = (bw', db', err) \<Longrightarrow> bw' = bw\<lparr>bw_buffers := (bw_buffers bw)[i := []]\<rparr>"
proof (cases "bw_buffers bw ! i = []")
  case True
  then have "(bw_buffers bw)[i := []] = bw_buffers bw" by (metis list_update_id)
  with True show "flush ord bw db i = (bw', db', err) \<Longrightarrow> ?thesis" by (simp add: flush_def)
qed (auto simp: flush_def split: prod.splits)

lemma flush_db:
  assumes "db_ok db" and "iter_order ord" and "distinct (map fst (bw_buffers bw ! i))"
    and "flush ord bw db i = (bw', db', err)"
  shows "db_ok db'"
    and "db_store db' = (if err = None then db_store db ++ map_of (bw_buffers bw ! i) else db_store db)"
proof -
  let ?m = "db_mdbx db"
  have m: "mdbx_ok ?m" using assms(1) by (simp add: db_ok_def)
  have eng: "db_mdbx db' = ?m"
    using assms(4) by (auto simp: flush_def split: if_splits prod.splits)
  show "db_ok db'" using m eng by (simp add: db_ok_def)
  show "db_store db' = (if err = None then db_store db ++ map_of (bw_buffers bw ! i) else db_store db)"
  proof (cases "bw_buffers bw ! i = []")
    case True
    then show ?thesis using assms(4) by (auto simp: flush_def)
  next
    case False
    then obtain env vs where upd: "Update ?m (db_env db)
         (\<lambda>txn vs. case OpenCursor ?m txn (Db_GetDBI db) of
            Some err \<Rightarrow> (Some (Wrapped ''failed to open cursor'' err), txn, vs)
          | None \<Rightarrow> (case put_all ?m (Db_GetDBI db) (ord (bw_buffers bw ! i)) txn of
                       (err, txn) \<Rightarrow> (err, txn, vs))) no_vars = (err, env, vs)"
      and db': "db' = db\<lparr>db_env := env\<rparr>"
      using assms(4) by (auto simp: flush_def split: prod.splits)
    show ?thesis
      using m upd
      by (rule update_cases)
         (auto simp: db_store_def db' map_of_ord [OF assms(2,3)]
            dest!: put_all_store [OF m] split: option.splits prod.splits)
  qed
qed

section \<open>The steps keep the invariant\<close>

lemma workerID_upd [simp]:
  "workerID (bw\<lparr>bw_buffers := b\<rparr>) = workerID bw"
  "workerID (bw\<lparr>bw_channels := c\<rparr>) = workerID bw"
  "workerID (bw\<lparr>bw_running := r\<rparr>) = workerID bw"
  "workerID (bw\<lparr>bw_stopChannel := s\<rparr>) = workerID bw"
  by (simp_all add: workerID_def fun_eq_iff)

lemma routed_upd [simp]:
  "routed (bw\<lparr>bw_buffers := b\<rparr>) = routed bw"
  "routed (bw\<lparr>bw_channels := c\<rparr>) = routed bw"
  "routed (bw\<lparr>bw_running := r\<rparr>) = routed bw"
  "routed (bw\<lparr>bw_stopChannel := s\<rparr>) = routed bw"
  by (simp_all add: routed_def fun_eq_iff)

lemma worker_wf_upd [simp]:
  "worker_wf (bw\<lparr>bw_running := r\<rparr>) i = worker_wf bw i"
  "worker_wf (bw\<lparr>bw_stopChannel := s\<rparr>) i = worker_wf bw i"
  by (simp_all add: worker_wf_def)

lemma workerID_less: "0 < bw_workers bw \<Longrightarrow> workerID bw k < nat (bw_workers bw)"
  by (simp add: workerID_def)

lemma bw_wfD:
  assumes "bw_wf bw"
  shows "0 < bw_workers bw" and "length (bw_channels bw) = nat (bw_workers bw)"
    and "length (bw_buffers bw) = nat (bw_workers bw)"
    and "length (bw_running bw) = nat (bw_workers bw)"
    and "i < nat (bw_workers bw) \<Longrightarrow> worker_wf bw i"
  using assms by (simp_all add: bw_wf_def)

text \<open>A change to one worker\'s channel or buffer is checked at that worker only.\<close>

lemma bw_wf_at:
  assumes "bw_wf bw" and "bw_workers bw' = bw_workers bw"
    and "length (bw_channels bw') = length (bw_channels bw)"
    and "length (bw_buffers bw') = length (bw_buffers bw)"
    and "length (bw_running bw') = length (bw_running bw)"
    and "\<And>j. j \<noteq> i \<Longrightarrow> bw_buffers bw' ! j = bw_buffers bw ! j \<and> bw_channels bw' ! j = bw_channels bw ! j"
    and "i < nat (bw_workers bw) \<Longrightarrow> worker_wf bw' i"
  shows "bw_wf bw'"
proof -
  have routed: "routed bw' = routed bw"
    using assms(2) by (simp add: fun_eq_iff routed_def workerID_def)
  have "worker_wf bw' j" if "j < nat (bw_workers bw)" for j
    using that assms(6,7) bw_wfD(5) [OF assms(1), of j]
    by (cases "j = i") (auto simp: worker_wf_def routed)
  then show ?thesis using assms(1-5) by (simp add: bw_wf_def)
qed

lemma bw_wf_clear: "bw_wf bw \<Longrightarrow> bw_wf (bw\<lparr>bw_buffers := (bw_buffers bw)[i := []]\<rparr>)"
  by (rule bw_wf_at [of bw _ i]) (auto simp: bw_wfD worker_wf_def dest: bw_wfD(5) [of bw i])

lemma BufferWrite_Ret:
  assumes "BufferWrite bw k v = Ret bw'"
  shows "bw' = bw\<lparr>bw_channels := (bw_channels bw)[workerID bw k :=
           bw_channels bw ! workerID bw k @ [\<lparr>req_Key = k, req_Value = v\<rparr>]]\<rparr>"
    and "length (bw_channels bw ! workerID bw k) < chan_capacity"
  using assms by (auto simp: BufferWrite_def Let_def split: if_splits)

lemma bw_wf_write:
  assumes "bw_wf bw" and "is_key k" and "BufferWrite bw k v = Ret bw'"
  shows "bw_wf bw'"
  using assms(1)
proof (rule bw_wf_at [where i = "workerID bw k"])
  note bw' = BufferWrite_Ret [OF assms(3)]
  let ?i = "workerID bw k"
  assume i: "?i < nat (bw_workers bw)"
  then have wf: "worker_wf bw ?i" using assms(1) by (rule bw_wfD(5) [rotated])
  have ch: "bw_channels bw' ! ?i = bw_channels bw ! ?i @ [\<lparr>req_Key = k, req_Value = v\<rparr>]"
    and bf: "bw_buffers bw' = bw_buffers bw" and rt: "routed bw' = routed bw"
    using i assms(1) by (simp_all add: bw'(1) bw_wfD)
  have "routed bw ?i k" using assms(2) by (simp add: routed_def)
  then show "worker_wf bw' ?i"
    using wf bw'(2) unfolding worker_wf_def ch bf rt by simp
qed (simp_all add: BufferWrite_Ret(1) [OF assms(3)])

text \<open>The state after a request was moved from the channel to the buffer, before any flush.\<close>

definition buffered :: "BatchWriter \<Rightarrow> nat \<Rightarrow> BatchWriter" where
  "buffered bw i =
     (let req = hd (bw_channels bw ! i)
      in bw\<lparr>bw_channels := (bw_channels bw)[i := tl (bw_channels bw ! i)],
            bw_buffers := (bw_buffers bw)[i :=
              AList.update (req_Key req) (req_Value req) (bw_buffers bw ! i)]\<rparr>)"

lemma buffered_simps [simp]:
  "bw_workers (buffered bw i) = bw_workers bw"
  "bw_maxBatchSize (buffered bw i) = bw_maxBatchSize bw"
  "bw_running (buffered bw i) = bw_running bw"
  "bw_stopChannel (buffered bw i) = bw_stopChannel bw"
  "workerID (buffered bw i) = workerID bw"
  "routed (buffered bw i) = routed bw"
  by (simp_all add: buffered_def Let_def)

lemma worker_recv_eq:
  "worker_recv ord bw db i =
     (if bw_channels bw ! i = [] then None
      else if bw_maxBatchSize bw \<le> int (length (bw_buffers (buffered bw i) ! i))
      then Some (flush ord (buffered bw i) db i)
      else Some (buffered bw i, db, None))"
  by (simp add: worker_recv_def buffered_def Let_def split: list.split)

lemma buffered_at:
  assumes "bw_wf bw" and "i < nat (bw_workers bw)"
  shows "bw_channels (buffered bw i) ! i = tl (bw_channels bw ! i)"
    and "bw_buffers (buffered bw i) ! i =
      AList.update (req_Key (hd (bw_channels bw ! i))) (req_Value (hd (bw_channels bw ! i)))
        (bw_buffers bw ! i)"
    and "j \<noteq> i \<Longrightarrow> bw_channels (buffered bw i) ! j = bw_channels bw ! j"
    and "j \<noteq> i \<Longrightarrow> bw_buffers (buffered bw i) ! j = bw_buffers bw ! j"
    and "length (bw_channels (buffered bw i)) = length (bw_channels bw)"
    and "length (bw_buffers (buffered bw i)) = length (bw_buffers bw)"
  using assms by (simp_all add: buffered_def Let_def bw_wfD)

lemma bw_wf_buffered:
  assumes "bw_wf bw" and "i < nat (bw_workers bw)" and "bw_channels bw ! i \<noteq> []"
  shows "bw_wf (buffered bw i)"
  using assms(1)
proof (rule bw_wf_at [where i = i])
  have wf: "worker_wf bw i" using assms by (simp add: bw_wfD)
  from assms(3) have "set (bw_channels bw ! i) =
      insert (hd (bw_channels bw ! i)) (set (tl (bw_channels bw ! i)))"
    by (cases "bw_channels bw ! i") auto
  with wf show "worker_wf (buffered bw i) i"
    by (auto simp: worker_wf_def buffered_at [OF assms(1,2)])
qed (simp_all add: buffered_at [OF assms(1,2)])

lemma bw_wf_step:
  assumes "bw_step s ev err s'" and "bw_wf (fst s)"
  shows "bw_wf (fst s')"
  using assms
proof (induction rule: bw_step.induct)
  case (step_write k bw v bw' db)
  then show ?case by (simp add: bw_wf_write)
next
  case (step_recv i bw ord db bw' db' err)
  then have "bw_wf (buffered bw i)"
    by (intro bw_wf_buffered) (auto simp: bw_wfD worker_recv_eq split: if_splits)
  with step_recv show ?case
    by (auto simp: worker_recv_eq bw_wf_clear dest!: flush_bw split: if_splits)
next
  case (step_tick i bw ord db bw' db' err)
  then show ?case by (auto simp: worker_tick_def bw_wf_clear dest!: flush_bw)
next
  case (step_stop i bw ord db bw' db' err)
  then have "bw_wf (bw\<lparr>bw_buffers := (bw_buffers bw)[i := []]\<rparr>)" by (simp add: bw_wf_clear)
  with step_stop show ?case
    by (auto simp: worker_stop_def bw_wf_def dest!: flush_bw split: if_splits prod.splits)
next
  case (step_flush_and_stop bw bw' db)
  then show ?case
    by (auto simp: FlushAndStop_def chan_close_def bw_wf_def split: if_splits)
qed

lemma buffers_bounded_clear:
  "buffers_bounded bw \<Longrightarrow> bw_wf bw \<Longrightarrow> i < nat (bw_workers bw) \<Longrightarrow>
   buffers_bounded (bw\<lparr>bw_buffers := (bw_buffers bw)[i := []]\<rparr>)"
  by (auto simp: buffers_bounded_def nth_list_update bw_wfD)

lemma buffers_bounded_recv:
  assumes "bw_wf bw" and "buffers_bounded bw" and "i < nat (bw_workers bw)"
    and "worker_recv ord bw db i = Some (bw', db', err)"
  shows "buffers_bounded bw'"
proof (cases "bw_maxBatchSize bw \<le> int (length (bw_buffers (buffered bw i) ! i))")
  case True
  then have "flush ord (buffered bw i) db i = (bw', db', err)"
    using assms(4) by (auto simp: worker_recv_eq split: if_splits)
  then have "bw' = (buffered bw i)\<lparr>bw_buffers := (bw_buffers (buffered bw i))[i := []]\<rparr>"
    by (rule flush_bw)
  then show ?thesis
    using assms(2,3) buffered_at [OF assms(1,3)] bw_wfD(3) [OF assms(1)]
    by (auto simp: buffers_bounded_def nth_list_update)
next
  case False
  then have "bw' = buffered bw i" using assms(4) by (auto simp: worker_recv_eq split: if_splits)
  then show ?thesis
    using False assms(2) buffered_at(4) [OF assms(1,3)]
    by (auto simp: buffers_bounded_def not_le) metis
qed

lemma buffers_bounded_step:
  assumes "bw_step s ev err s'" and "bw_wf (fst s)" and "buffers_bounded (fst s)"
  shows "buffers_bounded (fst s')"
  using assms
proof (induction rule: bw_step.induct)
  case (step_write k bw v bw' db)
  then show ?case by (auto simp: buffers_bounded_def dest!: BufferWrite_Ret(1))
next
  case (step_recv i bw ord db bw' db' err)
  then show ?case using buffers_bounded_recv by (simp add: bw_wfD)
next
  case (step_tick i bw ord db bw' db' err)
  then show ?case
    by (auto simp: worker_tick_def bw_wfD buffers_bounded_clear dest!: flush_bw)
next
  case (step_stop i bw ord db bw' db' err)
  then have "buffers_bounded (bw\<lparr>bw_buffers := (bw_buffers bw)[i := []]\<rparr>)"
    by (simp add: bw_wfD buffers_bounded_clear)
  with step_stop show ?case
    by (auto simp: worker_stop_def buffers_bounded_def dest!: flush_bw split: if_splits prod.splits)
next
  case (step_flush_and_stop bw bw' db)
  then show ?case
    by (auto simp: FlushAndStop_def chan_close_def buffers_bounded_def split: if_splits)
qed

lemma bw_inv_step: "bw_step s ev err s' \<Longrightarrow> bw_inv (fst s) \<Longrightarrow> bw_inv (fst s')"
  by (simp add: bw_inv_def bw_wf_step buffers_bounded_step)

lemma NewBatchWriter_inv:
  "NewBatchWriter maxBatch interval workers = Ret bw \<Longrightarrow> 0 < workers \<Longrightarrow> bw_inv bw"
  by (auto simp: NewBatchWriter_def bw_inv_def bw_wf_def worker_wf_def buffers_bounded_def
      split: if_splits)

section \<open>Refinement of the abstract map\<close>

lemma view_write:
  assumes "bw_wf bw" and "BufferWrite bw k v = Ret bw'"
  shows "bw_view bw' db = (bw_view bw db)(k \<mapsto> v)"
proof
  fix k'
  have bw': "bw' = bw\<lparr>bw_channels := (bw_channels bw)[workerID bw k :=
           bw_channels bw ! workerID bw k @ [\<lparr>req_Key = k, req_Value = v\<rparr>]]\<rparr>"
    by (rule BufferWrite_Ret(1) [OF assms(2)])
  have "workerID bw k < length (bw_channels bw)"
    using assms(1) by (simp add: bw_wfD workerID_less)
  then show "bw_view bw' db k' = ((bw_view bw db)(k \<mapsto> v)) k'"
    by (cases "workerID bw k' = workerID bw k")
       (auto simp: bw_view_def bw' map_add_def split: option.splits)
qed

lemma view_buffered:
  assumes "bw_wf bw" and "i < nat (bw_workers bw)" and "bw_channels bw ! i \<noteq> []"
  shows "bw_view (buffered bw i) db = bw_view bw db"
proof
  fix k
  obtain r q where rq: "bw_channels bw ! i = r # q" using assms(3) by (cases "bw_channels bw ! i") auto
  show "bw_view (buffered bw i) db k = bw_view bw db k"
    by (cases "workerID bw k = i")
       (auto simp: bw_view_def buffered_at [OF assms(1,2)] rq queued_Cons map_add_def
          split: option.splits)
qed

lemma view_flush:
  assumes "bw_wf bw" and "i < nat (bw_workers bw)" and "db_ok db" and "iter_order ord"
    and "flush ord bw db i = (bw', db', None)"
  shows "bw_view bw' db' = bw_view bw db"
proof
  fix k
  have wf: "worker_wf bw i" using assms(1,2) by (simp add: bw_wfD)
  have bw': "bw' = bw\<lparr>bw_buffers := (bw_buffers bw)[i := []]\<rparr>" by (rule flush_bw [OF assms(5)])
  have st: "db_store db' = db_store db ++ map_of (bw_buffers bw ! i)"
    using flush_db(2) [OF assms(3,4) _ assms(5)] wf by (simp add: worker_wf_def)
  have i: "i < length (bw_buffers bw)" using assms(1,2) by (simp add: bw_wfD)
  show "bw_view bw' db' k = bw_view bw db k"
  proof (cases "workerID bw k = i")
    case True
    then show ?thesis using i by (simp add: bw_view_def bw' st)
  next
    case False
    then have "map_of (bw_buffers bw ! i) k = None"
      using wf by (auto simp: worker_wf_def routed_def)
    then show ?thesis
      using False by (simp add: bw_view_def bw' st map_add_def split: option.split)
  qed
qed

lemma db_ok_flush: "db_ok db \<Longrightarrow> flush ord bw db i = (bw', db', err) \<Longrightarrow> db_ok db'"
  by (auto simp: flush_def db_ok_def split: if_splits prod.splits)

lemma db_ok_step: "bw_step s ev err s' \<Longrightarrow> db_ok (snd s) \<Longrightarrow> db_ok (snd s')"
  by (induction rule: bw_step.induct)
     (auto simp: worker_recv_eq worker_tick_def worker_stop_def intro: db_ok_flush
        split: if_splits prod.splits)

text \<open>One step that logs no error does to the view what its event does to the abstract map.\<close>

lemma bw_step_refines:
  assumes "bw_step s ev None s'" and "bw_wf (fst s)" and "db_ok (snd s)"
  shows "bw_view (fst s') (snd s') = spec_step (bw_view (fst s) (snd s)) ev"
  using assms
proof (induction s ev "None :: error option" s' rule: bw_step.induct)
  case (step_write k bw v bw' db)
  then show ?case by (simp add: view_write)
next
  case (step_recv i bw ord db bw' db')
  have i: "i < nat (bw_workers bw)" using step_recv by (simp add: bw_wfD)
  have ne: "bw_channels bw ! i \<noteq> []" using step_recv(4) by (auto simp: worker_recv_eq)
  have wf: "bw_wf (buffered bw i)" using step_recv i ne by (simp add: bw_wf_buffered)
  have "bw_view bw' db' = bw_view (buffered bw i) db"
    using step_recv(4) view_flush [OF wf _ _ step_recv(3)] i step_recv.prems
    by (auto simp: worker_recv_eq ne split: if_splits)
  then show ?case using step_recv.prems i ne by (simp add: view_buffered)
next
  case (step_tick i bw ord db bw' db')
  then show ?case using view_flush [of bw i db ord bw' db'] by (simp add: worker_tick_def bw_wfD)
next
  case (step_stop i bw ord db bw' db')
  from step_stop(4) obtain bw1 where fl: "flush ord bw db i = (bw1, db', None)"
    and bw': "bw' = bw1\<lparr>bw_running := (bw_running bw1)[i := False]\<rparr>"
    by (auto simp: worker_stop_def split: if_splits prod.splits)
  have "bw_view bw' db' = bw_view bw1 db'" by (simp add: bw' bw_view_def fun_eq_iff)
  also have "\<dots> = bw_view bw db"
    using view_flush [OF _ _ _ step_stop(3) fl] step_stop by (simp add: bw_wfD)
  finally show ?case by simp
next
  case (step_flush_and_stop bw bw' db)
  then show ?case
    by (auto simp: FlushAndStop_def chan_close_def bw_view_def fun_eq_iff split: if_splits)
qed

section \<open>Runs\<close>

lemma bw_run_trans:
  assumes "bw_run s' evs' errs' s''" and "bw_run s evs errs s'"
  shows "bw_run s (evs @ evs') (errs @ errs') s''"
  using assms
proof (induction rule: bw_run.induct)
  case (run_step s' evs' errs' t ev err t')
  then show ?case using bw_run.run_step by (fastforce simp flip: append_assoc)
qed simp

lemma bw_run_one: "bw_step s ev None s' \<Longrightarrow> bw_run s [ev] [] s'"
  using bw_run.run_step [OF bw_run.run_nil, of s ev None s'] by simp

lemma bw_run_inv:
  "bw_run s evs errs s' \<Longrightarrow> bw_inv (fst s) \<Longrightarrow> bw_inv (fst s')"
  by (induction rule: bw_run.induct) (auto intro: bw_inv_step)

lemma bw_run_db_ok: "bw_run s evs errs s' \<Longrightarrow> db_ok (snd s) \<Longrightarrow> db_ok (snd s')"
  by (induction rule: bw_run.induct) (auto intro: db_ok_step)

lemma bw_run_refines:
  assumes "bw_run s evs errs s'" and "errs = []" and "bw_inv (fst s)" and "db_ok (snd s)"
  shows "bw_view (fst s') (snd s') = foldl spec_step (bw_view (fst s) (snd s)) evs"
  using assms
proof (induction rule: bw_run.induct)
  case (run_step s evs errs s' ev err s'')
  then have err: "err = None" and errs: "errs = []" by (auto split: option.splits)
  have "bw_wf (fst s')" and "db_ok (snd s')"
    using bw_run_inv [OF run_step(1)] bw_run_db_ok [OF run_step(1)] run_step.prems
    by (simp_all add: bw_inv_def)
  then show ?case
    using run_step bw_step_refines [of s' ev s''] by (simp add: err errs)
qed simp

definition quiescent :: "BatchWriter \<Rightarrow> bool" where
  "quiescent bw \<longleftrightarrow>
     (\<forall>i < nat (bw_workers bw). bw_channels bw ! i = [] \<and> bw_buffers bw ! i = [])"

lemma quiescent_view: "bw_wf bw \<Longrightarrow> quiescent bw \<Longrightarrow> bw_view bw db = db_store db"
  by (simp add: bw_view_def quiescent_def fun_eq_iff bw_wfD workerID_less)

lemma NewBatchWriter_view:
  assumes "NewBatchWriter maxBatch interval workers = Ret bw" and "0 < workers"
  shows "bw_view bw db = db_store db"
proof (rule quiescent_view)
  show "bw_wf bw" using NewBatchWriter_inv [OF assms] by (simp add: bw_inv_def)
  show "quiescent bw" using assms by (auto simp: NewBatchWriter_def quiescent_def split: if_splits)
qed

section \<open>Draining\<close>

text \<open>An engine whose transactions go through: no call the flush makes fails.\<close>

definition accepting :: "('e, 't) mdbx \<Rightarrow> bool" where
  "accepting m \<longleftrightarrow>
     (\<forall>e f v. (\<forall>t vs. fst (f t vs) = None) \<longrightarrow> fst (Update m e f v) = None) \<and>
     (\<forall>t d. OpenCursor m t d = None) \<and>
     (\<forall>t d k v. fst (Cursor_Put m t d k v) = None)"

lemma accepting_update:
  "accepting m \<Longrightarrow> (\<And>t vs. fst (f t vs) = None) \<Longrightarrow> fst (Update m e f v) = None"
  by (simp add: accepting_def)

lemma put_all_accepting: "accepting m \<Longrightarrow> fst (put_all m d kvs t) = None"
proof (induction kvs arbitrary: t)
  case (Cons kv kvs)
  obtain k v where kv: "kv = (k, v)" by fastforce
  obtain t' where "Cursor_Put m t d k v = (None, t')"
    using Cons.prems unfolding accepting_def by (metis prod.collapse)
  then show ?case using Cons by (simp add: kv)
qed simp

lemma flush_accepting:
  assumes "accepting (db_mdbx db)" and "flush ord bw db i = (bw', db', err)"
  shows "err = None" and "db_mdbx db' = db_mdbx db"
proof -
  let ?f = "\<lambda>txn vs. case OpenCursor (db_mdbx db) txn (Db_GetDBI db) of
      Some err \<Rightarrow> (Some (Wrapped ''failed to open cursor'' err), txn, vs)
    | None \<Rightarrow> (case put_all (db_mdbx db) (Db_GetDBI db) (ord (bw_buffers bw ! i)) txn of
                 (err, txn) \<Rightarrow> (err, txn, vs))"
  have "fst (?f t vs) = None" for t vs
    using assms(1) put_all_accepting [OF assms(1), of "Db_GetDBI db" "ord (bw_buffers bw ! i)" t]
    by (auto simp: accepting_def split: prod.splits)
  then have "fst (Update (db_mdbx db) (db_env db) ?f no_vars) = None"
    by (rule accepting_update [OF assms(1)])
  then show "err = None"
    using assms(2) by (auto simp: flush_def split: if_splits prod.splits)
  show "db_mdbx db' = db_mdbx db"
    using assms(2) by (auto simp: flush_def split: if_splits prod.splits)
qed

lemma mem_mdbx_accepting: "accepting (mem_mdbx None)"
  by (auto simp: accepting_def mem_mdbx_def mem_full_def split: prod.splits option.splits)
     (metis fst_conv option.distinct(1))

text \<open>What draining leaves alone.\<close>

definition drained_at :: "nat \<Rightarrow> ('e, 't) bw_state \<Rightarrow> ('e, 't) bw_state \<Rightarrow> bool" where
  "drained_at i s s' \<longleftrightarrow>
     bw_channels (fst s') ! i = [] \<and> bw_buffers (fst s') ! i = [] \<and>
     (\<forall>j. j \<noteq> i \<longrightarrow> bw_channels (fst s') ! j = bw_channels (fst s) ! j \<and>
        bw_buffers (fst s') ! j = bw_buffers (fst s) ! j) \<and>
     bw_running (fst s') = bw_running (fst s) \<and> bw_workers (fst s') = bw_workers (fst s) \<and>
     db_mdbx (snd s') = db_mdbx (snd s)"

lemma iter_order_id: "iter_order (\<lambda>m. m)"
  by (simp add: iter_order_def)

lemma recv_progress:
  assumes "bw_wf bw" and "i < nat (bw_workers bw)" and "bw_running bw ! i"
    and "accepting (db_mdbx db)" and "bw_channels bw ! i \<noteq> []"
  shows "\<exists>bw' db'. bw_step (bw, db) (ERecv i) None (bw', db') \<and>
    bw_channels bw' ! i = tl (bw_channels bw ! i) \<and>
    (\<forall>j. j \<noteq> i \<longrightarrow> bw_channels bw' ! j = bw_channels bw ! j \<and>
       bw_buffers bw' ! j = bw_buffers bw ! j) \<and>
    bw_running bw' = bw_running bw \<and> bw_workers bw' = bw_workers bw \<and>
    db_mdbx db' = db_mdbx db"
proof -
  obtain bw' db' err where recv: "worker_recv (\<lambda>m. m) bw db i = Some (bw', db', err)"
    using assms(5) by (cases "worker_recv (\<lambda>m. m) bw db i") (auto simp: worker_recv_eq split: if_splits)
  have "err = None \<and> db_mdbx db' = db_mdbx db"
    using recv assms(5) flush_accepting [OF assms(4)]
    by (auto simp: worker_recv_eq split: if_splits)
  moreover have "bw' = buffered bw i \<or>
      bw' = (buffered bw i)\<lparr>bw_buffers := (bw_buffers (buffered bw i))[i := []]\<rparr>"
    using recv assms(5) flush_bw [of "\<lambda>m. m" "buffered bw i" db i bw' db' err]
    by (auto simp: worker_recv_eq split: if_splits)
  moreover have "bw_step (bw, db) (ERecv i) err (bw', db')"
    using recv assms by (intro step_recv [OF _ _ iter_order_id]) (simp_all add: bw_wfD)
  ultimately show ?thesis
    using buffered_at [OF assms(1,2)] by (intro exI [of _ bw'] exI [of _ db']) auto
qed

lemma drain_channel:
  assumes "bw_inv bw" and "i < nat (bw_workers bw)" and "bw_running bw ! i"
    and "accepting (db_mdbx db)"
  shows "\<exists>evs s'. bw_run (bw, db) evs [] s' \<and> set evs \<subseteq> {ERecv i} \<and>
    bw_channels (fst s') ! i = [] \<and>
    (\<forall>j. j \<noteq> i \<longrightarrow> bw_channels (fst s') ! j = bw_channels bw ! j \<and>
       bw_buffers (fst s') ! j = bw_buffers bw ! j) \<and>
    bw_running (fst s') = bw_running bw \<and> bw_workers (fst s') = bw_workers bw \<and>
    db_mdbx (snd s') = db_mdbx db"
  using assms
proof (induction "length (bw_channels bw ! i)" arbitrary: bw db)
  case 0
  then show ?case by (intro exI [of _ "[]"] exI [of _ "(bw, db)"]) (auto intro: run_nil)
next
  case (Suc n)
  then have "bw_channels bw ! i \<noteq> []" and wf: "bw_wf bw" by (auto simp: bw_inv_def)
  from recv_progress [OF wf Suc.prems(2-4) this(1)] obtain bw1 db1 where
    step: "bw_step (bw, db) (ERecv i) None (bw1, db1)"
    and ch: "bw_channels bw1 ! i = tl (bw_channels bw ! i)"
    and frame: "\<forall>j. j \<noteq> i \<longrightarrow> bw_channels bw1 ! j = bw_channels bw ! j \<and>
       bw_buffers bw1 ! j = bw_buffers bw ! j"
    and run: "bw_running bw1 = bw_running bw" and wk: "bw_workers bw1 = bw_workers bw"
    and eng: "db_mdbx db1 = db_mdbx db" by blast
  have "bw_inv bw1" using bw_inv_step [OF step] Suc.prems(1) by simp
  moreover have "n = length (bw_channels bw1 ! i)" using Suc.hyps(2) by (simp add: ch)
  ultimately obtain evs s' where rest: "bw_run (bw1, db1) evs [] s'" "set evs \<subseteq> {ERecv i}"
    "bw_channels (fst s') ! i = []"
    "\<forall>j. j \<noteq> i \<longrightarrow> bw_channels (fst s') ! j = bw_channels bw1 ! j \<and>
       bw_buffers (fst s') ! j = bw_buffers bw1 ! j"
    "bw_running (fst s') = bw_running bw1" "bw_workers (fst s') = bw_workers bw1"
    "db_mdbx (snd s') = db_mdbx db1"
    using Suc.hyps(1) [of bw1 db1] Suc.prems by (auto simp: run wk eng)
  have "bw_run (bw, db) (ERecv i # evs) [] s'"
    using bw_run_trans [OF rest(1) bw_run_one [OF step]] by simp
  then show ?case
    using rest frame run wk eng by (intro exI [of _ "ERecv i # evs"] exI [of _ s']) auto
qed

lemma drain_worker:
  assumes "bw_inv bw" and "i < nat (bw_workers bw)" and "bw_running bw ! i"
    and "accepting (db_mdbx db)"
  shows "\<exists>evs s'. bw_run (bw, db) evs [] s' \<and> set evs \<subseteq> {ERecv i, ETick i} \<and>
    drained_at i (bw, db) s'"
proof -
  obtain evs bw1 db1 where d: "bw_run (bw, db) evs [] (bw1, db1)" "set evs \<subseteq> {ERecv i}"
    "bw_channels bw1 ! i = []"
    "\<forall>j. j \<noteq> i \<longrightarrow> bw_channels bw1 ! j = bw_channels bw ! j \<and> bw_buffers bw1 ! j = bw_buffers bw ! j"
    "bw_running bw1 = bw_running bw" "bw_workers bw1 = bw_workers bw" "db_mdbx db1 = db_mdbx db"
    using drain_channel [OF assms] by auto
  have wf: "bw_wf bw1" using bw_run_inv [OF d(1)] assms(1) by (simp add: bw_inv_def)
  obtain bw2 db2 err where fl: "flush (\<lambda>m. m) bw1 db1 i = (bw2, db2, err)"
    by (metis prod_cases3)
  have none: "err = None" and eng: "db_mdbx db2 = db_mdbx db1"
    using flush_accepting [OF _ fl] assms(4) d(7) by simp_all
  have "bw_step (bw1, db1) (ETick i) None (bw2, db2)"
    using fl assms d by (intro step_tick [OF _ _ iter_order_id])
      (simp_all add: none worker_tick_def bw_inv_def bw_wfD)
  then have "bw_run (bw, db) (evs @ [ETick i]) [] (bw2, db2)"
    using bw_run_trans [OF bw_run_one d(1)] by simp
  moreover have "drained_at i (bw, db) (bw2, db2)"
    using d eng wf assms(2) flush_bw [OF fl] by (auto simp: drained_at_def bw_wfD)
  ultimately show ?thesis
    using d(2) by (intro exI [of _ "evs @ [ETick i]"] exI [of _ "(bw2, db2)"]) auto
qed

text \<open>The first \<open>n\<close> workers one after the other.\<close>

lemma drain_workers:
  assumes "bw_inv bw" and "\<forall>i < nat (bw_workers bw). bw_running bw ! i"
    and "accepting (db_mdbx db)" and "n \<le> nat (bw_workers bw)"
  shows "\<exists>evs s'. bw_run (bw, db) evs [] s' \<and> (\<forall>k v. EWrite k v \<notin> set evs) \<and>
    (\<forall>i < n. bw_channels (fst s') ! i = [] \<and> bw_buffers (fst s') ! i = []) \<and>
    bw_running (fst s') = bw_running bw \<and> bw_workers (fst s') = bw_workers bw \<and>
    db_mdbx (snd s') = db_mdbx db"
  using assms(4)
proof (induction n)
  case 0
  then show ?case by (intro exI [of _ "[]"] exI [of _ "(bw, db)"]) (auto intro: run_nil)
next
  case (Suc n)
  then obtain evs bw1 db1 where r: "bw_run (bw, db) evs [] (bw1, db1)"
    "\<forall>k v. EWrite k v \<notin> set evs"
    "\<forall>i < n. bw_channels bw1 ! i = [] \<and> bw_buffers bw1 ! i = []"
    "bw_running bw1 = bw_running bw" "bw_workers bw1 = bw_workers bw" "db_mdbx db1 = db_mdbx db"
    by auto
  have "bw_inv bw1" using bw_run_inv [OF r(1)] assms(1) by simp
  then obtain evs' s' where d: "bw_run (bw1, db1) evs' [] s'" "set evs' \<subseteq> {ERecv n, ETick n}"
    "drained_at n (bw1, db1) s'"
    using drain_worker [of bw1 n db1] assms(2,3) Suc.prems r by auto
  show ?case
    using bw_run_trans [OF d(1) r(1)] d r
    by (intro exI [of _ "evs @ evs'"] exI [of _ s'])
       (auto simp: drained_at_def less_Suc_eq subset_iff)
qed

lemma writer_drains:
  assumes "bw_inv bw" and "db_ok db" and "accepting (db_mdbx db)"
    and "\<forall>i < nat (bw_workers bw). bw_running bw ! i"
  shows "\<exists>evs bw' db'. bw_run (bw, db) evs [] (bw', db') \<and> (\<forall>k v. EWrite k v \<notin> set evs) \<and>
    quiescent bw' \<and> db_store db' = bw_view bw db \<and> db_mdbx db' = db_mdbx db \<and>
    bw_running bw' = bw_running bw \<and> bw_workers bw' = bw_workers bw"
proof -
  obtain evs bw' db' where r: "bw_run (bw, db) evs [] (bw', db')" "\<forall>k v. EWrite k v \<notin> set evs"
    "\<forall>i < nat (bw_workers bw). bw_channels bw' ! i = [] \<and> bw_buffers bw' ! i = []"
    "bw_workers bw' = bw_workers bw" "db_mdbx db' = db_mdbx db" "bw_running bw' = bw_running bw"
    using drain_workers [OF assms(1,4,3), of "nat (bw_workers bw)"] by auto
  have q: "quiescent bw'" using r(3,4) by (simp add: quiescent_def)
  have "spec_step m ev = m" if "ev \<in> set evs" for m ev using r(2) that by (cases ev) auto
  then have spec: "foldl spec_step m evs = m" for m by (induction evs) auto
  have "bw_view bw' db' = bw_view bw db"
    using bw_run_refines [OF r(1)] assms(1,2) by (simp add: spec)
  moreover have "bw_wf bw'" using bw_run_inv [OF r(1)] assms(1) by (simp add: bw_inv_def)
  ultimately show ?thesis using r q quiescent_view [of bw' db'] by metis
qed

section \<open>Workers that have returned\<close>

lemma flush_elsewhere:
  assumes "bw_wf bw" and "j < nat (bw_workers bw)" and "db_ok db" and "iter_order ord"
    and "flush ord bw db j = (bw', db', err)" and "workerID bw k \<noteq> j"
  shows "db_store db' k = db_store db k"
proof -
  have wf: "worker_wf bw j" using assms(1,2) by (simp add: bw_wfD)
  then have "map_of (bw_buffers bw ! j) k = None"
    using assms(6) by (auto simp: worker_wf_def routed_def)
  then show ?thesis
    using flush_db(2) [OF assms(3,4) _ assms(5)] wf
    by (auto simp: worker_wf_def map_add_def)
qed

lemma exited_step:
  assumes "bw_step s ev err s'" and "bw_wf (fst s)" and "db_ok (snd s)"
    and "\<not> bw_running (fst s) ! i" and "i < nat (bw_workers (fst s))"
  shows "\<not> bw_running (fst s') ! i \<and> bw_workers (fst s') = bw_workers (fst s) \<and>
    (\<exists>q. bw_channels (fst s') ! i = bw_channels (fst s) ! i @ q) \<and>
    (\<forall>k. workerID (fst s) k = i \<longrightarrow> db_store (snd s') k = db_store (snd s) k)"
  using assms
proof (induction rule: bw_step.induct)
  case (step_write k bw v bw' db)
  then show ?case
    using BufferWrite_Ret(1) [OF step_write(2)]
    by (cases "workerID bw k = i") (auto simp: bw_wfD)
next
  case (step_recv j bw ord db bw' db' err)
  then have j: "j < nat (bw_workers bw)" and ij: "i \<noteq> j" by (auto simp: bw_wfD)
  have ne: "bw_channels bw ! j \<noteq> []" using step_recv(4) by (auto simp: worker_recv_eq)
  have wf: "bw_wf (buffered bw j)" using step_recv j ne by (simp add: bw_wf_buffered)
  have "bw_wf bw" using step_recv by simp
  note at = buffered_at [OF this j]
  show ?case
    using step_recv(4) flush_bw [of ord "buffered bw j" db j bw' db' err]
      flush_elsewhere [OF wf _ _ step_recv(3), of j db bw' db' err] step_recv.prems j ij
    by (auto simp: worker_recv_eq ne at split: if_splits)
next
  case (step_tick j bw ord db bw' db' err)
  then have j: "j < nat (bw_workers bw)" and ij: "i \<noteq> j" by (auto simp: bw_wfD)
  show ?case
    using step_tick flush_bw [of ord bw db j bw' db' err]
      flush_elsewhere [OF _ j _ step_tick(3), of db bw' db' err] ij
    by (auto simp: worker_tick_def)
next
  case (step_stop j bw ord db bw' db' err)
  then have j: "j < nat (bw_workers bw)" and ij: "i \<noteq> j" by (auto simp: bw_wfD)
  from step_stop(4) obtain bw1 where fl: "flush ord bw db j = (bw1, db', err)"
    and bw': "bw' = bw1\<lparr>bw_running := (bw_running bw1)[j := False]\<rparr>"
    by (auto simp: worker_stop_def split: if_splits prod.splits)
  show ?case
    using step_stop.prems flush_bw [OF fl] flush_elsewhere [OF _ j _ step_stop(3) fl] ij
    by (auto simp: bw')
next
  case (step_flush_and_stop bw bw' db)
  then show ?case
    by (auto simp: FlushAndStop_def chan_close_def split: if_splits)
qed

lemma exited_run:
  assumes "bw_run s evs errs s'" and "bw_inv (fst s)" and "db_ok (snd s)"
    and "\<not> bw_running (fst s) ! i" and "i < nat (bw_workers (fst s))"
  shows "\<not> bw_running (fst s') ! i \<and> bw_workers (fst s') = bw_workers (fst s) \<and>
    (\<exists>q. bw_channels (fst s') ! i = bw_channels (fst s) ! i @ q) \<and>
    (\<forall>k. workerID (fst s) k = i \<longrightarrow> db_store (snd s') k = db_store (snd s) k)"
  using assms
proof (induction rule: bw_run.induct)
  case (run_step s evs errs s' ev err s'')
  have wf: "bw_wf (fst s')" and ok: "db_ok (snd s')"
    using bw_run_inv [OF run_step(1)] bw_run_db_ok [OF run_step(1)] run_step.prems
    by (simp_all add: bw_inv_def)
  have eq: "workerID (fst s') = workerID (fst s)"
    using run_step.IH run_step.prems by (simp add: workerID_def fun_eq_iff)
  show ?case
    using run_step.IH run_step.prems exited_step [OF run_step(2) wf ok, of i] by (auto simp: eq)
qed auto

section \<open>Properties\<close>

text \<open>A writer with two workers and a batch size of three, and a run of it.\<close>

definition sample_bw :: "WriteRequest list list \<Rightarrow> wbuffer list \<Rightarrow> bool list \<Rightarrow> bool \<Rightarrow> BatchWriter" where
  "sample_bw chs bufs running stopped =
     \<lparr>bw_channels = chs, bw_buffers = bufs, bw_maxBatchSize = 3, bw_flushInterval = 500000000,
      bw_stopChannel = \<lparr>ch_cap = 0, ch_queued = 0, ch_closed = stopped\<rparr>, bw_workers = 2,
      bw_running = running\<rparr>"

abbreviation sample_key :: bytes where
  "sample_key \<equiv> replicate 32 1"

abbreviation sample_new :: BatchWriter where
  "sample_new \<equiv> sample_bw [[], []] [[], []] [True, True] False"

lemma sample_NewBatchWriter: "NewBatchWriter 3 500000000 2 = Ret sample_new"
  by (simp add: NewBatchWriter_def sample_bw_def make_chan_def numeral_eq_Suc)

lemma sample_workerID [simp]: "workerID (sample_bw chs bufs r st) sample_key = 1"
  by (simp add: workerID_def sample_bw_def numeral_eq_Suc)

lemma sample_step_write:
  "bw_step (sample_new, db) (EWrite sample_key v) None
     (sample_bw [[], [\<lparr>req_Key = sample_key, req_Value = v\<rparr>]] [[], []] [True, True] False, db)"
  by (rule step_write)
     (simp_all add: BufferWrite_def is_key_def Let_def sample_bw_def
        sample_workerID [unfolded sample_bw_def, simplified])

lemma sample_step_recv:
  "bw_step (sample_bw [[], [\<lparr>req_Key = sample_key, req_Value = v\<rparr>]] [[], []] [True, True] False, db)
     (ERecv 1) None (sample_bw [[], []] [[], [(sample_key, v)]] [True, True] False, db)"
  by (rule step_recv [OF _ _ iter_order_id]) (simp_all add: worker_recv_def Let_def sample_bw_def)

lemma sample_step_tick:
  "bw_step (sample_bw [[], []] [[], [(sample_key, v)]] [True, True] False, mem_db None [])
     (ETick 1) None (sample_new, mem_db None [(sample_key, v)])"
  by (rule step_tick [OF _ _ iter_order_id])
     (simp_all add: worker_tick_def flush_def sample_bw_def mem_db_def mem_mdbx_def mem_full_def
        Db_GetDBI_def)

lemma sample_run:
  "bw_run (sample_new, mem_db None []) [EWrite sample_key [9], ERecv 1, ETick 1] []
     (sample_new, mem_db None [(sample_key, [9])])"
  using bw_run_trans [OF bw_run_trans [OF bw_run_one [OF sample_step_tick]
    bw_run_one [OF sample_step_recv]] bw_run_one [OF sample_step_write]] by simp

text \<open>
  C1. The batch writer refines a map with last-write-wins: along every run of a fresh writer in
  which no flush fails, however the workers, the ticks and the writers interleave, the
  contents it represents are the initial contents with all accepted writes applied in the
  order of their acceptance; once nothing is pending these are the contents of the database.
\<close>

theorem batch_writer_refines_map:
  assumes "NewBatchWriter maxBatch interval workers = Ret bw" and "0 < workers" and "db_ok db"
    and "bw_run (bw, db) evs [] (bw', db')"
  shows "bw_view bw' db' = foldl spec_step (db_store db) evs \<and>
    (quiescent bw' \<longrightarrow> db_store db' = foldl spec_step (db_store db) evs)"
proof -
  have inv: "bw_inv bw" using assms(1,2) by (rule NewBatchWriter_inv)
  have "bw_view bw' db' = foldl spec_step (db_store db) evs"
    using bw_run_refines [OF assms(4)] inv assms(3) NewBatchWriter_view [OF assms(1,2), of db] by simp
  moreover have "bw_wf bw'" using bw_run_inv [OF assms(4)] inv by (simp add: bw_inv_def)
  ultimately show ?thesis using quiescent_view [of bw' db'] by simp
qed

theorem batch_writer_refines_map_witness:
  "db_store (mem_db None [(sample_key, [9])]) =
     foldl spec_step Map.empty [EWrite sample_key [9], ERecv 1, ETick 1]"
proof -
  have "quiescent sample_new"
    by (auto simp: quiescent_def sample_bw_def numeral_eq_Suc less_Suc_eq)
  then show ?thesis
    using batch_writer_refines_map [OF sample_NewBatchWriter _ mem_db_ok sample_run] by simp
qed

text \<open>
  C19. In every state a fresh writer reaches, each worker holds only requests whose key is routed
  to it, its buffer is empty or smaller than the batch size, with each key at most once, and
  its channel is within its capacity.
\<close>

theorem batch_writer_invariant:
  assumes "NewBatchWriter maxBatch interval workers = Ret bw" and "0 < workers"
    and "bw_run (bw, db) evs errs (bw', db')" and "i < nat (bw_workers bw')"
  shows "worker_wf bw' i \<and>
    (bw_buffers bw' ! i = [] \<or> int (length (bw_buffers bw' ! i)) < bw_maxBatchSize bw')"
  using bw_run_inv [OF assms(3)] NewBatchWriter_inv [OF assms(1,2)] assms(4)
  by (auto simp: bw_inv_def bw_wf_def buffers_bounded_def)

theorem batch_writer_invariant_witness:
  "worker_wf (sample_bw [[], []] [[], [(sample_key, [9])]] [True, True] False) 1"
proof -
  have run: "bw_run (sample_new, mem_db None []) [EWrite sample_key [9], ERecv 1] []
      (sample_bw [[], []] [[], [(sample_key, [9])]] [True, True] False, mem_db None [])"
    using bw_run_trans [OF bw_run_one [OF sample_step_recv] bw_run_one [OF sample_step_write]]
    by simp
  show ?thesis
    using batch_writer_invariant [OF sample_NewBatchWriter _ run, of 1]
    by (simp add: sample_bw_def)
qed



text \<open>
  C21. What a flush does: when no error is logged, the database gains exactly the buffered
  pairs, in whatever order Go iterates over the buffer; when an error is logged, the database
  is unchanged. The buffer is empty afterwards in both cases, so a failed flush discards
  writes that were acknowledged.
\<close>

theorem flush_effect:
  assumes "bw_wf bw" and "i < nat (bw_workers bw)" and "db_ok db" and "iter_order ord"
    and "flush ord bw db i = (bw', db', err)"
  shows "db_store db' =
      (if err = None then db_store db ++ map_of (bw_buffers bw ! i) else db_store db) \<and>
    bw_buffers bw' ! i = [] \<and> bw_channels bw' = bw_channels bw \<and>
    (\<forall>j. j \<noteq> i \<longrightarrow> bw_buffers bw' ! j = bw_buffers bw ! j)"
proof -
  have "distinct (map fst (bw_buffers bw ! i))"
    using bw_wfD(5) [OF assms(1,2)] by (simp add: worker_wf_def)
  then have "db_store db' =
      (if err = None then db_store db ++ map_of (bw_buffers bw ! i) else db_store db)"
    by (rule flush_db(2) [OF assms(3,4) _ assms(5)])
  then show ?thesis
    using flush_bw [OF assms(5)] assms(1,2) by (simp add: bw_wfD)
qed

text \<open>A flush into a store that has no room.\<close>

lemma sample_failed_flush:
  "flush (\<lambda>m. m) (sample_bw [[], []] [[], [(sample_key, [9])]] [True, True] False)
     (mem_db (Some 0) []) 1 =
   (sample_new, mem_db (Some 0) [],
    Some (Wrapped (''failed to write key: '' @ show_hex sample_key)
      (LibErr ''mdbx.MapFull'' ''map full'')))"
  by (simp add: flush_def sample_bw_def mem_db_def mem_mdbx_def mem_full_def Db_GetDBI_def)

lemma sample_wf:
  "bw_wf (sample_bw [[], []] [[], [(sample_key, [9])]] [True, True] False)"
  using bw_run_inv [OF bw_run_trans [OF bw_run_one [OF sample_step_recv]
    bw_run_one [OF sample_step_write]]] NewBatchWriter_inv [OF sample_NewBatchWriter]
  by (simp add: bw_inv_def)

theorem flush_effect_witness:
  "db_store (mem_db (Some 0) []) sample_key = None \<and> bw_buffers sample_new ! 1 = []"
  using flush_effect [OF sample_wf _ mem_db_ok iter_order_id sample_failed_flush]
  by (simp add: sample_bw_def)

text \<open>
  A worker that has returned writes nothing more: along every run, what was left in its
  channel stays there, and the database entry of every key routed to it keeps its value.
\<close>

theorem returned_worker_writes_nothing:
  assumes "bw_run (bw, db) evs errs (bw', db')" and "bw_inv bw" and "db_ok db"
    and "\<not> bw_running bw ! i" and "i < nat (bw_workers bw)"
  shows "\<not> bw_running bw' ! i \<and> (\<exists>q. bw_channels bw' ! i = bw_channels bw ! i @ q) \<and>
    (\<forall>k. workerID bw k = i \<longrightarrow> db_store db' k = db_store db k)"
  using exited_run [OF assms(1)] assms(2-5) by simp

text \<open>
  \<open>FlushAndStop\<close> while a request is still in the channel: the worker may take the stop signal
  first, and the request is never written.
\<close>

abbreviation sample_req :: WriteRequest where
  "sample_req \<equiv> \<lparr>req_Key = sample_key, req_Value = [9]\<rparr>"

abbreviation sample_stopped :: BatchWriter where
  "sample_stopped \<equiv> sample_bw [[], [sample_req]] [[], []] [True, False] True"

lemma sample_stop_run:
  "bw_run (sample_new, mem_db None []) [EWrite sample_key [9], EFlushAndStop, EStop 1] []
     (sample_stopped, mem_db None [])"
proof -
  have fas: "bw_step (sample_bw [[], [sample_req]] [[], []] [True, True] False, mem_db None [])
      EFlushAndStop None
      (sample_bw [[], [sample_req]] [[], []] [True, True] True, mem_db None [])"
    by (rule step_flush_and_stop) (simp add: FlushAndStop_def chan_close_def sample_bw_def)
  have stop: "bw_step (sample_bw [[], [sample_req]] [[], []] [True, True] True, mem_db None [])
      (EStop 1) None (sample_stopped, mem_db None [])"
    by (rule step_stop [OF _ _ iter_order_id])
       (simp_all add: worker_stop_def flush_def chan_recv_ready_def sample_bw_def)
  show ?thesis
    using bw_run_trans [OF bw_run_trans [OF bw_run_one [OF stop] bw_run_one [OF fas]]
      bw_run_one [OF sample_step_write]] by simp
qed

theorem returned_worker_writes_nothing_witness:
  "db_store (mem_db None []) sample_key = None \<and> bw_channels sample_stopped ! 1 = [sample_req]"
proof -
  have inv: "bw_inv sample_stopped"
    using bw_run_inv [OF sample_stop_run] NewBatchWriter_inv [OF sample_NewBatchWriter] by simp
  have nr: "\<not> bw_running sample_stopped ! 1" and lt: "1 < nat (bw_workers sample_stopped)"
    by (simp_all add: sample_bw_def)
  show ?thesis
    using returned_worker_writes_nothing [OF run_nil inv mem_db_ok nr lt]
    by (simp add: sample_bw_def)
qed

text \<open>
  C30. Stopping can lose accepted writes: there is a run in which a write is accepted, the writer
  is told to flush and stop, its worker returns without an error being logged, and in no
  continuation of that run does the database ever hold the written value.
\<close>

theorem flush_and_stop_loses_queued_write:
  "\<exists>bw'. bw_run (sample_new, mem_db None []) [EWrite sample_key [9], EFlushAndStop, EStop 1] []
       (bw', mem_db None []) \<and>
     (\<forall>evs errs bw'' db''. bw_run (bw', mem_db None []) evs errs (bw'', db'') \<longrightarrow>
        db_store db'' sample_key = None)"
proof (intro exI conjI allI impI)
  show "bw_run (sample_new, mem_db None []) [EWrite sample_key [9], EFlushAndStop, EStop 1] []
     (sample_stopped, mem_db None [])" by (rule sample_stop_run)
next
  fix evs errs bw'' db''
  assume run: "bw_run (sample_stopped, mem_db None []) evs errs (bw'', db'')"
  have inv: "bw_inv sample_stopped"
    using bw_run_inv [OF sample_stop_run] NewBatchWriter_inv [OF sample_NewBatchWriter] by simp
  have nr: "\<not> bw_running sample_stopped ! 1" and lt: "1 < nat (bw_workers sample_stopped)"
    by (simp_all add: sample_bw_def)
  show "db_store db'' sample_key = None"
    using exited_run [OF run, of 1] inv nr lt by simp
qed

theorem flush_and_stop_loses_queued_write_witness:
  "\<exists>bw'. bw_run (sample_new, mem_db None []) [EWrite sample_key [9], EFlushAndStop, EStop 1] []
       (bw', mem_db None []) \<and> db_store (mem_db None []) sample_key = None"
  using flush_and_stop_loses_queued_write run_nil by metis

end
