(* ===== verification/Messages.thy ===== *)
theory Messages
  imports Types
begin

text \<open>
  The package \<open>messages\<close> (\<^verbatim>\<open>src/messages/message.go\<close>): the wire format of a request, one
  handler byte, a 32-byte key, a big-endian 32-bit length and the data. The encoders and
  the decoder are modelled on the bytes they read and write, with the 32-bit length and
  the 32-bit slice bound of \<open>Decode\<close> kept at their width.
\<close>

section \<open>Messages and their encoding\<close>

record Message =
  msg_Handler :: HandlerType
  msg_Key :: bytes
  msg_Data :: bytes

text \<open>The values of the Go struct: the key is a \<^verbatim>\<open>[32]byte\<close>.\<close>

definition wf_Message :: "Message \<Rightarrow> bool" where
  "wf_Message m \<longleftrightarrow> is_key (msg_Key m)"

text \<open>
  \<open>EncodeWithBuffer\<close> writes into the caller's buffer and returns its first \<open>msgLen\<close> bytes; the
  model returns the result together with the buffer as it is left.
\<close>

definition EncodeWithBuffer :: "Message \<Rightarrow> bytes \<Rightarrow> (error + bytes) \<times> bytes" where
  "EncodeWithBuffer m buf =
     (let msgLen = 1 + 32 + 4 + length (msg_Data m)
      in if length buf < msgLen
         then (Inl (Errorf (''buffer too small, need at least '' @ show_nat msgLen @ '' bytes'')), buf)
         else
           let buf = buf[0 := msg_Handler m];
               buf = go_copy 1 33 (msg_Key m) buf;
               buf = go_copy 33 37 (PutUint32 (word_of_nat (length (msg_Data m)))) buf;
               buf = go_copy 37 (length buf) (msg_Data m) buf
           in (Inr (take msgLen buf), buf))"

definition Encode :: "Message \<Rightarrow> error + bytes" where
  "Encode m =
     (let msgLen = 1 + 32 + 4 + length (msg_Data m);
          buf = replicate msgLen 0;
          buf = buf[0 := msg_Handler m];
          buf = go_copy 1 33 (msg_Key m) buf;
          buf = go_copy 33 37 (PutUint32 (word_of_nat (length (msg_Data m)))) buf;
          buf = go_copy 37 (length buf) (msg_Data m) buf
      in Inr buf)"

text \<open>
  \<open>Decode\<close>: \<open>dataLen\<close> is a \<^verbatim>\<open>uint32\<close>, so the upper bound \<^verbatim>\<open>37+dataLen\<close> of the last slice is
  computed modulo $2^{32}$; the length check before it is done in \<^verbatim>\<open>int\<close>.
\<close>

definition Decode :: "bytes \<Rightarrow> (error + Message) go" where
  "Decode data =
     (if length data < 37
      then Ret (Inl (Errorf ''data too short, must be at least 37 bytes''))
      else
        let key = go_copy 0 32 (take 32 (drop 1 data)) (replicate 32 0);
            dataLen = Uint32 (take 4 (drop 33 data))
        in if length (drop 37 data) < unat dataLen
           then Ret (Inl (Errorf (''data length mismatch, expected '' @ show_nat (unat dataLen)
                  @ '' bytes but got '' @ show_nat (length (drop 37 data)) @ '' bytes'')))
           else go_bind (go_slice data 37 (unat (37 + dataLen)))
                  (\<lambda>d. Ret (Inr \<lparr>msg_Handler = data ! 0, msg_Key = key, msg_Data = d\<rparr>)))"

text \<open>
  The generators. What \<^verbatim>\<open>io.ReadFull(rand.Reader, key[:])\<close> yields is an input: 32 random
  bytes or an error.
\<close>

definition generateRandomKey :: "error + bytes \<Rightarrow> error + bytes" where
  "generateRandomKey readFull =
     (case readFull of
        Inl err \<Rightarrow> Inl (Wrapped ''failed to generate random key'' err)
      | Inr key \<Rightarrow> Inr key)"

definition GenerateRandomMessage :: "error + bytes \<Rightarrow> HandlerType \<Rightarrow> error + Message" where
  "GenerateRandomMessage readFull handler =
     (case generateRandomKey readFull of
        Inl err \<Rightarrow> Inl err
      | Inr key \<Rightarrow> Inr \<lparr>msg_Handler = handler, msg_Key = key, msg_Data = []\<rparr>)"

definition GenerateRandomMessageWithData ::
    "error + bytes \<Rightarrow> HandlerType \<Rightarrow> bytes \<Rightarrow> error + Message" where
  "GenerateRandomMessageWithData readFull handler data =
     (case generateRandomKey readFull of
        Inl err \<Rightarrow> Inl err
      | Inr key \<Rightarrow> Inr \<lparr>msg_Handler = handler, msg_Key = key, msg_Data = data\<rparr>)"

section \<open>The wire format\<close>

text \<open>The bytes a message is on the wire, written out once.\<close>

definition wire :: "Message \<Rightarrow> bytes" where
  "wire m = msg_Handler m # msg_Key m @ PutUint32 (word_of_nat (length (msg_Data m))) @ msg_Data m"

lemma wire_nonempty [simp]: "wire m \<noteq> []"
  by (simp add: wire_def)

lemma length_wire: "wf_Message m \<Longrightarrow> length (wire m) = 37 + length (msg_Data m)"
  by (simp add: wire_def wf_Message_def is_key_def)

text \<open>The four writes both encoders make, on a buffer that is large enough.\<close>

lemma encode_writes:
  assumes "wf_Message m" and "37 + length (msg_Data m) \<le> length buf"
  shows "(let b1 = buf[0 := msg_Handler m];
              b2 = go_copy 1 33 (msg_Key m) b1;
              b3 = go_copy 33 37 (PutUint32 (word_of_nat (length (msg_Data m)))) b2
          in go_copy 37 (length b3) (msg_Data m) b3) =
         wire m @ drop (37 + length (msg_Data m)) buf"
proof -
  from assms obtain b0 rest where buf: "buf = b0 # rest" by (cases buf) auto
  have len: "length (msg_Key m) = 32" using assms(1) by (simp add: wf_Message_def is_key_def)
  let ?l = "PutUint32 (word_of_nat (length (msg_Data m)))"
  have b2: "go_copy 1 33 (msg_Key m) (buf[0 := msg_Handler m]) =
      msg_Handler m # msg_Key m @ drop 32 rest"
    by (simp add: buf go_copy_full len)
  have b3: "go_copy 33 37 ?l (msg_Handler m # msg_Key m @ drop 32 rest) =
      msg_Handler m # msg_Key m @ ?l @ drop 36 rest"
    by (simp add: go_copy_full len)
  have fits: "length (msg_Data m) \<le> length (msg_Handler m # msg_Key m @ ?l @ drop 36 rest) - 37"
    using assms(2) by (simp add: buf len)
  have tail: "drop (37 + length (msg_Data m)) buf = drop (length (msg_Data m) + 36) rest"
    by (simp add: buf drop_Cons' add.commute)
  show ?thesis
    unfolding Let_def b2 b3 go_copy_tail [OF fits] tail
    by (simp add: wire_def len drop_Cons' add.commute)
qed

lemma Encode_wire: "wf_Message m \<Longrightarrow> Encode m = Inr (wire m)"
  using encode_writes [of m "replicate (37 + length (msg_Data m)) 0"]
  by (simp add: Encode_def Let_def)

lemma EncodeWithBuffer_wire:
  assumes "wf_Message m" and "37 + length (msg_Data m) \<le> length buf"
  shows "EncodeWithBuffer m buf =
    (Inr (wire m), wire m @ drop (37 + length (msg_Data m)) buf)"
  using encode_writes [OF assms] assms
  by (simp add: EncodeWithBuffer_def Let_def length_wire)

section \<open>Decoding\<close>

text \<open>The length field of a frame of at least 37 bytes.\<close>

definition declared_len :: "bytes \<Rightarrow> 32 word" where
  "declared_len d = Uint32 (take 4 (drop 33 d))"

lemma unat_slice_bound:
  fixes l :: "32 word"
  shows "unat (37 + l) = (if unat l < 2 ^ 32 - 37 then 37 + unat l else unat l - (2 ^ 32 - 37))"
proof -
  have l: "unat l < 2 ^ 32" using unsigned_less [of l] by simp
  have "unat (37 + l) = (37 + unat l) mod 2 ^ 32" by (simp add: unat_word_ariths)
  also have "\<dots> = (if unat l < 2 ^ 32 - 37 then 37 + unat l else unat l - (2 ^ 32 - 37))"
    using l by (simp add: mod_if)
  finally show ?thesis .
qed

lemma Decode_short: "length d < 37 \<Longrightarrow> \<exists>e. Decode d = Ret (Inl e)"
  by (simp add: Decode_def)

lemma Decode_mismatch:
  "37 \<le> length d \<Longrightarrow> length d - 37 < unat (declared_len d) \<Longrightarrow> \<exists>e. Decode d = Ret (Inl e)"
  by (simp add: Decode_def Let_def declared_len_def)

lemma Decode_long:
  assumes "37 \<le> length d" and "unat (declared_len d) \<le> length d - 37"
  shows "Decode d =
    (if unat (declared_len d) < 2 ^ 32 - 37
     then Ret (Inr \<lparr>msg_Handler = d ! 0, msg_Key = take 32 (drop 1 d),
                    msg_Data = take (unat (declared_len d)) (drop 37 d)\<rparr>)
     else Panic ''slice bounds out of range'')"
proof -
  have key: "go_copy 0 32 (take 32 (drop 1 d)) (replicate 32 0) = take 32 (drop 1 d)"
    using assms(1) by (simp add: go_copy_full)
  have wrapped: "\<not> 37 \<le> unat (declared_len d) - (2 ^ 32 - 37)"
    using unsigned_less [of "declared_len d", where ?'a = nat] by simp
  show ?thesis
    using assms wrapped
    by (auto simp: Decode_def Let_def key [unfolded One_nat_def] go_slice_def unat_slice_bound
        simp flip: declared_len_def)
qed

lemma Decode_wire:
  assumes "wf_Message m" and "length (msg_Data m) < 2 ^ 32 - 37"
  shows "Decode (wire m @ rest) = Ret (Inr m)"
proof -
  have len: "length (msg_Key m) = 32" using assms(1) by (simp add: wf_Message_def is_key_def)
  have dl: "declared_len (wire m @ rest) = word_of_nat (length (msg_Data m))"
    by (simp add: declared_len_def wire_def len)
  have un: "unat (declared_len (wire m @ rest)) = length (msg_Data m)"
    using assms(2) by (simp add: dl unat_of_nat)
  have "Decode (wire m @ rest) = Ret (Inr \<lparr>msg_Handler = (wire m @ rest) ! 0,
      msg_Key = take 32 (drop 1 (wire m @ rest)),
      msg_Data = take (length (msg_Data m)) (drop 37 (wire m @ rest))\<rparr>)"
    using Decode_long [of "wire m @ rest"] assms by (simp add: un length_wire)
  then show ?thesis by (simp add: wire_def len)
qed

lemma Decode_okD:
  assumes "Decode d = Ret (Inr m)"
  shows "37 \<le> length d" and "unat (declared_len d) \<le> length d - 37"
    and "unat (declared_len d) < 2 ^ 32 - 37"
    and "m = \<lparr>msg_Handler = d ! 0, msg_Key = take 32 (drop 1 d),
              msg_Data = take (unat (declared_len d)) (drop 37 d)\<rparr>"
proof -
  show "37 \<le> length d" using assms Decode_short [of d] by fastforce
  then show "unat (declared_len d) \<le> length d - 37"
    using assms Decode_mismatch [of d] by fastforce
  with \<open>37 \<le> length d\<close> show "unat (declared_len d) < 2 ^ 32 - 37"
    and "m = \<lparr>msg_Handler = d ! 0, msg_Key = take 32 (drop 1 d),
              msg_Data = take (unat (declared_len d)) (drop 37 d)\<rparr>"
    using assms by (simp_all add: Decode_long split: if_splits)
qed

text \<open>Four bytes are determined by the integer they encode.\<close>

lemma PutUint32_Uint32: "length b = 4 \<Longrightarrow> PutUint32 (Uint32 b) = b"
proof -
  assume "length b = 4"
  then obtain b0 b1 b2 b3 where b: "b = [b0, b1, b2, b3]"
    by (auto simp: length_Suc_conv numeral_eq_Suc)
  have "\<And>n. n < 8 \<Longrightarrow> bit (ucast (drop_bit 24 (Uint32 b)) :: byte) n = bit b0 n"
    and "\<And>n. n < 8 \<Longrightarrow> bit (ucast (drop_bit 16 (Uint32 b)) :: byte) n = bit b1 n"
    and "\<And>n. n < 8 \<Longrightarrow> bit (ucast (drop_bit 8 (Uint32 b)) :: byte) n = bit b2 n"
    and "\<And>n. n < 8 \<Longrightarrow> bit (ucast (Uint32 b) :: byte) n = bit b3 n"
    by (auto simp: Uint32_def b bit_simps dest: bit_imp_le_length)
  then show ?thesis
    by (auto simp: PutUint32_def b intro!: bit_word_eqI)
qed

lemma wire_of_decoded:
  assumes "Decode d = Ret (Inr m)"
  shows "wf_Message m" and "wire m = take (37 + length (msg_Data m)) d"
proof -
  note d = Decode_okD [OF assms]
  let ?n = "unat (declared_len d)"
  have ln: "length (msg_Data m) = ?n" using d by simp
  show "wf_Message m" using d by (simp add: wf_Message_def is_key_def)
  have "PutUint32 (word_of_nat (length (msg_Data m))) = take 4 (drop 33 d)"
    using d(1) by (simp add: ln declared_len_def PutUint32_Uint32)
  then have "wire m = d ! 0 # take 32 (drop 1 d) @ take 4 (drop 33 d) @ take ?n (drop 37 d)"
    using d(4) by (simp add: wire_def)
  also have "\<dots> = take 1 d @ take 32 (drop 1 d) @ take 4 (drop 33 d) @ take ?n (drop 37 d)"
    using d(1) by (cases d) auto
  also have "\<dots> = take (1 + (32 + (4 + ?n))) d"
    by (simp only: take_add drop_drop) simp
  finally show "wire m = take (37 + length (msg_Data m)) d" by (simp add: ln)
qed

section \<open>The codec interface\<close>

text \<open>
  What a peer relies on: an encoding from which the message can be read back whatever
  bytes follow it.
\<close>

locale codec =
  fixes enc :: "'m \<Rightarrow> bytes"
    and dec :: "bytes \<Rightarrow> 'm option"
    and ok :: "'m \<Rightarrow> bool"
  assumes dec_enc: "ok m \<Longrightarrow> dec (enc m @ rest) = Some m"
    and enc_nonempty: "ok m \<Longrightarrow> enc m \<noteq> []"
begin

lemma enc_prefix_free:
  assumes "ok m" and "ok m'" and "enc m @ r = enc m' @ r'"
  shows "m = m' \<and> r = r'"
proof -
  have "m = m'" using assms dec_enc [of m r] dec_enc [of m' r'] by simp
  then show ?thesis using assms(3) by simp
qed

lemma stream_inject:
  "\<forall>m \<in> set ms. ok m \<Longrightarrow> \<forall>m \<in> set ms'. ok m \<Longrightarrow>
   concat (map enc ms) = concat (map enc ms') \<Longrightarrow> ms = ms'"
proof (induction ms arbitrary: ms')
  case Nil
  then show ?case by (cases ms') (auto dest: enc_nonempty)
next
  case (Cons m ms)
  have m: "ok m" using Cons.prems(1) by simp
  from Cons.prems(3) enc_nonempty [OF m] obtain m' rest where ms': "ms' = m' # rest"
    by (cases ms') auto
  then have "m = m' \<and> concat (map enc ms) = concat (map enc rest)"
    using Cons.prems(2,3) enc_prefix_free [OF m, of m'] by simp
  then show ?case using Cons.IH [of rest] Cons.prems(1,2) ms' by simp
qed

end

text \<open>The messages whose length the decoder can represent.\<close>

definition encodable :: "Message \<Rightarrow> bool" where
  "encodable m \<longleftrightarrow> wf_Message m \<and> length (msg_Data m) < 2 ^ 32 - 37"

definition enc_bytes :: "Message \<Rightarrow> bytes" where
  "enc_bytes m = (case Encode m of Inl _ \<Rightarrow> [] | Inr bs \<Rightarrow> bs)"

definition dec_msg :: "bytes \<Rightarrow> Message option" where
  "dec_msg d = (case Decode d of Ret (Inr m) \<Rightarrow> Some m | _ \<Rightarrow> None)"

interpretation mc: codec enc_bytes dec_msg encodable
  by unfold_locales
    (auto simp: enc_bytes_def dec_msg_def encodable_def Encode_wire Decode_wire)

section \<open>Properties\<close>

definition sample_message :: Message where
  "sample_message = \<lparr>msg_Handler = WriteHandlerType, msg_Key = replicate 32 7, msg_Data = [1, 2, 3]\<rparr>"

lemma sample_message_ok: "wf_Message sample_message" "length (msg_Data sample_message) = 3"
  by (simp_all add: sample_message_def wf_Message_def is_key_def)

text \<open>
  C16. Decoding reads back every message whose data is shorter than $2^{32} - 37$ bytes, whatever
  bytes follow the encoded message in the buffer.
\<close>

theorem message_roundtrip:
  assumes "wf_Message m" and "length (msg_Data m) < 2 ^ 32 - 37" and "Encode m = Inr bs"
  shows "Decode (bs @ rest) = Ret (Inr m)"
  using assms(3) Decode_wire [OF assms(1,2)] by (simp add: Encode_wire [OF assms(1)])

theorem message_roundtrip_witness:
  "Encode sample_message = Inr (wire sample_message) \<and>
   Decode (wire sample_message @ [9, 9]) = Ret (Inr sample_message)"
  using message_roundtrip [OF sample_message_ok(1) _ Encode_wire [OF sample_message_ok(1)]]
  by (simp add: sample_message_ok Encode_wire)

text \<open>
  C20. Decoding accepts only encodings: when it returns a message, the key has 32 bytes and the
  input starts with exactly the bytes \<open>Encode\<close> makes of that message.
\<close>

theorem decode_sound:
  assumes "Decode d = Ret (Inr m)"
  shows "wf_Message m \<and> Encode m = Inr (take (37 + length (msg_Data m)) d)"
  using wire_of_decoded [OF assms] by (simp add: Encode_wire)

theorem decode_sound_witness:
  "Encode sample_message = Inr (take 40 (wire sample_message @ [9, 9]))"
proof -
  have "Decode (wire sample_message @ [9, 9]) = Ret (Inr sample_message)"
    by (rule Decode_wire) (simp_all add: sample_message_ok)
  from decode_sound [OF this] show ?thesis by (simp add: sample_message_ok)
qed

text \<open>
  C29. When decoding panics: exactly on inputs whose declared length is at least $2^{32} - 37$ and
  covered by the input, where the 32-bit slice bound wraps around. Inputs shorter than
  $2^{32}$ bytes never panic.
\<close>

theorem decode_panics_iff:
  "panics (Decode d) \<longleftrightarrow>
     37 \<le> length d \<and> unat (declared_len d) \<le> length d - 37 \<and> 2 ^ 32 - 37 \<le> unat (declared_len d)"
proof (cases "37 \<le> length d \<and> unat (declared_len d) \<le> length d - 37")
  case True
  then show ?thesis by (simp add: Decode_long)
next
  case False
  then obtain e where "Decode d = Ret (Inl e)"
    using Decode_short [of d] Decode_mismatch [of d] by fastforce
  then show ?thesis using False by auto
qed

text \<open>
  C31. The encoder that reuses a buffer agrees with the allocating one: it refuses exactly the
  buffers that are too short, leaving them untouched, and otherwise returns the same bytes
  and leaves the rest of the buffer as it was.
\<close>

theorem encode_with_buffer_equiv:
  assumes "wf_Message m"
  shows "EncodeWithBuffer m buf =
    (if length buf < 37 + length (msg_Data m)
     then (Inl (Errorf (''buffer too small, need at least '' @ show_nat (37 + length (msg_Data m)) @ '' bytes'')), buf)
     else (Encode m, enc_bytes m @ drop (37 + length (msg_Data m)) buf))"
proof (cases "length buf < 37 + length (msg_Data m)")
  case True
  then show ?thesis by (simp add: EncodeWithBuffer_def Let_def)
next
  case False
  then show ?thesis
    using assms by (simp add: EncodeWithBuffer_wire Encode_wire enc_bytes_def)
qed

theorem encode_with_buffer_equiv_witness:
  "EncodeWithBuffer sample_message (replicate 64 0) =
     (Encode sample_message, enc_bytes sample_message @ replicate 24 0)"
  using encode_with_buffer_equiv [OF sample_message_ok(1), of "replicate 64 0"]
  by (simp add: sample_message_ok)

text \<open>
  Messages sent back to back can be told apart: two sequences of encodable messages with the
  same concatenated encodings are the same sequence, so a receiver that honours the length field
  can split any stream of encoded messages in one way only.
\<close>

theorem message_stream_unambiguous:
  assumes "\<forall>m \<in> set ms. encodable m" and "\<forall>m \<in> set ms'. encodable m"
    and "concat (map enc_bytes ms) = concat (map enc_bytes ms')"
  shows "ms = ms'"
  by (rule mc.stream_inject [OF assms])

theorem message_stream_unambiguous_witness:
  "concat (map enc_bytes [sample_message, sample_message]) \<noteq> concat (map enc_bytes [sample_message])"
proof
  have "encodable sample_message" by (simp add: encodable_def sample_message_ok)
  moreover assume "concat (map enc_bytes [sample_message, sample_message]) =
    concat (map enc_bytes [sample_message])"
  ultimately show False
    using message_stream_unambiguous [of "[sample_message, sample_message]" "[sample_message]"] by simp
qed

end
