(* ===== verification/Transport_Base.thy ===== *)
theory Transport_Base
  imports Batch_Writer Messages
begin

text \<open>
  What the transport servers share: the state their handlers work on, the shape of a frame
  handler, the actions a server returns to its event loop, the ways its start can end, and
  the interfaces of the servers and of the handlers as locales. The properties of every
  server are proved here once; each server's theory interprets the locales on its own
  definitions.
\<close>

section \<open>The state the handlers work on\<close>

text \<open>
  All handlers of the program hold a pointer to the one database that \<open>FDB.Start\<close> retrieves,
  and the write handler of each transport one to a batch writer of its own. The database
  and the batch writers live in this record; a pointer to a writer is its index.
\<close>

record ('e, 't) hworld =
  w_db :: "('e, 't) Db"
  w_writers :: "BatchWriter list"

text \<open>\<^verbatim>\<open>wh.writer.BufferWrite(key, value)\<close> through a pointer.\<close>

definition writer_BufferWrite ::
    "nat \<Rightarrow> bytes \<Rightarrow> bytes \<Rightarrow> ('e, 't) hworld \<Rightarrow> ('e, 't) hworld go" where
  "writer_BufferWrite p key value w =
     go_bind (BufferWrite (w_writers w ! p) key value)
       (\<lambda>bw. Ret (w\<lparr>w_writers := (w_writers w)[p := bw]\<rparr>))"

text \<open>
  A frame handler: it is given the connection and the frame; what it does to the connection
  is the list of replies it sends there.
\<close>

type_synonym 'w frame_handler = "'w \<Rightarrow> bytes \<Rightarrow> ('w \<times> bytes list) go"

text \<open>The actions a server returns to its event loop.\<close>

datatype Action = ActNone | ActClose | ActShutdown

text \<open>
  What the \<open>select\<close> at the end of a server's \<open>Start\<close> takes first: the signal of the boot
  callback, an error of the event loop, its return without error, or the timeout.
\<close>

datatype start_outcome = Booted | RunFailed error | RunReturned | TimedOut

text \<open>One second, as a \<^verbatim>\<open>time.Duration\<close> in nanoseconds.\<close>

definition time_Second :: int where
  "time_Second = 1000000000"

text \<open>A callback that returns no bytes of its own passes on what the handler sent.\<close>

lemma relay_sent:
  "go_bind (go_bind m (\<lambda>(w, sent). Ret (w, sent, None, ActNone)))
     (\<lambda>(w, sent, out, action).
        Ret (w, (case out of None \<Rightarrow> sent | Some reply \<Rightarrow> sent @ [reply]), action)) =
   go_bind m (\<lambda>(w, rs). Ret (w, rs, ActNone))"
  by (cases m) auto

section \<open>Replies\<close>

abbreviation invalid_action :: bytes where
  "invalid_action \<equiv> bytes_of_string ''ERROR: Invalid action''"

abbreviation unknown_action :: bytes where
  "unknown_action \<equiv> bytes_of_string ''ERROR: Unknown action''"

abbreviation invalid_format :: bytes where
  "invalid_format \<equiv> bytes_of_string ''Invalid message format''"

abbreviation read_error :: bytes where
  "read_error \<equiv> bytes_of_string ''Error reading from database''"

abbreviation no_value :: bytes where
  "no_value \<equiv> bytes_of_string ''No value found for key''"

text \<open>The answer to a read of a key, as every read handler but the QUIC one gives it.\<close>

definition read_reply :: "('e, 't) Db \<Rightarrow> bytes \<Rightarrow> bytes" where
  "read_reply db key =
     (case Db_Get db key of
        (_, Some _) \<Rightarrow> read_error
      | (value, None) \<Rightarrow> if value = [] then no_value else value)"

lemma read_reply_stored:
  assumes "db_ok db" and "db_store db k = Some v" and "v \<noteq> []"
  shows "read_reply db k = v \<or> read_reply db k = read_error"
  by (rule Db_Get_cases [OF assms(1), of k]) (use assms(2,3) in \<open>auto simp: read_reply_def\<close>)

section \<open>Well-formed worlds\<close>

definition world_ok :: "('e, 't) hworld \<Rightarrow> bool" where
  "world_ok w \<longleftrightarrow> db_ok (w_db w) \<and> (\<forall>bw \<in> set (w_writers w). bw_inv bw)"

text \<open>The contents as the writer at a pointer represents them.\<close>

definition world_view :: "nat \<Rightarrow> ('e, 't) hworld \<Rightarrow> bytes \<rightharpoonup> bytes" where
  "world_view p w = bw_view (w_writers w ! p) (w_db w)"

lemma world_okD:
  "world_ok w \<Longrightarrow> db_ok (w_db w)"
  "world_ok w \<Longrightarrow> p < length (w_writers w) \<Longrightarrow> bw_inv (w_writers w ! p)"
  by (auto simp: world_ok_def)

lemma BufferWrite_not_panic: "bw_wf bw \<Longrightarrow> \<not> panics (BufferWrite bw k v)"
  by (auto simp: BufferWrite_def Let_def bw_wf_def)

lemma BufferWrite_inv:
  assumes "bw_inv bw" and "is_key k" and "BufferWrite bw k v = Ret bw'"
  shows "bw_inv bw'"
  using bw_inv_step [OF step_write [OF assms(2,3)]] assms(1) by simp

lemma writer_BufferWrite_cases:
  assumes "writer_BufferWrite p k v w = Ret w'"
  obtains bw' where "BufferWrite (w_writers w ! p) k v = Ret bw'"
    "w' = w\<lparr>w_writers := (w_writers w)[p := bw']\<rparr>"
  using assms by (auto simp: writer_BufferWrite_def go_bind_Ret_iff)

lemma writer_BufferWrite_not_panic:
  "world_ok w \<Longrightarrow> p < length (w_writers w) \<Longrightarrow> \<not> panics (writer_BufferWrite p k v w)"
  using BufferWrite_not_panic [of "w_writers w ! p" k v]
  by (cases "BufferWrite (w_writers w ! p) k v")
     (auto simp: writer_BufferWrite_def world_ok_def bw_inv_def)

lemma writer_BufferWrite_ok:
  assumes "world_ok w" and "p < length (w_writers w)" and "is_key k"
    and "writer_BufferWrite p k v w = Ret w'"
  shows "world_ok w'" and "w_db w' = w_db w" and "length (w_writers w') = length (w_writers w)"
    and "world_view p w' = (world_view p w)(k \<mapsto> v)"
    and "q \<noteq> p \<Longrightarrow> world_view q w' = world_view q w"
    and "bw_running (w_writers w' ! p) = bw_running (w_writers w ! p)"
proof -
  obtain bw' where bw': "BufferWrite (w_writers w ! p) k v = Ret bw'"
    and w': "w' = w\<lparr>w_writers := (w_writers w)[p := bw']\<rparr>"
    using writer_BufferWrite_cases [OF assms(4)] .
  have inv: "bw_inv (w_writers w ! p)" using world_okD(2) [OF assms(1,2)] .
  have inv': "bw_inv bw'" using BufferWrite_inv [OF inv assms(3) bw'] .
  show "world_ok w'"
    using assms(1) inv' set_update_subset_insert [of "w_writers w" p bw']
    by (auto simp: world_ok_def w')
  show "w_db w' = w_db w" "length (w_writers w') = length (w_writers w)" by (simp_all add: w')
  show "world_view p w' = (world_view p w)(k \<mapsto> v)"
    using view_write [OF _ bw', of "w_db w"] inv assms(2) by (simp add: world_view_def w' bw_inv_def)
  show "q \<noteq> p \<Longrightarrow> world_view q w' = world_view q w" by (simp add: world_view_def w')
  show "bw_running (w_writers w' ! p) = bw_running (w_writers w ! p)"
    using BufferWrite_Ret(1) [OF bw'] assms(2) by (simp add: w')
qed

section \<open>Interface: a server of frames\<close>

text \<open>
  A server answers every frame by its first byte: the handler registered for it is called
  with the whole frame; a frame with no action byte or an unknown one is answered by the
  server itself.
\<close>

definition is_action :: "byte \<Rightarrow> bool" where
  "is_action b \<longleftrightarrow> b = WriteHandlerType \<or> b = ReadHandlerType"

fun serve_frames ::
    "('w \<Rightarrow> bytes \<Rightarrow> ('w \<times> bytes list \<times> Action) go) \<Rightarrow> 'w \<Rightarrow> bytes list \<Rightarrow>
     ('w \<times> bytes list list) go" where
  "serve_frames srv w [] = Ret (w, [])"
| "serve_frames srv w (f # fs) =
     go_bind (srv w f) (\<lambda>(w, rs, _).
       go_bind (serve_frames srv w fs) (\<lambda>(w, rss). Ret (w, rs # rss)))"

locale frame_server =
  fixes serve :: "'s \<Rightarrow> 'w \<Rightarrow> bytes \<Rightarrow> ('w \<times> bytes list \<times> Action) go"
    and lookup :: "'s \<Rightarrow> HandlerType \<Rightarrow> 'w frame_handler option"
    and register :: "'s \<Rightarrow> HandlerType \<Rightarrow> 'w frame_handler \<Rightarrow> 's"
    and deregister :: "'s \<Rightarrow> HandlerType \<Rightarrow> 's"
  assumes serve_empty: "serve s w [] = Ret (w, [invalid_action], ActNone)"
    and serve_invalid: "\<not> is_action b \<Longrightarrow> serve s w (b # f) = Ret (w, [invalid_action], ActNone)"
    and serve_unknown: "is_action b \<Longrightarrow> lookup s b = None \<Longrightarrow>
      serve s w (b # f) = Ret (w, [unknown_action], ActNone)"
    and serve_handler: "is_action b \<Longrightarrow> lookup s b = Some h \<Longrightarrow>
      serve s w (b # f) = go_bind (h w (b # f)) (\<lambda>(w, rs). Ret (w, rs, ActNone))"
    and lookup_register: "lookup (register s a h) = (lookup s)(a \<mapsto> h)"
    and lookup_deregister: "lookup (deregister s a) = (lookup s)(a := None)"
begin

lemma serve_cases:
  assumes "serve s w f = Ret (w', rs, a)"
  obtains (rejected) "w' = w" "rs = [invalid_action] \<or> rs = [unknown_action]" "a = ActNone"
  | (handled) h where "f \<noteq> []" "is_action (hd f)" "lookup s (hd f) = Some h"
      "h w f = Ret (w', rs)" "a = ActNone"
proof (cases f)
  case Nil
  then show thesis using assms rejected by (simp add: serve_empty)
next
  case (Cons b g)
  consider "\<not> is_action b" | "is_action b" "lookup s b = None" |
    h where "is_action b" "lookup s b = Some h" by (cases "lookup s b") auto
  then show thesis
  proof cases
    case 1
    then show thesis using assms rejected by (simp add: Cons serve_invalid)
  next
    case 2
    then show thesis using assms rejected by (simp add: Cons serve_unknown)
  next
    case 3
    then have "h w f = Ret (w', rs) \<and> a = ActNone"
      using assms by (auto simp: Cons serve_handler go_bind_Ret_iff)
    then show thesis using handled 3 by (simp add: Cons)
  qed
qed

lemma serve_total:
  assumes "\<And>b h. lookup s b = Some h \<Longrightarrow> \<not> panics (h w f)"
  shows "\<not> panics (serve s w f)"
proof (cases f)
  case Nil
  then show ?thesis by (simp add: serve_empty)
next
  case (Cons b g)
  show ?thesis
  proof (cases "is_action b")
    case False
    then show ?thesis by (simp add: Cons serve_invalid)
  next
    case act: True
    show ?thesis
    proof (cases "lookup s b")
      case None
      then show ?thesis by (simp add: Cons serve_unknown act)
    next
      case (Some h)
      then show ?thesis
        using assms [OF Some] by (cases "h w f") (auto simp: Cons serve_handler act)
    qed
  qed
qed

lemma serve_one_reply:
  assumes "serve s w f = Ret (w', rs, a)"
    and "\<And>b h w f w' rs. lookup s b = Some h \<Longrightarrow> h w f = Ret (w', rs) \<Longrightarrow> length rs = 1"
  shows "length rs = 1 \<and> a = ActNone"
  using assms(1) by (rule serve_cases) (use assms(2) in auto)

lemma serve_frames_one_reply:
  assumes "\<And>b h w f w' rs. lookup s b = Some h \<Longrightarrow> h w f = Ret (w', rs) \<Longrightarrow> length rs = 1"
  shows "serve_frames (serve s) w fs = Ret (w', rss) \<Longrightarrow>
    length rss = length fs \<and> (\<forall>rs \<in> set rss. length rs = 1)"
proof (induction fs arbitrary: w rss)
  case (Cons f fs)
  then obtain w1 rs a rss1 where sv: "serve s w f = Ret (w1, rs, a)"
    and rest: "serve_frames (serve s) w1 fs = Ret (w', rss1)" and rss: "rss = rs # rss1"
    by (auto simp: go_bind_Ret_iff)
  show ?case using Cons.IH [OF rest] serve_one_reply [OF sv assms] by (simp add: rss)
qed simp

lemma deregistered_unknown:
  "is_action b \<Longrightarrow> serve (deregister s b) w (b # f) = Ret (w, [unknown_action], ActNone)"
  by (simp add: serve_unknown lookup_deregister)

lemma registered_called:
  "is_action b \<Longrightarrow> serve (register s b h) w (b # f) =
     go_bind (h w (b # f)) (\<lambda>(w, rs). Ret (w, rs, ActNone))"
  by (simp add: serve_handler lookup_register)

end

section \<open>Interface: the handlers of a key-value server\<close>

text \<open>
  A write handler, for a pointer to its writer, and a read handler: a frame that is too short
  is refused; otherwise bytes 1 to 32 are the key, a write takes all bytes from the 33rd on
  as the value and a read answers with the database's value.
\<close>

text \<open>The write and the read a frame asks for.\<close>

definition gnet_write :: "bytes \<Rightarrow> (bytes \<times> bytes) option" where
  "gnet_write f =
     (if 34 \<le> length f \<and> hd f = WriteHandlerType then Some (take 32 (drop 1 f), drop 33 f) else None)"

definition gnet_read :: "bytes \<Rightarrow> bytes option" where
  "gnet_read f = (if 33 \<le> length f \<and> hd f = ReadHandlerType then Some (take 32 (drop 1 f)) else None)"

locale kv_handlers =
  fixes wh :: "nat \<Rightarrow> ('e, 't) hworld frame_handler"
    and rh :: "('e, 't) hworld frame_handler"
  assumes wh_short: "length f < 34 \<Longrightarrow> wh p w f = Ret (w, [[1]])"
    and wh_long: "34 \<le> length f \<Longrightarrow> wh p w f =
      go_bind (writer_BufferWrite p (take 32 (drop 1 f)) (drop 33 f) w) (\<lambda>w. Ret (w, [[0]]))"
    and rh_short: "length f < 33 \<Longrightarrow> rh w f = Ret (w, [invalid_format])"
    and rh_long: "33 \<le> length f \<Longrightarrow> rh w f = Ret (w, [read_reply (w_db w) (take 32 (drop 1 f))])"
begin

lemma wh_one_reply: "wh p w f = Ret (w', rs) \<Longrightarrow> length rs = 1"
  by (cases "length f < 34") (auto simp: wh_short wh_long go_bind_Ret_iff)

lemma rh_one_reply: "rh w f = Ret (w', rs) \<Longrightarrow> length rs = 1 \<and> w' = w"
  by (cases "length f < 33") (auto simp: rh_short rh_long)

lemma wh_no_panic:
  assumes "world_ok w" and "p < length (w_writers w)"
  shows "\<not> panics (wh p w f)"
proof (cases "length f < 34")
  case True
  then show ?thesis by (simp add: wh_short)
next
  case False
  then show ?thesis
    using writer_BufferWrite_not_panic [OF assms, of "take 32 (drop 1 f)" "drop 33 f"]
    by (cases "writer_BufferWrite p (take 32 (drop 1 f)) (drop 33 f) w") (auto simp: wh_long)
qed

lemma rh_no_panic: "\<not> panics (rh w f)"
  by (cases "length f < 33") (auto simp: rh_short rh_long)

lemma wh_effect:
  assumes "world_ok w" and "p < length (w_writers w)" and "wh p w f = Ret (w', rs)"
  shows "world_ok w'" and "w_db w' = w_db w" and "length (w_writers w') = length (w_writers w)"
    and "rs = (if length f < 34 then [[1]] else [[0]])"
    and "world_view p w' = (if length f < 34 then world_view p w
           else (world_view p w)(take 32 (drop 1 f) \<mapsto> drop 33 f))"
proof -
  have "world_ok w' \<and> w_db w' = w_db w \<and> length (w_writers w') = length (w_writers w) \<and>
    rs = (if length f < 34 then [[1]] else [[0]]) \<and>
    world_view p w' = (if length f < 34 then world_view p w
           else (world_view p w)(take 32 (drop 1 f) \<mapsto> drop 33 f))"
  proof (cases "length f < 34")
    case True
    then show ?thesis using assms by (simp add: wh_short)
  next
    case False
    then have bw: "writer_BufferWrite p (take 32 (drop 1 f)) (drop 33 f) w = Ret w'" and "rs = [[0]]"
      using assms(3) by (auto simp: wh_long go_bind_Ret_iff)
    moreover have "is_key (take 32 (drop 1 f))" using False by (simp add: is_key_def)
    ultimately show ?thesis
      using writer_BufferWrite_ok [OF assms(1,2) _ bw] False by simp
  qed
  then show "world_ok w'" and "w_db w' = w_db w" and "length (w_writers w') = length (w_writers w)"
    and "rs = (if length f < 34 then [[1]] else [[0]])"
    and "world_view p w' = (if length f < 34 then world_view p w
           else (world_view p w)(take 32 (drop 1 f) \<mapsto> drop 33 f))" by simp_all
qed

end

section \<open>Interface: a key-value server\<close>

text \<open>A server of frames with the two handlers registered for the two action bytes.\<close>

locale kv_server = frame_server serve lookup register deregister + kv_handlers wh rh
  for serve :: "'s \<Rightarrow> ('e, 't) hworld \<Rightarrow> bytes \<Rightarrow> (('e, 't) hworld \<times> bytes list \<times> Action) go"
    and lookup and register and deregister
    and wh :: "nat \<Rightarrow> ('e, 't) hworld frame_handler" and rh
begin

lemma serve_write:
  assumes "lookup s WriteHandlerType = Some (wh p)" and "world_ok w" and "p < length (w_writers w)"
    and "serve s w (WriteHandlerType # f) = Ret (w', rs, a)"
  shows "wh p w (WriteHandlerType # f) = Ret (w', rs)"
  using assms(4) serve_handler [OF _ assms(1)] by (auto simp: is_action_def go_bind_Ret_iff)

lemma serve_read:
  assumes "lookup s ReadHandlerType = Some rh" and "32 \<le> length f"
  shows "serve s w (ReadHandlerType # f) = Ret (w, [read_reply (w_db w) (take 32 f)], ActNone)"
  using serve_handler [OF _ assms(1)] assms(2) by (simp add: is_action_def rh_long)

lemma serve_effect:
  assumes reg: "lookup s WriteHandlerType = Some (wh p)" "lookup s ReadHandlerType = Some rh"
    and sv: "serve s w f = Ret (w', rs, a)"
  shows "case gnet_write f of
      None \<Rightarrow> w' = w
    | Some (k, v) \<Rightarrow> is_key k \<and> writer_BufferWrite p k v w = Ret w' \<and> rs = [[0]]"
proof (cases "f \<noteq> [] \<and> hd f = WriteHandlerType")
  case True
  then obtain g where f: "f = WriteHandlerType # g" by (cases f) auto
  have "wh p w f = Ret (w', rs)"
    using sv serve_handler [OF _ reg(1)] by (auto simp: f is_action_def go_bind_Ret_iff)
  then show ?thesis
    using True by (cases "length f < 34")
      (auto simp: gnet_write_def wh_short wh_long is_key_def go_bind_Ret_iff)
next
  case False
  have "w' = w"
    using sv
  proof (rule serve_cases)
    fix h assume "is_action (hd f)" "lookup s (hd f) = Some h" "h w f = Ret (w', rs)" "f \<noteq> []"
    then show "w' = w" using False reg(2) rh_one_reply by (auto simp: is_action_def)
  qed
  then show ?thesis using False by (auto simp: gnet_write_def)
qed

lemma serve_gnet_write:
  assumes "lookup s WriteHandlerType = Some (wh p)" and "gnet_write f = Some (k, v)"
  shows "serve s w f = go_bind (writer_BufferWrite p k v w) (\<lambda>w. Ret (w, [[0]], ActNone))"
proof -
  obtain g where f: "f = WriteHandlerType # g" "34 \<le> length f"
    using assms(2) by (cases f) (auto simp: gnet_write_def split: if_splits)
  then have "k = take 32 (drop 1 f)" "v = drop 33 f" using assms(2) by (auto simp: gnet_write_def)
  then have "wh p w f = go_bind (writer_BufferWrite p k v w) (\<lambda>w. Ret (w, [[0]]))"
    using wh_long [OF f(2), of p w] by simp
  then show ?thesis
    using serve_handler [OF _ assms(1), of w g]
    by (cases "writer_BufferWrite p k v w") (simp_all add: f(1) is_action_def)
qed

lemma serve_gnet_read:
  assumes "lookup s ReadHandlerType = Some rh" and "gnet_read f = Some k"
  shows "serve s w f = Ret (w, [read_reply (w_db w) k], ActNone)"
  using assms serve_read [OF assms(1), of "tl f"]
  by (cases f) (auto simp: gnet_read_def split: if_splits)

lemma write_then_read:
  assumes reg: "lookup s WriteHandlerType = Some (wh p)" "lookup s ReadHandlerType = Some rh"
    and w: "world_ok w" "p < length (w_writers w)"
    and key: "length k = 32" and val: "v \<noteq> []"
    and wr: "serve s w (WriteHandlerType # k @ v) = Ret (w1, rs, a)"
    and run: "bw_run (w_writers w1 ! p, w_db w1) evs [] (bw2, db2)"
    and noW: "\<forall>v'. EWrite k v' \<notin> set evs" and q: "quiescent bw2"
  shows "rs = [[0]] \<and>
    serve s (w1\<lparr>w_db := db2, w_writers := (w_writers w1)[p := bw2]\<rparr>) (ReadHandlerType # k @ rest) \<in>
      (\<lambda>r. Ret (w1\<lparr>w_db := db2, w_writers := (w_writers w1)[p := bw2]\<rparr>, [r], ActNone)) ` {v, read_error}"
proof -
  let ?f = "WriteHandlerType # k @ v"
  have long: "\<not> length ?f < 34" using key val by (cases v) auto
  have h: "wh p w ?f = Ret (w1, rs)" using serve_write [OF reg(1) w wr] .
  note eff = wh_effect [OF w h]
  have view1: "world_view p w1 k = Some v" using eff(5) long key by simp
  have inv1: "bw_inv (w_writers w1 ! p)" "db_ok (w_db w1)"
    using world_okD(2) [OF eff(1), of p] world_okD(1) [OF eff(1)] eff(3) w(2) by auto
  have spec: "foldl spec_step m evs k = m k" for m
    using noW
  proof (induction evs arbitrary: m)
    case (Cons ev evs)
    have "spec_step m ev k = m k" using Cons.prems by (cases ev) auto
    then show ?case using Cons.IH [of "spec_step m ev"] Cons.prems by simp
  qed simp
  have "bw_view bw2 db2 k = Some v"
    using bw_run_refines [OF run] inv1 view1 spec by (simp add: world_view_def)
  moreover have "bw_wf bw2" using bw_run_inv [OF run] inv1 by (simp add: bw_inv_def)
  ultimately have "db_store db2 k = Some v" using quiescent_view [of bw2 db2] q by simp
  moreover have "db_ok db2" using bw_run_db_ok [OF run] inv1 by simp
  ultimately have "read_reply db2 k = v \<or> read_reply db2 k = read_error"
    using read_reply_stored val by blast
  then show ?thesis
    using eff(4) long serve_read [OF reg(2), of "k @ rest"] key by auto
qed

lemma serve_safe:
  assumes "\<forall>a h. lookup s a = Some h \<longrightarrow> h = wh p \<or> h = rh"
    and "world_ok w" and "p < length (w_writers w)"
  shows "\<not> panics (serve s w f)"
    and "serve s w f = Ret (w', rs, a) \<Longrightarrow>
      world_ok w' \<and> length (w_writers w') = length (w_writers w) \<and> length rs = 1 \<and> a = ActNone"
proof -
  show "\<not> panics (serve s w f)"
    by (rule serve_total) (use assms wh_no_panic rh_no_panic in blast)
next
  assume "serve s w f = Ret (w', rs, a)"
  then show "world_ok w' \<and> length (w_writers w') = length (w_writers w) \<and> length rs = 1 \<and> a = ActNone"
  proof (rule serve_cases)
    fix h assume h: "lookup s (hd f) = Some h" "h w f = Ret (w', rs)" and a: "a = ActNone"
    from assms(1) h(1) have "h = wh p \<or> h = rh" by blast
    then show ?thesis
    proof
      assume "h = wh p"
      then show ?thesis
        using h(2) a wh_effect(1,3) [OF assms(2,3)] wh_one_reply by blast
    next
      assume "h = rh"
      then show ?thesis using h(2) a rh_one_reply [of w f w' rs] assms(2) by simp
    qed
  qed (use assms(2) in auto)
qed

lemma serve_frames_safe:
  assumes only: "\<forall>a h. lookup s a = Some h \<longrightarrow> h = wh p \<or> h = rh"
  shows "world_ok w \<Longrightarrow> p < length (w_writers w) \<Longrightarrow> \<not> panics (serve_frames (serve s) w fs)"
proof (induction fs arbitrary: w)
  case (Cons f fs)
  show ?case
  proof (cases "serve s w f")
    case (Ret r)
    obtain w1 rs a where r: "r = (w1, rs, a)" by (cases r) auto
    have "world_ok w1 \<and> p < length (w_writers w1)"
      using serve_safe(2) [OF only Cons.prems] Ret Cons.prems(2) by (simp add: r)
    then have "\<not> panics (serve_frames (serve s) w1 fs)" using Cons.IH by blast
    then show ?thesis by (cases "serve_frames (serve s) w1 fs") (auto simp: Ret r)
  qed (use serve_safe(1) [OF only Cons.prems, of f] in auto)
qed simp

lemma serve_frames_replies:
  assumes "\<forall>a h. lookup s a = Some h \<longrightarrow> h = wh p \<or> h = rh"
    and "serve_frames (serve s) w fs = Ret (w', rss)"
  shows "length rss = length fs \<and> (\<forall>rs \<in> set rss. length rs = 1)"
  using assms(2) by (rule serve_frames_one_reply [rotated]) (use assms(1) wh_one_reply rh_one_reply in blast)

end

section \<open>Interface: stopping a server\<close>

text \<open>
  A server whose event loop polls a stop channel: \<open>Start\<close> makes a fresh channel, \<open>Stop\<close> closes
  it, and the next tick asks the event loop to shut down.
\<close>

locale ticking =
  fixes start :: "'s \<Rightarrow> start_outcome \<Rightarrow> (error option \<times> 's) go"
    and stop :: "'s \<Rightarrow> (error option \<times> 's) go"
    and tick :: "'s \<Rightarrow> int \<times> Action"
    and stop_chan :: "'s \<Rightarrow> sigchan"
  assumes start_fresh: "start s out = Ret (r, s') \<Longrightarrow> stop_chan s' = make_chan 0"
    and start_returns: "returns (start s out)"
    and stop_closes: "stop s = Ret (r, s') \<Longrightarrow>
      \<not> ch_closed (stop_chan s) \<and> stop_chan s' = (stop_chan s)\<lparr>ch_closed := True\<rparr>"
    and stop_open: "\<not> ch_closed (stop_chan s) \<Longrightarrow> returns (stop s)"
    and stop_closed: "ch_closed (stop_chan s) \<Longrightarrow> panics (stop s)"
    and tick_eq: "tick s = (if chan_recv_ready (stop_chan s) then (0, ActShutdown)
      else (time_Second, ActNone))"
begin

lemma lifecycle:
  assumes "start s out = Ret (r, s1)"
  shows "tick s1 = (time_Second, ActNone)"
    and "\<exists>r2 s2. stop s1 = Ret (r2, s2) \<and> tick s2 = (0, ActShutdown) \<and> panics (stop s2) \<and>
      (\<exists>r3 s3. start s2 out = Ret (r3, s3) \<and> tick s3 = (time_Second, ActNone))"
proof -
  have c1: "stop_chan s1 = make_chan 0" using start_fresh [OF assms] .
  show "tick s1 = (time_Second, ActNone)" by (simp add: tick_eq c1 chan_defs)
  obtain r2 s2 where s2: "stop s1 = Ret (r2, s2)"
    using stop_open [of s1] c1 by (auto simp: returns_iff make_chan_def)
  have c2: "ch_closed (stop_chan s2)" using stop_closes [OF s2] by simp
  obtain r3 s3 where s3: "start s2 out = Ret (r3, s3)"
    using start_returns [of s2 out] by (auto simp: returns_iff)
  show "\<exists>r2 s2. stop s1 = Ret (r2, s2) \<and> tick s2 = (0, ActShutdown) \<and> panics (stop s2) \<and>
      (\<exists>r3 s3. start s2 out = Ret (r3, s3) \<and> tick s3 = (time_Second, ActNone))"
    using s2 s3 c2 start_fresh [OF s3] stop_closed [OF c2]
    by (auto simp: tick_eq chan_defs)
qed

end

section \<open>A concrete world\<close>

abbreviation sample_world :: "(mem_store, mem_store) hworld" where
  "sample_world \<equiv> \<lparr>w_db = mem_db None [], w_writers = [sample_new]\<rparr>"

abbreviation sample_queued :: "bytes \<Rightarrow> BatchWriter" where
  "sample_queued v \<equiv> sample_bw [[], [\<lparr>req_Key = sample_key, req_Value = v\<rparr>]] [[], []] [True, True] False"

lemma sample_world_ok: "world_ok sample_world"
  using NewBatchWriter_inv [OF sample_NewBatchWriter] by (simp add: world_ok_def)

lemma sample_BufferWrite:
  "writer_BufferWrite 0 sample_key v sample_world =
     Ret \<lparr>w_db = mem_db None [], w_writers = [sample_queued v]\<rparr>"
  by (simp add: writer_BufferWrite_def BufferWrite_def Let_def sample_bw_def
      sample_workerID [unfolded sample_bw_def, simplified])

lemma sample_drain:
  "bw_run (sample_queued v, mem_db None []) [ERecv 1, ETick 1] []
     (sample_new, mem_db None [(sample_key, v)])"
  using bw_run_trans [OF bw_run_one [OF sample_step_tick] bw_run_one [OF sample_step_recv]] by simp

lemma sample_quiescent: "quiescent sample_new"
  by (auto simp: quiescent_def sample_bw_def numeral_eq_Suc less_Suc_eq)

end
