(* ===== verification/Tcp_Server.thy ===== *)
theory Tcp_Server
  imports Transport_Base
begin

text \<open>
  The TCP transport: \<^verbatim>\<open>src/transports/tcp/server.go\<close>, \<^verbatim>\<open>handler_write.go\<close> and \<^verbatim>\<open>handler_read.go\<close>.
\<close>

section \<open>Handlers\<close>

text \<open>
  The handler structs hold the database, which is the world's, and the write handler also a
  pointer to its batch writer.
\<close>

record TCPWriteHandler =
  tcp_wh_writer :: nat

definition NewTCPWriteHandler :: "nat \<Rightarrow> TCPWriteHandler" where
  "NewTCPWriteHandler batchWriter = \<lparr>tcp_wh_writer = batchWriter\<rparr>"

definition TCPWriteHandler_HandleMessage ::
    "TCPWriteHandler \<Rightarrow> ('e, 't) hworld \<Rightarrow> bytes \<Rightarrow> (('e, 't) hworld \<times> bytes list) go" where
  "TCPWriteHandler_HandleMessage wh w frame =
     (if length frame < 34 then Ret (w, [[0x01]])
      else
        go_bind (go_slice frame 1 33) (\<lambda>src.
          let key = go_copy 0 32 src (replicate 32 0)
          in go_bind (go_slice frame 33 (length frame)) (\<lambda>value.
               go_bind (writer_BufferWrite (tcp_wh_writer wh) key value w) (\<lambda>w.
                 Ret (w, [[0x00]])))))"

definition TCPReadHandler_HandleMessage ::
    "('e, 't) hworld \<Rightarrow> bytes \<Rightarrow> (('e, 't) hworld \<times> bytes list) go" where
  "TCPReadHandler_HandleMessage w frame =
     (if length frame < 33
      then Ret (w, [bytes_of_string ''Invalid message format''])
      else
        go_bind (go_slice frame 1 33) (\<lambda>key.
          case Db_Get (w_db w) key of
            (value, Some err) \<Rightarrow> Ret (w, [bytes_of_string ''Error reading from database''])
          | (value, None) \<Rightarrow>
              if length value = 0
              then Ret (w, [bytes_of_string ''No value found for key''])
              else Ret (w, [value])))"

section \<open>Server\<close>

text \<open>
  \<open>'g\<close> is the event loop's handle \<open>gnet.Engine\<close>; before \<open>OnBoot\<close> the field holds its zero value,
  here \<^term>\<open>None\<close>.
\<close>

record ('w, 'g) TcpServer =
  tcp_handlerRegistry :: "(HandlerType \<times> 'w frame_handler) list"
  tcp_cnf :: TcpTransport
  tcp_stopChan :: sigchan
  tcp_started :: sigchan
  tcp_eng :: "'g option"

definition Tcp_NewServer :: "TcpTransport \<Rightarrow> error + ('w, 'g) TcpServer" where
  "Tcp_NewServer cnf =
     Inr \<lparr>tcp_handlerRegistry = [], tcp_cnf = cnf, tcp_stopChan = make_chan 0,
          tcp_started = make_chan 0, tcp_eng = None\<rparr>"

definition Tcp_Addr :: "('w, 'g) TcpServer \<Rightarrow> string" where
  "Tcp_Addr s = TcpTransport_Addr (tcp_cnf s)"

definition Tcp_Start ::
    "('w, 'g) TcpServer \<Rightarrow> start_outcome \<Rightarrow> (error option \<times> ('w, 'g) TcpServer) go" where
  "Tcp_Start s outcome =
     (let s = s\<lparr>tcp_stopChan := make_chan 0, tcp_started := make_chan 0\<rparr>
      in case outcome of
           Booted \<Rightarrow>
             go_bind (chan_close (tcp_started s)) (\<lambda>c. Ret (None, s\<lparr>tcp_started := c\<rparr>))
         | RunFailed err \<Rightarrow> Ret (Some (Wrapped ''failed to start TCP server'' err), s)
         | RunReturned \<Rightarrow> Ret (None, s)
         | TimedOut \<Rightarrow> Ret (Some (Errorf ''TCP server did not start in time''), s))"

text \<open>
  \<open>OnBoot\<close> stores the engine and signals on \<open>started\<close>; \<open>waiting\<close> says whether \<open>Start\<close> is still at
  its \<open>select\<close>, ready to receive.
\<close>

definition Tcp_OnBoot ::
    "bool \<Rightarrow> ('w, 'g) TcpServer \<Rightarrow> 'g \<Rightarrow> (('w, 'g) TcpServer \<times> Action) go" where
  "Tcp_OnBoot waiting s eng =
     (let s = s\<lparr>tcp_eng := Some eng\<rparr>
      in if waiting \<and> \<not> ch_closed (tcp_started s) then Ret (s, ActNone)
         else go_bind (chan_send (tcp_started s)) (\<lambda>c. Ret (s\<lparr>tcp_started := c\<rparr>, ActNone)))"

definition Tcp_OnOpen :: "bytes option \<times> Action" where
  "Tcp_OnOpen = (None, ActNone)"

definition Tcp_OnClose :: "error option \<Rightarrow> Action" where
  "Tcp_OnClose err = ActNone"

definition Tcp_OnTick :: "('w, 'g) TcpServer \<Rightarrow> int \<times> Action" where
  "Tcp_OnTick s =
     (if chan_recv_ready (tcp_stopChan s) then (0, ActShutdown) else (time_Second, ActNone))"

text \<open>\<open>Stop\<close> goes through the engine, whose \<open>Stop\<close> is a parameter.\<close>

definition Tcp_Stop :: "('g option \<Rightarrow> error option go) \<Rightarrow> ('w, 'g) TcpServer \<Rightarrow> error option go" where
  "Tcp_Stop Engine_Stop s =
     go_bind (Engine_Stop (tcp_eng s)) (\<lambda>r.
       case r of Some err \<Rightarrow> Ret (Some err) | None \<Rightarrow> Ret None)"

definition Tcp_WaitStarted :: "('w, 'g) TcpServer \<Rightarrow> sigchan" where
  "Tcp_WaitStarted s = tcp_started s"

definition Tcp_parseActionType :: "bytes \<Rightarrow> HandlerType \<times> error option" where
  "Tcp_parseActionType frame =
     (if length frame < 1 then (0, Some (Errorf ''invalid action: frame too short''))
      else case FromByte 0 (frame ! 0) of
             (Some err, _) \<Rightarrow> (0, Some err)
           | (None, actionType) \<Rightarrow> (actionType, None))"

text \<open>
  \<open>OnTraffic\<close>: what \<^verbatim>\<open>c.Next(-1)\<close> yields (all buffered bytes of the connection, or an error) is
  the input. The handler's and the server's replies are queued on the connection.
\<close>

definition Tcp_OnTraffic ::
    "('w, 'g) TcpServer \<Rightarrow> 'w \<Rightarrow> error + bytes \<Rightarrow> ('w \<times> bytes list \<times> Action) go" where
  "Tcp_OnTraffic s w next =
     (case next of
        Inl err \<Rightarrow> Ret (w, [], ActClose)
      | Inr frame \<Rightarrow>
         (if length frame < 1
          then Ret (w, [bytes_of_string ''ERROR: Invalid action''], ActNone)
          else case Tcp_parseActionType frame of
            (_, Some err) \<Rightarrow> Ret (w, [bytes_of_string ''ERROR: Invalid action''], ActNone)
          | (actionType, None) \<Rightarrow>
             (case map_of (tcp_handlerRegistry s) actionType of
                None \<Rightarrow> Ret (w, [bytes_of_string ''ERROR: Unknown action''], ActNone)
              | Some handler \<Rightarrow>
                  go_bind (handler w frame) (\<lambda>(w, sent). Ret (w, sent, ActNone)))))"

abbreviation Tcp_serve ::
    "('w, 'g) TcpServer \<Rightarrow> 'w \<Rightarrow> bytes \<Rightarrow> ('w \<times> bytes list \<times> Action) go" where
  "Tcp_serve s w frame \<equiv> Tcp_OnTraffic s w (Inr frame)"

definition Tcp_RegisterHandler :: "('w, 'g) TcpServer \<Rightarrow> HandlerType \<Rightarrow> 'w frame_handler \<Rightarrow> ('w, 'g) TcpServer" where
  "Tcp_RegisterHandler s actionType handler =
     s\<lparr>tcp_handlerRegistry := AList.update actionType handler (tcp_handlerRegistry s)\<rparr>"

definition Tcp_DeregisterHandler :: "('w, 'g) TcpServer \<Rightarrow> HandlerType \<Rightarrow> ('w, 'g) TcpServer" where
  "Tcp_DeregisterHandler s actionType =
     s\<lparr>tcp_handlerRegistry := AList.delete actionType (tcp_handlerRegistry s)\<rparr>"

text \<open>The handler registered for an action, as the servers look it up.\<close>

definition Tcp_handler :: "('w, 'g) TcpServer \<Rightarrow> HandlerType \<Rightarrow> 'w frame_handler option" where
  "Tcp_handler s actionType = map_of (tcp_handlerRegistry s) actionType"

section \<open>The server satisfies the interfaces\<close>

lemma Tcp_parseActionType_Cons:
  "Tcp_parseActionType (b # f) = (if is_action b then (b, None)
     else (0, Some (Errorf (''invalid action byte: '' @ show_nat (unat b)))))"
  by (auto simp: Tcp_parseActionType_def FromByte_def is_action_def go_simps)

interpretation tcp: frame_server "\<lambda>s w frame. Tcp_OnTraffic s w (Inr frame)" Tcp_handler Tcp_RegisterHandler Tcp_DeregisterHandler
  by unfold_locales
     (auto simp: Tcp_OnTraffic_def Tcp_parseActionType_Cons Tcp_handler_def
        Tcp_RegisterHandler_def Tcp_DeregisterHandler_def delete_conv' fun_eq_iff)

lemma TCP_copy_key: "34 \<le> length f \<Longrightarrow>
    go_copy 0 32 (take 32 (drop (Suc 0) f)) (replicate 32 0) = take 32 (drop (Suc 0) f)"
  by (simp add: go_copy_full)

interpretation tcph: kv_handlers
  "\<lambda>p. TCPWriteHandler_HandleMessage (NewTCPWriteHandler p)" TCPReadHandler_HandleMessage
  by unfold_locales
     (auto simp: TCPWriteHandler_HandleMessage_def TCPReadHandler_HandleMessage_def
        NewTCPWriteHandler_def read_reply_def go_slice_def TCP_copy_key Let_def
        split: prod.splits option.splits)

interpretation tcpkv: kv_server "\<lambda>s w frame. Tcp_OnTraffic s w (Inr frame)" Tcp_handler Tcp_RegisterHandler Tcp_DeregisterHandler
  "\<lambda>p. TCPWriteHandler_HandleMessage (NewTCPWriteHandler p)" TCPReadHandler_HandleMessage ..

section \<open>Properties\<close>

text \<open>A server with its two handlers registered, as the registry sets it up.\<close>

definition sample_tcp :: "((mem_store, mem_store) hworld, unit) TcpServer" where
  "sample_tcp = Tcp_RegisterHandler
     (Tcp_RegisterHandler \<lparr>tcp_handlerRegistry = [], tcp_cnf = zero_Tcp, tcp_stopChan = make_chan 0,
          tcp_started = make_chan 0, tcp_eng = None\<rparr>
        WriteHandlerType (TCPWriteHandler_HandleMessage (NewTCPWriteHandler 0)))
     ReadHandlerType TCPReadHandler_HandleMessage"

lemma sample_tcp_handler:
  "Tcp_handler sample_tcp = [WriteHandlerType \<mapsto> TCPWriteHandler_HandleMessage (NewTCPWriteHandler 0),
     ReadHandlerType \<mapsto> TCPReadHandler_HandleMessage]"
  by (simp add: sample_tcp_def tcp.lookup_register, simp add: Tcp_handler_def fun_eq_iff)

lemma sample_tcp_writes:
  assumes "v \<noteq> []"
  shows "Tcp_OnTraffic sample_tcp sample_world (Inr (WriteHandlerType # sample_key @ v)) =
     Ret (\<lparr>w_db = mem_db None [], w_writers = [sample_queued v]\<rparr>, [[0]], ActNone)"
proof -
  have "Tcp_handler sample_tcp WriteHandlerType =
      Some (TCPWriteHandler_HandleMessage (NewTCPWriteHandler 0))"
    by (simp add: sample_tcp_handler go_simps)
  moreover have "34 \<le> length (WriteHandlerType # sample_key @ v)" using assms by (cases v) simp_all
  ultimately show ?thesis
    using tcp.serve_handler [of WriteHandlerType sample_tcp _ sample_world "sample_key @ v"]
      tcph.wh_long [of "WriteHandlerType # sample_key @ v" 0 sample_world]
    by (simp add: is_action_def sample_BufferWrite)
qed

lemma sample_tcp_write:
  "Tcp_OnTraffic sample_tcp sample_world (Inr (WriteHandlerType # sample_key @ [9])) =
     Ret (\<lparr>w_db = mem_db None [], w_writers = [sample_queued [9]]\<rparr>, [[0]], ActNone)"
  by (rule sample_tcp_writes) simp



text \<open>
  C26. Whatever frames TCP clients send, a server with only the two handlers registered does not
  panic, and as long as no write has to wait each frame is answered with exactly one reply, in
  order.
\<close>

theorem tcp_one_reply_per_frame:
  assumes "\<forall>act h. Tcp_handler s act = Some h \<longrightarrow>
      h = TCPWriteHandler_HandleMessage (NewTCPWriteHandler p) \<or> h = TCPReadHandler_HandleMessage"
    and "world_ok w" and "p < length (w_writers w)"
  shows "\<not> panics (serve_frames (\<lambda>w f. Tcp_OnTraffic s w (Inr f)) w fs) \<and>
    (\<forall>w' rss. serve_frames (\<lambda>w f. Tcp_OnTraffic s w (Inr f)) w fs = Ret (w', rss) \<longrightarrow>
       length rss = length fs \<and> (\<forall>rs \<in> set rss. length rs = 1))"
  using tcpkv.serve_frames_safe [OF assms] tcpkv.serve_frames_replies [OF assms(1)] by blast

theorem tcp_one_reply_per_frame_witness:
  "\<not> panics (serve_frames (\<lambda>w f. Tcp_OnTraffic sample_tcp w (Inr f)) sample_world [[], [0x52], [0x41, 0x42]])"
proof -
  have only: "\<forall>act h. Tcp_handler sample_tcp act = Some h \<longrightarrow>
      h = TCPWriteHandler_HandleMessage (NewTCPWriteHandler 0) \<or> h = TCPReadHandler_HandleMessage"
    by (auto simp: sample_tcp_handler split: if_splits)
  show ?thesis using tcp_one_reply_per_frame [OF only sample_world_ok, of "[[], [0x52], [0x41, 0x42]]"]
    by (simp del: serve_frames.simps)
qed

end
