(* ===== verification/Udp_Server.thy ===== *)
theory Udp_Server
  imports Transport_Base
begin

text \<open>
  The UDP transport: \<^verbatim>\<open>src/transports/udp/server.go\<close>, \<^verbatim>\<open>handler_write.go\<close> and \<^verbatim>\<open>handler_read.go\<close>.
\<close>

section \<open>Handlers\<close>

text \<open>
  The handler structs hold the database, which is the world's, and the write handler also a
  pointer to its batch writer.
\<close>

record UDPWriteHandler =
  udp_wh_writer :: nat

definition NewUDPWriteHandler :: "nat \<Rightarrow> UDPWriteHandler" where
  "NewUDPWriteHandler batchWriter = \<lparr>udp_wh_writer = batchWriter\<rparr>"

definition UDPWriteHandler_HandleMessage ::
    "UDPWriteHandler \<Rightarrow> ('e, 't) hworld \<Rightarrow> bytes \<Rightarrow> (('e, 't) hworld \<times> bytes list) go" where
  "UDPWriteHandler_HandleMessage wh w frame =
     (if length frame < 34 then Ret (w, [[0x01]])
      else
        go_bind (go_slice frame 1 33) (\<lambda>src.
          let key = go_copy 0 32 src (replicate 32 0)
          in go_bind (go_slice frame 33 (length frame)) (\<lambda>value.
               go_bind (writer_BufferWrite (udp_wh_writer wh) key value w) (\<lambda>w.
                 Ret (w, [[0x00]])))))"

definition UDPReadHandler_HandleMessage ::
    "('e, 't) hworld \<Rightarrow> bytes \<Rightarrow> (('e, 't) hworld \<times> bytes list) go" where
  "UDPReadHandler_HandleMessage w frame =
     (if length frame < 33
      then Ret (w, [bytes_of_string ''Invalid message format''])
      else
        go_bind (go_slice frame 1 33) (\<lambda>key.
          case Db_Get (w_db w) key of
            (value, Some err) \<Rightarrow> Ret (w, [bytes_of_string ''Error reading from database''])
          | (value, None) \<Rightarrow>
              if length value = 0
              then Ret (w, [bytes_of_string ''No value found for key''])
              else Ret (w, [value])))"

section \<open>Server\<close>

record 'w UdpServer =
  udp_handlerRegistry :: "(HandlerType \<times> 'w frame_handler) list"
  udp_cnf :: UdpTransport
  udp_stopChan :: sigchan
  udp_started :: sigchan

definition Udp_NewServer :: "UdpTransport \<Rightarrow> error + 'w UdpServer" where
  "Udp_NewServer cnf =
     Inr \<lparr>udp_handlerRegistry = [], udp_cnf = cnf, udp_stopChan = make_chan 0,
          udp_started = make_chan 0\<rparr>"

definition Udp_Addr :: "'w UdpServer \<Rightarrow> string" where
  "Udp_Addr s = UdpTransport_Addr (udp_cnf s)"

text \<open>
  \<open>Start\<close>. The event loop runs in a goroutine of its own; the outcome says which case the
  final \<open>select\<close> takes.
\<close>

definition Udp_Start :: "'w UdpServer \<Rightarrow> start_outcome \<Rightarrow> (error option \<times> 'w UdpServer) go" where
  "Udp_Start s outcome =
     (let s = s\<lparr>udp_stopChan := make_chan 0, udp_started := make_chan 0\<rparr>
      in case outcome of
           Booted \<Rightarrow>
             go_bind (chan_close (udp_started s)) (\<lambda>c. Ret (None, s\<lparr>udp_started := c\<rparr>))
         | RunFailed err \<Rightarrow> Ret (Some (Wrapped ''failed to start UDP server'' err), s)
         | RunReturned \<Rightarrow> Ret (None, s)
         | TimedOut \<Rightarrow> Ret (Some (Errorf ''UDP server did not start in time''), s))"

definition Udp_Tick :: "'w UdpServer \<Rightarrow> int \<times> Action" where
  "Udp_Tick s =
     (if chan_recv_ready (udp_stopChan s) then (0, ActShutdown) else (time_Second, ActNone))"

definition Udp_Stop :: "'w UdpServer \<Rightarrow> (error option \<times> 'w UdpServer) go" where
  "Udp_Stop s =
     go_bind (chan_close (udp_stopChan s)) (\<lambda>c. Ret (None, s\<lparr>udp_stopChan := c\<rparr>))"

definition Udp_WaitStarted :: "'w UdpServer \<Rightarrow> sigchan" where
  "Udp_WaitStarted s = udp_started s"

text \<open>
  \<open>OnInitComplete\<close> signals on the channel \<open>started\<close>; \<open>waiting\<close> says whether \<open>Start\<close> is still at its
  \<open>select\<close>, ready to receive.
\<close>

definition Udp_OnInitComplete :: "bool \<Rightarrow> 'w UdpServer \<Rightarrow> ('w UdpServer \<times> Action) go" where
  "Udp_OnInitComplete waiting s =
     (if waiting \<and> \<not> ch_closed (udp_started s) then Ret (s, ActNone)
      else go_bind (chan_send (udp_started s)) (\<lambda>c. Ret (s\<lparr>udp_started := c\<rparr>, ActNone)))"

definition Udp_parseActionType :: "bytes \<Rightarrow> HandlerType \<times> error option" where
  "Udp_parseActionType frame =
     (if length frame < 1 then (0, Some (Errorf ''invalid action: frame too short''))
      else case FromByte 0 (frame ! 0) of
             (Some err, _) \<Rightarrow> (0, Some err)
           | (None, actionType) \<Rightarrow> (actionType, None))"

definition Udp_React ::
    "'w UdpServer \<Rightarrow> 'w \<Rightarrow> bytes \<Rightarrow> ('w \<times> bytes list \<times> bytes option \<times> Action) go" where
  "Udp_React s w frame =
     (if length frame < 1
      then Ret (w, [], Some (bytes_of_string ''ERROR: Invalid action''), ActNone)
      else case Udp_parseActionType frame of
        (_, Some err) \<Rightarrow> Ret (w, [], Some (bytes_of_string ''ERROR: Invalid action''), ActNone)
      | (actionType, None) \<Rightarrow>
         (case map_of (udp_handlerRegistry s) actionType of
            None \<Rightarrow> Ret (w, [], Some (bytes_of_string ''ERROR: Unknown action''), ActNone)
          | Some handler \<Rightarrow>
              go_bind (handler w frame) (\<lambda>(w, sent). Ret (w, sent, None, ActNone))))"

text \<open>
  One call of \<open>React\<close> by the event loop: the bytes it returns, if any, are sent after what the
  handler sent itself.
\<close>

definition Udp_serve ::
    "'w UdpServer \<Rightarrow> 'w \<Rightarrow> bytes \<Rightarrow> ('w \<times> bytes list \<times> Action) go" where
  "Udp_serve s w frame =
     go_bind (Udp_React s w frame) (\<lambda>(w, sent, out, action).
       Ret (w, (case out of None \<Rightarrow> sent | Some reply \<Rightarrow> sent @ [reply]), action))"

definition Udp_RegisterHandler :: "'w UdpServer \<Rightarrow> HandlerType \<Rightarrow> 'w frame_handler \<Rightarrow> 'w UdpServer" where
  "Udp_RegisterHandler s actionType handler =
     s\<lparr>udp_handlerRegistry := AList.update actionType handler (udp_handlerRegistry s)\<rparr>"

definition Udp_DeregisterHandler :: "'w UdpServer \<Rightarrow> HandlerType \<Rightarrow> 'w UdpServer" where
  "Udp_DeregisterHandler s actionType =
     s\<lparr>udp_handlerRegistry := AList.delete actionType (udp_handlerRegistry s)\<rparr>"

text \<open>The handler registered for an action, as the servers look it up.\<close>

definition Udp_handler :: "'w UdpServer \<Rightarrow> HandlerType \<Rightarrow> 'w frame_handler option" where
  "Udp_handler s actionType = map_of (udp_handlerRegistry s) actionType"

section \<open>The server satisfies the interfaces\<close>

lemma Udp_parseActionType_Cons:
  "Udp_parseActionType (b # f) = (if is_action b then (b, None)
     else (0, Some (Errorf (''invalid action byte: '' @ show_nat (unat b)))))"
  by (auto simp: Udp_parseActionType_def FromByte_def is_action_def go_simps)

interpretation udp: frame_server Udp_serve Udp_handler Udp_RegisterHandler Udp_DeregisterHandler
  by unfold_locales
     (auto simp: Udp_serve_def Udp_React_def Udp_parseActionType_Cons Udp_handler_def
        Udp_RegisterHandler_def Udp_DeregisterHandler_def delete_conv' fun_eq_iff
        relay_sent)

interpretation udpt: ticking Udp_Start "Udp_Stop" Udp_Tick udp_stopChan
  by unfold_locales
     (auto simp: Udp_Start_def Udp_Stop_def Udp_Tick_def Let_def chan_close_def make_chan_def
        split: start_outcome.splits if_splits option.splits)

lemma UDP_copy_key: "34 \<le> length f \<Longrightarrow>
    go_copy 0 32 (take 32 (drop (Suc 0) f)) (replicate 32 0) = take 32 (drop (Suc 0) f)"
  by (simp add: go_copy_full)

interpretation udph: kv_handlers
  "\<lambda>p. UDPWriteHandler_HandleMessage (NewUDPWriteHandler p)" UDPReadHandler_HandleMessage
  by unfold_locales
     (auto simp: UDPWriteHandler_HandleMessage_def UDPReadHandler_HandleMessage_def
        NewUDPWriteHandler_def read_reply_def go_slice_def UDP_copy_key Let_def
        split: prod.splits option.splits)

interpretation udpkv: kv_server Udp_serve Udp_handler Udp_RegisterHandler Udp_DeregisterHandler
  "\<lambda>p. UDPWriteHandler_HandleMessage (NewUDPWriteHandler p)" UDPReadHandler_HandleMessage ..

section \<open>Properties\<close>

text \<open>A server with its two handlers registered, as the registry sets it up.\<close>

definition sample_udp :: "(mem_store, mem_store) hworld UdpServer" where
  "sample_udp = Udp_RegisterHandler
     (Udp_RegisterHandler \<lparr>udp_handlerRegistry = [], udp_cnf = zero_Udp, udp_stopChan = make_chan 0,
          udp_started = make_chan 0\<rparr>
        WriteHandlerType (UDPWriteHandler_HandleMessage (NewUDPWriteHandler 0)))
     ReadHandlerType UDPReadHandler_HandleMessage"

lemma sample_udp_handler:
  "Udp_handler sample_udp = [WriteHandlerType \<mapsto> UDPWriteHandler_HandleMessage (NewUDPWriteHandler 0),
     ReadHandlerType \<mapsto> UDPReadHandler_HandleMessage]"
  by (simp add: sample_udp_def udp.lookup_register, simp add: Udp_handler_def fun_eq_iff)

lemma sample_udp_write:
  "Udp_serve sample_udp sample_world (WriteHandlerType # sample_key @ [9]) =
     Ret (\<lparr>w_db = mem_db None [], w_writers = [sample_queued [9]]\<rparr>, [[0]], ActNone)"
proof -
  have "Udp_handler sample_udp WriteHandlerType =
      Some (UDPWriteHandler_HandleMessage (NewUDPWriteHandler 0))"
    by (simp add: sample_udp_handler go_simps)
  from udp.serve_handler [OF _ this, of sample_world "sample_key @ [9]"] show ?thesis
    using udph.wh_long [of "WriteHandlerType # sample_key @ [9]" 0 sample_world]
    by (simp add: is_action_def sample_BufferWrite)
qed

text \<open>
  UDP end to end: when a write frame for a 32-byte key with a value is answered, the answer
  is the success byte; once the workers have emptied the writer without an error and without
  accepting another write of that key, a read frame for the key is answered with exactly that
  value, or with the engine's error message.
\<close>

theorem udp_write_then_read:
  assumes "Udp_handler s WriteHandlerType = Some (UDPWriteHandler_HandleMessage (NewUDPWriteHandler p))"
    and "Udp_handler s ReadHandlerType = Some UDPReadHandler_HandleMessage"
    and "world_ok w" and "p < length (w_writers w)" and "length k = 32" and "v \<noteq> []"
    and "Udp_serve s w (WriteHandlerType # k @ v) = Ret (w1, rs, a)"
    and "bw_run (w_writers w1 ! p, w_db w1) evs [] (bw2, db2)"
    and "\<forall>v'. EWrite k v' \<notin> set evs" and "quiescent bw2"
  shows "rs = [[0]] \<and>
    Udp_serve s (w1\<lparr>w_db := db2, w_writers := (w_writers w1)[p := bw2]\<rparr>) (ReadHandlerType # k @ rest) \<in>
      (\<lambda>r. Ret (w1\<lparr>w_db := db2, w_writers := (w_writers w1)[p := bw2]\<rparr>, [r], ActNone)) ` {v, read_error}"
  by (rule udpkv.write_then_read [OF assms])

theorem udp_write_then_read_witness:
  "Udp_serve sample_udp \<lparr>w_db = mem_db None [(sample_key, [9])], w_writers = [sample_new]\<rparr>
     (ReadHandlerType # sample_key) \<in>
   (\<lambda>r. Ret (\<lparr>w_db = mem_db None [(sample_key, [9])], w_writers = [sample_new]\<rparr>, [r], ActNone)) `
     {[9], read_error}"
  using udp_write_then_read [of sample_udp 0 sample_world sample_key "[9]"
      "\<lparr>w_db = mem_db None [], w_writers = [sample_queued [9]]\<rparr>" "[[0]]" ActNone "[ERecv 1, ETick 1]"
      sample_new "mem_db None [(sample_key, [9])]" "[]"]
    sample_world_ok sample_udp_write sample_drain [of "[9]"] sample_quiescent
  by (simp add: sample_udp_handler go_simps)

text \<open>
  Whatever frames UDP clients send, a server with only the two handlers registered does not
  panic, and as long as no write has to wait each frame is answered with exactly one reply, in
  order.
\<close>

theorem udp_one_reply_per_frame:
  assumes "\<forall>act h. Udp_handler s act = Some h \<longrightarrow>
      h = UDPWriteHandler_HandleMessage (NewUDPWriteHandler p) \<or> h = UDPReadHandler_HandleMessage"
    and "world_ok w" and "p < length (w_writers w)"
  shows "\<not> panics (serve_frames (Udp_serve s) w fs) \<and>
    (\<forall>w' rss. serve_frames (Udp_serve s) w fs = Ret (w', rss) \<longrightarrow>
       length rss = length fs \<and> (\<forall>rs \<in> set rss. length rs = 1))"
  using udpkv.serve_frames_safe [OF assms] udpkv.serve_frames_replies [OF assms(1)] by blast

theorem udp_one_reply_per_frame_witness:
  "\<not> panics (serve_frames (Udp_serve sample_udp) sample_world [[], [0x52], [0x41, 0x42]])"
proof -
  have only: "\<forall>act h. Udp_handler sample_udp act = Some h \<longrightarrow>
      h = UDPWriteHandler_HandleMessage (NewUDPWriteHandler 0) \<or> h = UDPReadHandler_HandleMessage"
    by (auto simp: sample_udp_handler split: if_splits)
  show ?thesis using udp_one_reply_per_frame [OF only sample_world_ok, of "[[], [0x52], [0x41, 0x42]]"]
    by (simp del: serve_frames.simps)
qed

end
