(* ===== verification/Uds_Server.thy ===== *)
theory Uds_Server
  imports Transport_Base
begin

text \<open>
  The Unix domain socket transport: \<^verbatim>\<open>src/transports/uds/server.go\<close>, \<^verbatim>\<open>handler_write.go\<close> and
  \<^verbatim>\<open>handler_read.go\<close>.
\<close>

section \<open>Handlers\<close>

text \<open>
  The handler structs hold the database, which is the world's, and the write handler also a
  pointer to its batch writer.
\<close>

record UDSWriteHandler =
  uds_wh_writer :: nat

definition NewUDSWriteHandler :: "nat \<Rightarrow> UDSWriteHandler" where
  "NewUDSWriteHandler batchWriter = \<lparr>uds_wh_writer = batchWriter\<rparr>"

definition UDSWriteHandler_HandleMessage ::
    "UDSWriteHandler \<Rightarrow> ('e, 't) hworld \<Rightarrow> bytes \<Rightarrow> (('e, 't) hworld \<times> bytes list) go" where
  "UDSWriteHandler_HandleMessage wh w frame =
     (if length frame < 34 then Ret (w, [[0x01]])
      else
        go_bind (go_slice frame 1 33) (\<lambda>src.
          let key = go_copy 0 32 src (replicate 32 0)
          in go_bind (go_slice frame 33 (length frame)) (\<lambda>value.
               go_bind (writer_BufferWrite (uds_wh_writer wh) key value w) (\<lambda>w.
                 Ret (w, [[0x00]])))))"

definition UDSReadHandler_HandleMessage ::
    "('e, 't) hworld \<Rightarrow> bytes \<Rightarrow> (('e, 't) hworld \<times> bytes list) go" where
  "UDSReadHandler_HandleMessage w frame =
     (if length frame < 33
      then Ret (w, [bytes_of_string ''Invalid message format''])
      else
        go_bind (go_slice frame 1 33) (\<lambda>key.
          case Db_Get (w_db w) key of
            (value, Some err) \<Rightarrow> Ret (w, [bytes_of_string ''Error reading from database''])
          | (value, None) \<Rightarrow>
              if length value = 0
              then Ret (w, [bytes_of_string ''No value found for key''])
              else Ret (w, [value])))"

section \<open>Server\<close>

record 'w UdsServer =
  uds_handlerRegistry :: "(HandlerType \<times> 'w frame_handler) list"
  uds_cnf :: UdsTransport
  uds_stopChan :: sigchan
  uds_started :: sigchan

text \<open>
  \<open>NewServer\<close> removes a left-over socket file; \<open>exists\<close> says whether \<^verbatim>\<open>os.Stat\<close> succeeds on a
  path, and \<open>Remove\<close> is what \<^verbatim>\<open>os.Remove\<close> answers.
\<close>

definition Uds_NewServer ::
    "(string \<Rightarrow> bool) \<Rightarrow> (string \<Rightarrow> error option) \<Rightarrow> UdsTransport \<Rightarrow> error + 'w UdsServer" where
  "Uds_NewServer exists Remove cnf =
     (case (if exists (uds_Socket cnf) then Remove (uds_Socket cnf) else None) of
        Some rmErr \<Rightarrow> Inl (Wrapped ''failed to remove existing UDS socket file'' rmErr)
      | None \<Rightarrow>
          Inr \<lparr>uds_handlerRegistry = [], uds_cnf = cnf, uds_stopChan = make_chan 0,
               uds_started = make_chan 0\<rparr>)"

definition Uds_Addr :: "'w UdsServer \<Rightarrow> string" where
  "Uds_Addr s = UdsTransport_Addr (uds_cnf s)"

text \<open>
  \<open>Start\<close>. The event loop runs in a goroutine of its own; the outcome says which case the
  final \<open>select\<close> takes.
\<close>

definition Uds_Start :: "'w UdsServer \<Rightarrow> start_outcome \<Rightarrow> (error option \<times> 'w UdsServer) go" where
  "Uds_Start s outcome =
     (let s = s\<lparr>uds_stopChan := make_chan 0, uds_started := make_chan 0\<rparr>
      in case outcome of
           Booted \<Rightarrow>
             go_bind (chan_close (uds_started s)) (\<lambda>c. Ret (None, s\<lparr>uds_started := c\<rparr>))
         | RunFailed err \<Rightarrow> Ret (Some (Wrapped ''failed to start UDS server'' err), s)
         | RunReturned \<Rightarrow> Ret (None, s)
         | TimedOut \<Rightarrow> Ret (Some (Errorf ''UDS server did not start in time''), s))"

definition Uds_Tick :: "'w UdsServer \<Rightarrow> int \<times> Action" where
  "Uds_Tick s =
     (if chan_recv_ready (uds_stopChan s) then (0, ActShutdown) else (time_Second, ActNone))"

definition Uds_Stop ::
    "(string \<Rightarrow> error option) \<Rightarrow> 'w UdsServer \<Rightarrow> (error option \<times> 'w UdsServer) go" where
  "Uds_Stop Remove s =
     go_bind (chan_close (uds_stopChan s)) (\<lambda>c.
       let s = s\<lparr>uds_stopChan := c\<rparr>
       in case Remove (Uds_Addr s) of
            Some err \<Rightarrow> Ret (Some err, s)
          | None \<Rightarrow> Ret (None, s))"

definition Uds_WaitStarted :: "'w UdsServer \<Rightarrow> sigchan" where
  "Uds_WaitStarted s = uds_started s"

text \<open>
  \<open>OnInitComplete\<close> signals on the channel \<open>started\<close>; \<open>waiting\<close> says whether \<open>Start\<close> is still at its
  \<open>select\<close>, ready to receive.
\<close>

definition Uds_OnInitComplete :: "bool \<Rightarrow> 'w UdsServer \<Rightarrow> ('w UdsServer \<times> Action) go" where
  "Uds_OnInitComplete waiting s =
     (if waiting \<and> \<not> ch_closed (uds_started s) then Ret (s, ActNone)
      else go_bind (chan_send (uds_started s)) (\<lambda>c. Ret (s\<lparr>uds_started := c\<rparr>, ActNone)))"

definition Uds_parseActionType :: "bytes \<Rightarrow> HandlerType \<times> error option" where
  "Uds_parseActionType frame =
     (if length frame < 1 then (0, Some (Errorf ''invalid action: frame too short''))
      else case FromByte 0 (frame ! 0) of
             (Some err, _) \<Rightarrow> (0, Some err)
           | (None, actionType) \<Rightarrow> (actionType, None))"

definition Uds_React ::
    "'w UdsServer \<Rightarrow> 'w \<Rightarrow> bytes \<Rightarrow> ('w \<times> bytes list \<times> bytes option \<times> Action) go" where
  "Uds_React s w frame =
     (if length frame < 1
      then Ret (w, [], Some (bytes_of_string ''ERROR: Invalid action''), ActNone)
      else case Uds_parseActionType frame of
        (_, Some err) \<Rightarrow> Ret (w, [], Some (bytes_of_string ''ERROR: Invalid action''), ActNone)
      | (actionType, None) \<Rightarrow>
         (case map_of (uds_handlerRegistry s) actionType of
            None \<Rightarrow> Ret (w, [], Some (bytes_of_string ''ERROR: Unknown action''), ActNone)
          | Some handler \<Rightarrow>
              go_bind (handler w frame) (\<lambda>(w, sent). Ret (w, sent, None, ActNone))))"

text \<open>
  One call of \<open>React\<close> by the event loop: the bytes it returns, if any, are sent after what the
  handler sent itself.
\<close>

definition Uds_serve ::
    "'w UdsServer \<Rightarrow> 'w \<Rightarrow> bytes \<Rightarrow> ('w \<times> bytes list \<times> Action) go" where
  "Uds_serve s w frame =
     go_bind (Uds_React s w frame) (\<lambda>(w, sent, out, action).
       Ret (w, (case out of None \<Rightarrow> sent | Some reply \<Rightarrow> sent @ [reply]), action))"

definition Uds_RegisterHandler :: "'w UdsServer \<Rightarrow> HandlerType \<Rightarrow> 'w frame_handler \<Rightarrow> 'w UdsServer" where
  "Uds_RegisterHandler s actionType handler =
     s\<lparr>uds_handlerRegistry := AList.update actionType handler (uds_handlerRegistry s)\<rparr>"

definition Uds_DeregisterHandler :: "'w UdsServer \<Rightarrow> HandlerType \<Rightarrow> 'w UdsServer" where
  "Uds_DeregisterHandler s actionType =
     s\<lparr>uds_handlerRegistry := AList.delete actionType (uds_handlerRegistry s)\<rparr>"

text \<open>The handler registered for an action, as the servers look it up.\<close>

definition Uds_handler :: "'w UdsServer \<Rightarrow> HandlerType \<Rightarrow> 'w frame_handler option" where
  "Uds_handler s actionType = map_of (uds_handlerRegistry s) actionType"

section \<open>The server satisfies the interfaces\<close>

lemma Uds_parseActionType_Cons:
  "Uds_parseActionType (b # f) = (if is_action b then (b, None)
     else (0, Some (Errorf (''invalid action byte: '' @ show_nat (unat b)))))"
  by (auto simp: Uds_parseActionType_def FromByte_def is_action_def go_simps)

interpretation uds: frame_server Uds_serve Uds_handler Uds_RegisterHandler Uds_DeregisterHandler
  by unfold_locales
     (auto simp: Uds_serve_def Uds_React_def Uds_parseActionType_Cons Uds_handler_def
        Uds_RegisterHandler_def Uds_DeregisterHandler_def delete_conv' fun_eq_iff
        relay_sent)

interpretation udst: ticking Uds_Start "Uds_Stop Remove" Uds_Tick uds_stopChan
  by unfold_locales
     (auto simp: Uds_Start_def Uds_Stop_def Uds_Tick_def Let_def chan_close_def make_chan_def
        split: start_outcome.splits if_splits option.splits)

lemma UDS_copy_key: "34 \<le> length f \<Longrightarrow>
    go_copy 0 32 (take 32 (drop (Suc 0) f)) (replicate 32 0) = take 32 (drop (Suc 0) f)"
  by (simp add: go_copy_full)

interpretation udsh: kv_handlers
  "\<lambda>p. UDSWriteHandler_HandleMessage (NewUDSWriteHandler p)" UDSReadHandler_HandleMessage
  by unfold_locales
     (auto simp: UDSWriteHandler_HandleMessage_def UDSReadHandler_HandleMessage_def
        NewUDSWriteHandler_def read_reply_def go_slice_def UDS_copy_key Let_def
        split: prod.splits option.splits)

interpretation udskv: kv_server Uds_serve Uds_handler Uds_RegisterHandler Uds_DeregisterHandler
  "\<lambda>p. UDSWriteHandler_HandleMessage (NewUDSWriteHandler p)" UDSReadHandler_HandleMessage ..

section \<open>Properties\<close>

text \<open>A server with its two handlers registered, as the registry sets it up.\<close>

definition sample_uds :: "(mem_store, mem_store) hworld UdsServer" where
  "sample_uds = Uds_RegisterHandler
     (Uds_RegisterHandler \<lparr>uds_handlerRegistry = [], uds_cnf = zero_Uds, uds_stopChan = make_chan 0,
          uds_started = make_chan 0\<rparr>
        WriteHandlerType (UDSWriteHandler_HandleMessage (NewUDSWriteHandler 0)))
     ReadHandlerType UDSReadHandler_HandleMessage"

lemma sample_uds_handler:
  "Uds_handler sample_uds = [WriteHandlerType \<mapsto> UDSWriteHandler_HandleMessage (NewUDSWriteHandler 0),
     ReadHandlerType \<mapsto> UDSReadHandler_HandleMessage]"
  by (simp add: sample_uds_def uds.lookup_register, simp add: Uds_handler_def fun_eq_iff)

lemma sample_uds_write:
  "Uds_serve sample_uds sample_world (WriteHandlerType # sample_key @ [9]) =
     Ret (\<lparr>w_db = mem_db None [], w_writers = [sample_queued [9]]\<rparr>, [[0]], ActNone)"
proof -
  have "Uds_handler sample_uds WriteHandlerType =
      Some (UDSWriteHandler_HandleMessage (NewUDSWriteHandler 0))"
    by (simp add: sample_uds_handler go_simps)
  from uds.serve_handler [OF _ this, of sample_world "sample_key @ [9]"] show ?thesis
    using udsh.wh_long [of "WriteHandlerType # sample_key @ [9]" 0 sample_world]
    by (simp add: is_action_def sample_BufferWrite)
qed

text \<open>
  Unix socket end to end: when a write frame for a 32-byte key with a value is answered, the answer
  is the success byte; once the workers have emptied the writer without an error and without
  accepting another write of that key, a read frame for the key is answered with exactly that
  value, or with the engine's error message.
\<close>

theorem uds_write_then_read:
  assumes "Uds_handler s WriteHandlerType = Some (UDSWriteHandler_HandleMessage (NewUDSWriteHandler p))"
    and "Uds_handler s ReadHandlerType = Some UDSReadHandler_HandleMessage"
    and "world_ok w" and "p < length (w_writers w)" and "length k = 32" and "v \<noteq> []"
    and "Uds_serve s w (WriteHandlerType # k @ v) = Ret (w1, rs, a)"
    and "bw_run (w_writers w1 ! p, w_db w1) evs [] (bw2, db2)"
    and "\<forall>v'. EWrite k v' \<notin> set evs" and "quiescent bw2"
  shows "rs = [[0]] \<and>
    Uds_serve s (w1\<lparr>w_db := db2, w_writers := (w_writers w1)[p := bw2]\<rparr>) (ReadHandlerType # k @ rest) \<in>
      (\<lambda>r. Ret (w1\<lparr>w_db := db2, w_writers := (w_writers w1)[p := bw2]\<rparr>, [r], ActNone)) ` {v, read_error}"
  by (rule udskv.write_then_read [OF assms])

theorem uds_write_then_read_witness:
  "Uds_serve sample_uds \<lparr>w_db = mem_db None [(sample_key, [9])], w_writers = [sample_new]\<rparr>
     (ReadHandlerType # sample_key) \<in>
   (\<lambda>r. Ret (\<lparr>w_db = mem_db None [(sample_key, [9])], w_writers = [sample_new]\<rparr>, [r], ActNone)) `
     {[9], read_error}"
  using uds_write_then_read [of sample_uds 0 sample_world sample_key "[9]"
      "\<lparr>w_db = mem_db None [], w_writers = [sample_queued [9]]\<rparr>" "[[0]]" ActNone "[ERecv 1, ETick 1]"
      sample_new "mem_db None [(sample_key, [9])]" "[]"]
    sample_world_ok sample_uds_write sample_drain [of "[9]"] sample_quiescent
  by (simp add: sample_uds_handler go_simps)

text \<open>
  Whatever frames Unix socket clients send, a server with only the two handlers registered does not
  panic, and as long as no write has to wait each frame is answered with exactly one reply, in
  order.
\<close>

theorem uds_one_reply_per_frame:
  assumes "\<forall>act h. Uds_handler s act = Some h \<longrightarrow>
      h = UDSWriteHandler_HandleMessage (NewUDSWriteHandler p) \<or> h = UDSReadHandler_HandleMessage"
    and "world_ok w" and "p < length (w_writers w)"
  shows "\<not> panics (serve_frames (Uds_serve s) w fs) \<and>
    (\<forall>w' rss. serve_frames (Uds_serve s) w fs = Ret (w', rss) \<longrightarrow>
       length rss = length fs \<and> (\<forall>rs \<in> set rss. length rs = 1))"
  using udskv.serve_frames_safe [OF assms] udskv.serve_frames_replies [OF assms(1)] by blast

theorem uds_one_reply_per_frame_witness:
  "\<not> panics (serve_frames (Uds_serve sample_uds) sample_world [[], [0x52], [0x41, 0x42]])"
proof -
  have only: "\<forall>act h. Uds_handler sample_uds act = Some h \<longrightarrow>
      h = UDSWriteHandler_HandleMessage (NewUDSWriteHandler 0) \<or> h = UDSReadHandler_HandleMessage"
    by (auto simp: sample_uds_handler split: if_splits)
  show ?thesis using uds_one_reply_per_frame [OF only sample_world_ok, of "[[], [0x52], [0x41, 0x42]]"]
    by (simp del: serve_frames.simps)
qed

text \<open>
  Life cycle of the Unix socket server: after a start the ticks keep the event loop running;
  \<open>Stop\<close> returns, and even when the socket file cannot be removed the next tick shuts the event
  loop down; stopping again panics, and a new start makes the server run again.
\<close>

theorem uds_lifecycle:
  assumes "Uds_Start s out = Ret (r, s1)"
  shows "Uds_Tick s1 = (time_Second, ActNone) \<and>
    (\<exists>r2 s2. Uds_Stop Remove s1 = Ret (r2, s2) \<and> r2 = Remove (Uds_Addr s1) \<and>
      Uds_Tick s2 = (0, ActShutdown) \<and> panics (Uds_Stop Remove s2) \<and>
      (\<exists>r3 s3. Uds_Start s2 out = Ret (r3, s3) \<and> Uds_Tick s3 = (time_Second, ActNone)))"
proof -
  obtain r2 s2 where s2: "Uds_Stop Remove s1 = Ret (r2, s2)" "Uds_Tick s2 = (0, ActShutdown)"
    "panics (Uds_Stop Remove s2)"
    "\<exists>r3 s3. Uds_Start s2 out = Ret (r3, s3) \<and> Uds_Tick s3 = (time_Second, ActNone)"
    using udst.lifecycle(2) [OF assms] by blast
  have "r2 = Remove (Uds_Addr s1)"
    using s2(1) by (auto simp: Uds_Stop_def Uds_Addr_def go_bind_Ret_iff Let_def split: option.splits)
  then show ?thesis using s2 udst.lifecycle(1) [OF assms] by blast
qed

theorem uds_lifecycle_witness:
  "\<exists>s1. Uds_Start sample_uds Booted = Ret (None, s1) \<and> Uds_Tick s1 = (time_Second, ActNone)"
proof -
  obtain s1 where "Uds_Start sample_uds Booted = Ret (None, s1)"
    by (simp add: Uds_Start_def Let_def chan_defs)
  then show ?thesis using uds_lifecycle by blast
qed

text \<open>
  \<open>NewServer\<close> fails exactly when the socket file exists and cannot be removed.
\<close>

theorem uds_new_server_fails_iff:
  "(\<exists>err. Uds_NewServer exists Remove cnf = Inl err) \<longleftrightarrow>
     exists (uds_Socket cnf) \<and> Remove (uds_Socket cnf) \<noteq> None"
  by (auto simp: Uds_NewServer_def split: option.splits)

end
