(* ===== verification/Dummy_Server.thy ===== *)
theory Dummy_Server
  imports Transport_Base
begin

text \<open>
  The dummy transport: \<^verbatim>\<open>src/transports/dummy/server.go\<close>, \<^verbatim>\<open>handler_write.go\<close> and
  \<^verbatim>\<open>handler_read.go\<close>. Unlike the other servers its channel \<open>started\<close> is buffered.
\<close>

section \<open>Handlers\<close>

text \<open>The dummy handlers answer every frame with the same byte and touch no state.\<close>

definition DummyWriteHandler_HandleMessage :: "'w \<Rightarrow> bytes \<Rightarrow> ('w \<times> bytes list) go" where
  "DummyWriteHandler_HandleMessage w frame = Ret (w, [[1]])"

definition DummyReadHandler_HandleMessage :: "'w \<Rightarrow> bytes \<Rightarrow> ('w \<times> bytes list) go" where
  "DummyReadHandler_HandleMessage w frame = Ret (w, [[1]])"

section \<open>Server\<close>

record 'w DummyServer =
  dummy_handlerRegistry :: "(HandlerType \<times> 'w frame_handler) list"
  dummy_cnf :: DummyTransport
  dummy_stopChan :: sigchan
  dummy_started :: sigchan

definition NewDummyServer :: "DummyTransport \<Rightarrow> error + 'w DummyServer" where
  "NewDummyServer cnf =
     Inr \<lparr>dummy_handlerRegistry = [], dummy_cnf = cnf, dummy_stopChan = make_chan 0,
          dummy_started = make_chan 0\<rparr>"

definition Dummy_Addr :: "'w DummyServer \<Rightarrow> string" where
  "Dummy_Addr s = DummyTransport_Addr (dummy_cnf s)"

text \<open>
  \<open>Start\<close>. The event loop runs in a goroutine of its own; the outcome says which case the
  final \<open>select\<close> takes.
\<close>

definition Dummy_Start :: "'w DummyServer \<Rightarrow> start_outcome \<Rightarrow> (error option \<times> 'w DummyServer) go" where
  "Dummy_Start s outcome =
     (let s = s\<lparr>dummy_stopChan := make_chan 0, dummy_started := make_chan 1\<rparr>
      in case outcome of
           Booted \<Rightarrow>
             go_bind (chan_close (dummy_started s)) (\<lambda>c. Ret (None, s\<lparr>dummy_started := c\<rparr>))
         | RunFailed err \<Rightarrow> Ret (Some (Wrapped ''failed to start dummy server'' err), s)
         | RunReturned \<Rightarrow> Ret (None, s)
         | TimedOut \<Rightarrow> Ret (Some (Errorf ''dummy server did not start in time''), s))"

definition Dummy_Tick :: "'w DummyServer \<Rightarrow> int \<times> Action" where
  "Dummy_Tick s =
     (if chan_recv_ready (dummy_stopChan s) then (0, ActShutdown) else (time_Second, ActNone))"

definition Dummy_Stop :: "'w DummyServer \<Rightarrow> (error option \<times> 'w DummyServer) go" where
  "Dummy_Stop s =
     go_bind (chan_close (dummy_stopChan s)) (\<lambda>c. Ret (None, s\<lparr>dummy_stopChan := c\<rparr>))"

definition Dummy_WaitStarted :: "'w DummyServer \<Rightarrow> sigchan" where
  "Dummy_WaitStarted s = dummy_started s"

text \<open>
  \<open>OnInitComplete\<close> signals on the channel \<open>started\<close>; \<open>waiting\<close> says whether \<open>Start\<close> is still at its
  \<open>select\<close>, ready to receive.
\<close>

definition Dummy_OnInitComplete :: "bool \<Rightarrow> 'w DummyServer \<Rightarrow> ('w DummyServer \<times> Action) go" where
  "Dummy_OnInitComplete waiting s =
     (if waiting \<and> \<not> ch_closed (dummy_started s) then Ret (s, ActNone)
      else go_bind (chan_send (dummy_started s)) (\<lambda>c. Ret (s\<lparr>dummy_started := c\<rparr>, ActNone)))"

definition Dummy_parseActionType :: "bytes \<Rightarrow> HandlerType \<times> error option" where
  "Dummy_parseActionType frame =
     (if length frame < 1 then (0, Some (Errorf ''invalid action: frame too short''))
      else case FromByte 0 (frame ! 0) of
             (Some err, _) \<Rightarrow> (0, Some err)
           | (None, actionType) \<Rightarrow> (actionType, None))"

definition Dummy_React ::
    "'w DummyServer \<Rightarrow> 'w \<Rightarrow> bytes \<Rightarrow> ('w \<times> bytes list \<times> bytes option \<times> Action) go" where
  "Dummy_React s w frame =
     (if length frame < 1
      then Ret (w, [], Some (bytes_of_string ''ERROR: Invalid action''), ActNone)
      else case Dummy_parseActionType frame of
        (_, Some err) \<Rightarrow> Ret (w, [], Some (bytes_of_string ''ERROR: Invalid action''), ActNone)
      | (actionType, None) \<Rightarrow>
         (case map_of (dummy_handlerRegistry s) actionType of
            None \<Rightarrow> Ret (w, [], Some (bytes_of_string ''ERROR: Unknown action''), ActNone)
          | Some handler \<Rightarrow>
              go_bind (handler w frame) (\<lambda>(w, sent). Ret (w, sent, None, ActNone))))"

text \<open>
  One call of \<open>React\<close> by the event loop: the bytes it returns, if any, are sent after what the
  handler sent itself.
\<close>

definition Dummy_serve ::
    "'w DummyServer \<Rightarrow> 'w \<Rightarrow> bytes \<Rightarrow> ('w \<times> bytes list \<times> Action) go" where
  "Dummy_serve s w frame =
     go_bind (Dummy_React s w frame) (\<lambda>(w, sent, out, action).
       Ret (w, (case out of None \<Rightarrow> sent | Some reply \<Rightarrow> sent @ [reply]), action))"

definition Dummy_RegisterHandler :: "'w DummyServer \<Rightarrow> HandlerType \<Rightarrow> 'w frame_handler \<Rightarrow> 'w DummyServer" where
  "Dummy_RegisterHandler s actionType handler =
     s\<lparr>dummy_handlerRegistry := AList.update actionType handler (dummy_handlerRegistry s)\<rparr>"

definition Dummy_DeregisterHandler :: "'w DummyServer \<Rightarrow> HandlerType \<Rightarrow> 'w DummyServer" where
  "Dummy_DeregisterHandler s actionType =
     s\<lparr>dummy_handlerRegistry := AList.delete actionType (dummy_handlerRegistry s)\<rparr>"

text \<open>The handler registered for an action, as the servers look it up.\<close>

definition Dummy_handler :: "'w DummyServer \<Rightarrow> HandlerType \<Rightarrow> 'w frame_handler option" where
  "Dummy_handler s actionType = map_of (dummy_handlerRegistry s) actionType"

section \<open>The server satisfies the interfaces\<close>

lemma Dummy_parseActionType_Cons:
  "Dummy_parseActionType (b # f) = (if is_action b then (b, None)
     else (0, Some (Errorf (''invalid action byte: '' @ show_nat (unat b)))))"
  by (auto simp: Dummy_parseActionType_def FromByte_def is_action_def go_simps)

interpretation dmy: frame_server Dummy_serve Dummy_handler Dummy_RegisterHandler Dummy_DeregisterHandler
  by unfold_locales
     (auto simp: Dummy_serve_def Dummy_React_def Dummy_parseActionType_Cons Dummy_handler_def
        Dummy_RegisterHandler_def Dummy_DeregisterHandler_def delete_conv' fun_eq_iff
        relay_sent)

interpretation dmyt: ticking Dummy_Start "Dummy_Stop" Dummy_Tick dummy_stopChan
  by unfold_locales
     (auto simp: Dummy_Start_def Dummy_Stop_def Dummy_Tick_def Let_def chan_close_def make_chan_def
        split: start_outcome.splits if_splits option.splits)

section \<open>Properties\<close>

text \<open>
  The dummy server never touches the state: with its handlers registered, or none, every
  frame is answered with exactly one reply and the world stays as it is.
\<close>

theorem dummy_stateless:
  assumes "\<forall>act h. Dummy_handler s act = Some h \<longrightarrow>
      h = DummyWriteHandler_HandleMessage \<or> h = DummyReadHandler_HandleMessage"
  shows "\<exists>reply. Dummy_serve s w f = Ret (w, [reply], ActNone) \<and>
    reply \<in> {invalid_action, unknown_action, [1]}"
proof (cases f)
  case Nil
  then show ?thesis by (simp add: dmy.serve_empty)
next
  case (Cons b g)
  consider "\<not> is_action b" | "is_action b" "Dummy_handler s b = None" |
    h where "is_action b" "Dummy_handler s b = Some h" by (cases "Dummy_handler s b") auto
  then show ?thesis
  proof cases
    case (3 h)
    with assms have "h = DummyWriteHandler_HandleMessage \<or> h = DummyReadHandler_HandleMessage" by blast
    then have "h w f = Ret (w, [[1]])"
      by (rule disjE)
         (simp_all add: DummyWriteHandler_HandleMessage_def DummyReadHandler_HandleMessage_def)
    then show ?thesis using dmy.serve_handler [OF 3] by (simp add: Cons)
  qed (simp_all add: Cons dmy.serve_invalid dmy.serve_unknown)
qed

theorem dummy_stateless_witness:
  "\<exists>reply. Dummy_serve (Dummy_RegisterHandler
       \<lparr>dummy_handlerRegistry = [], dummy_cnf = zero_Dummy, dummy_stopChan = make_chan 0,
        dummy_started = make_chan 0\<rparr> WriteHandlerType DummyWriteHandler_HandleMessage)
     () [0x57] = Ret ((), [reply], ActNone) \<and> reply \<in> {invalid_action, unknown_action, [1]}"
  by (rule dummy_stateless) (simp add: dmy.lookup_register, simp add: Dummy_handler_def)

end
