(* ===== verification/Quic_Server.thy ===== *)
theory Quic_Server
  imports Transport_Base
begin

text \<open>
  The QUIC transport: \<^verbatim>\<open>src/transports/quic/server.go\<close>, \<^verbatim>\<open>handler_write.go\<close> and \<^verbatim>\<open>handler_read.go\<close>.
  The QUIC library is a parameter: what its listener, connections and streams answer is an
  input of the loops.
\<close>

section \<open>Streams\<close>

text \<open>
  The sending side of a stream: the results the coming calls of \<open>Write\<close> have (nil when the list
  is used up) and the data of the calls that succeeded.
\<close>

record stream =
  st_results :: "error option list"
  st_out :: "bytes list"

definition stream_Write :: "stream \<Rightarrow> bytes \<Rightarrow> error option \<times> stream" where
  "stream_Write st data =
     (case st_results st of
        [] \<Rightarrow> (None, st\<lparr>st_out := st_out st @ [data]\<rparr>)
      | None # rs \<Rightarrow> (None, st\<lparr>st_results := rs, st_out := st_out st @ [data]\<rparr>)
      | Some err # rs \<Rightarrow> (Some err, st\<lparr>st_results := rs\<rparr>))"

type_synonym 'w quic_handler = "'w \<Rightarrow> stream \<Rightarrow> Message \<Rightarrow> ('w \<times> stream) go"

section \<open>Handlers\<close>

record QuicWriteHandler =
  quic_wh_writer :: nat

definition NewQuicWriteHandler :: "nat \<Rightarrow> QuicWriteHandler" where
  "NewQuicWriteHandler batchWriter = \<lparr>quic_wh_writer = batchWriter\<rparr>"

definition QuicWriteHandler_HandleMessage ::
    "QuicWriteHandler \<Rightarrow> ('e, 't) hworld \<Rightarrow> stream \<Rightarrow> Message \<Rightarrow> (('e, 't) hworld \<times> stream) go" where
  "QuicWriteHandler_HandleMessage wh w stream message =
     go_bind (writer_BufferWrite (quic_wh_writer wh) (msg_Key message) (msg_Data message) w) (\<lambda>w.
       case stream_Write stream [0x00] of (_, stream) \<Rightarrow> Ret (w, stream))"

text \<open>The read handler frames its answer with the length as a \<^verbatim>\<open>uint32\<close>.\<close>

definition QuicReadHandler_HandleMessage ::
    "('e, 't) hworld \<Rightarrow> stream \<Rightarrow> Message \<Rightarrow> (('e, 't) hworld \<times> stream) go" where
  "QuicReadHandler_HandleMessage w stream message =
     (case Db_Get (w_db w) (msg_Key message) of
        (value, Some err) \<Rightarrow>
          (case stream_Write stream (bytes_of_string ''Error reading from database'') of
             (_, stream) \<Rightarrow> Ret (w, stream))
      | (value, None) \<Rightarrow>
          if length value = 0
          then (case stream_Write stream (bytes_of_string ''No value found for key'') of
                  (_, stream) \<Rightarrow> Ret (w, stream))
          else
            let lengthBuffer = PutUint32 (word_of_nat (length value))
            in case stream_Write stream lengthBuffer of
                 (Some err, stream) \<Rightarrow> Ret (w, stream)
               | (None, stream) \<Rightarrow>
                   (case stream_Write stream value of (_, stream) \<Rightarrow> Ret (w, stream)))"

section \<open>Server\<close>

text \<open>
  \<open>'c\<close> are the certificates, \<open>'l\<close> is the listener behind the pointer, which is nil before
  \<open>Start\<close>; \<open>quic_wg\<close> is the counter of the wait group.
\<close>

record ('w, 'c, 'l) QuicServer =
  quic_handlerRegistry :: "(HandlerType \<times> 'w quic_handler) list"
  quic_cnf :: QuicTransport
  quic_tlsConfig :: "'c tls_Config"
  quic_stopChan :: sigchan
  quic_started :: sigchan
  quic_wg :: int
  quic_listener :: "'l option"

definition Quic_NewServer ::
    "'c tls_env \<Rightarrow> QuicTransport \<Rightarrow> error + ('w, 'c, 'l) QuicServer" where
  "Quic_NewServer env cnf =
     (case QuicTransport_GetTLSConfig env cnf of
        Inl tcErr \<Rightarrow> Inl (Wrapped ''could not get TLS config for quic transport'' tcErr)
      | Inr tlsConfig \<Rightarrow>
          Inr \<lparr>quic_handlerRegistry = [], quic_cnf = cnf, quic_tlsConfig = tlsConfig,
               quic_stopChan = make_chan 0, quic_started = make_chan 0, quic_wg = 0,
               quic_listener = None\<rparr>)"

definition Quic_Addr :: "('w, 'c, 'l) QuicServer \<Rightarrow> string" where
  "Quic_Addr s = QuicTransport_Addr (quic_cnf s)"

text \<open>\<open>Start\<close>, with \<^verbatim>\<open>quic.ListenAddr\<close> as a parameter; a failed call assigns a nil listener.\<close>

definition Quic_Start ::
    "(string \<Rightarrow> 'c tls_Config \<Rightarrow> error + 'l) \<Rightarrow> ('w, 'c, 'l) QuicServer \<Rightarrow>
     (error option \<times> ('w, 'c, 'l) QuicServer) go" where
  "Quic_Start ListenAddr s =
     (case ListenAddr (Quic_Addr s) (quic_tlsConfig s) of
        Inl err \<Rightarrow> Ret (Some (Wrapped ''failed to start QUIC server'' err), s\<lparr>quic_listener := None\<rparr>)
      | Inr l \<Rightarrow>
          (let s = s\<lparr>quic_listener := Some l\<rparr>
           in go_bind (chan_close (quic_started s)) (\<lambda>c.
                Ret (None, s\<lparr>quic_started := c, quic_wg := quic_wg s + 1\<rparr>))))"

definition isClosedNetworkConnectionError :: "error option \<Rightarrow> bool" where
  "isClosedNetworkConnectionError err =
     (case err of
        None \<Rightarrow> False
      | Some err \<Rightarrow>
          strings_Contains (Error_text err) ''use of closed network connection'' \<or>
          strings_Contains (Error_text err) ''server closed'')"

text \<open>The library's application error with code 0, found by \<^verbatim>\<open>errors.As\<close>.\<close>

definition is_app_error_0 :: "error \<Rightarrow> bool" where
  "is_app_error_0 err = errors_Is err ''quic.ApplicationError 0x0''"

text \<open>How a loop stands: it waits for the next input, or it returned with a log line or none.\<close>

datatype loop_end = Waiting | Returned "string option"

text \<open>
  \<open>acceptConnections\<close>: for each pass, whether the stop channel is ready and what \<open>Accept\<close> yields.
  The result is the wait group, the connections given a goroutine, and how the loop stands.
\<close>

fun acceptConnections ::
    "int \<Rightarrow> (bool \<times> (error + 'n)) list \<Rightarrow> int \<times> 'n list \<times> loop_end" where
  "acceptConnections wg [] = (wg, [], Waiting)"
| "acceptConnections wg ((stopped, acc) # passes) =
     (if stopped then (wg - 1, [], Returned None)
      else case acc of
        Inl err \<Rightarrow>
          if is_app_error_0 err then (wg - 1, [], Returned None)
          else if isClosedNetworkConnectionError (Some err) then (wg - 1, [], Returned None)
          else (wg - 1, [], Returned (Some (''Error accepting QUIC stream: '' @ Error_text err)))
      | Inr conn \<Rightarrow>
          (case acceptConnections (wg + 1) passes of
             (wg, conns, e) \<Rightarrow> (wg, conn # conns, e)))"

fun handleConnection :: "int \<Rightarrow> (error + 'm) list \<Rightarrow> int \<times> 'm list \<times> loop_end" where
  "handleConnection wg [] = (wg, [], Waiting)"
| "handleConnection wg (Inl err # accepts) =
     (if is_app_error_0 err then (wg - 1, [], Returned None)
      else if isClosedNetworkConnectionError (Some err) then (wg - 1, [], Returned None)
      else (wg - 1, [], Returned (Some (''Error accepting QUIC stream: '' @ Error_text err))))"
| "handleConnection wg (Inr strm # accepts) =
     (case handleConnection (wg + 1) accepts of (wg, strms, e) \<Rightarrow> (wg, strm # strms, e))"

text \<open>
  \<open>handleStream\<close>: the input is what the coming calls of \<open>Read\<close> on the 4096-byte buffer yield:
  the bytes read and the error.
\<close>

fun handleStream ::
    "('w, 'c, 'l) QuicServer \<Rightarrow> 'w \<Rightarrow> stream \<Rightarrow> (bytes \<times> error option) list \<Rightarrow>
     ('w \<times> stream \<times> loop_end) go" where
  "handleStream s w stream [] = Ret (w, stream, Waiting)"
| "handleStream s w stream ((data, Some err) # reads) =
     (if is_app_error_0 err then Ret (w, stream, Returned None)
      else if isClosedNetworkConnectionError (Some err) then Ret (w, stream, Returned None)
      else if errors_Is err ''io.EOF'' \<or> errors_Is err ''io.ErrUnexpectedEOF'' \<or>
              errors_Is err ''quic.ErrServerClosed'' then Ret (w, stream, Returned None)
      else Ret (w, stream, Returned (Some (''Error reading from stream: '' @ Error_text err))))"
| "handleStream s w stream ((data, None) # reads) =
     go_bind (Decode data) (\<lambda>r.
       case r of
         Inl err \<Rightarrow> Ret (w, stream, Returned (Some (''Error decoding message: '' @ Error_text err)))
       | Inr message \<Rightarrow>
          (case map_of (quic_handlerRegistry s) (msg_Handler message) of
             None \<Rightarrow> Ret (w, stream, Returned (Some (''No handler found for action type '' @
                       show_nat (unat (msg_Handler message)))))
           | Some handler \<Rightarrow>
               go_bind (handler w stream message) (\<lambda>(w, stream).
                 handleStream s w stream reads)))"

text \<open>
  \<open>Stop\<close>: closing a nil listener dereferences it, and \<^verbatim>\<open>wg.Wait()\<close> returns only once every
  goroutine of the server has.
\<close>

definition Quic_Stop ::
    "('l \<Rightarrow> error option) \<Rightarrow> ('w, 'c, 'l) QuicServer \<Rightarrow> (error option \<times> ('w, 'c, 'l) QuicServer) go" where
  "Quic_Stop Listener_Close s =
     go_bind (chan_close (quic_stopChan s)) (\<lambda>c.
       let s = s\<lparr>quic_stopChan := c\<rparr>
       in case quic_listener s of
            None \<Rightarrow> Panic ''invalid memory address or nil pointer dereference''
          | Some l \<Rightarrow>
              (case Listener_Close l of
                 Some err \<Rightarrow> Ret (Some err, s)
               | None \<Rightarrow> if quic_wg s = 0 then Ret (None, s) else Blocked))"

definition Quic_WaitStarted :: "('w, 'c, 'l) QuicServer \<Rightarrow> sigchan" where
  "Quic_WaitStarted s = quic_started s"

definition Quic_parseActionType :: "bytes \<Rightarrow> HandlerType \<times> error option" where
  "Quic_parseActionType frame =
     (if length frame < 1 then (0, Some (Errorf ''invalid action: frame too short''))
      else case FromByte 0 (frame ! 0) of
             (Some err, _) \<Rightarrow> (0, Some err)
           | (None, actionType) \<Rightarrow> (actionType, None))"

definition Quic_RegisterHandler ::
    "('w, 'c, 'l) QuicServer \<Rightarrow> HandlerType \<Rightarrow> 'w quic_handler \<Rightarrow> ('w, 'c, 'l) QuicServer" where
  "Quic_RegisterHandler s actionType handler =
     s\<lparr>quic_handlerRegistry := AList.update actionType handler (quic_handlerRegistry s)\<rparr>"

definition Quic_DeregisterHandler ::
    "('w, 'c, 'l) QuicServer \<Rightarrow> HandlerType \<Rightarrow> ('w, 'c, 'l) QuicServer" where
  "Quic_DeregisterHandler s actionType =
     s\<lparr>quic_handlerRegistry := AList.delete actionType (quic_handlerRegistry s)\<rparr>"

section \<open>Lemmas\<close>

lemma stream_Write_ok [simp]:
  "st_results st = [] \<Longrightarrow> stream_Write st d = (None, st\<lparr>st_out := st_out st @ [d]\<rparr>)"
  by (simp add: stream_Write_def)

text \<open>What a stream answers to a message, and what the message does to the contents.\<close>

definition quic_reply :: "('e, 't) Db \<Rightarrow> Message \<Rightarrow> bytes list" where
  "quic_reply db m =
     (if msg_Handler m = WriteHandlerType then [[0]]
      else case Db_Get db (msg_Key m) of
        (_, Some _) \<Rightarrow> [read_error]
      | (value, None) \<Rightarrow>
          if value = [] then [no_value] else [PutUint32 (word_of_nat (length value)), value])"

definition quic_spec :: "(bytes \<rightharpoonup> bytes) \<Rightarrow> Message \<Rightarrow> (bytes \<rightharpoonup> bytes)" where
  "quic_spec c m = (if msg_Handler m = WriteHandlerType then c(msg_Key m \<mapsto> msg_Data m) else c)"

definition quic_kv :: "nat \<Rightarrow> (('e, 't) hworld, 'c, 'l) QuicServer \<Rightarrow> bool" where
  "quic_kv p s \<longleftrightarrow> map_of (quic_handlerRegistry s) =
     [WriteHandlerType \<mapsto> QuicWriteHandler_HandleMessage (NewQuicWriteHandler p),
      ReadHandlerType \<mapsto> QuicReadHandler_HandleMessage]"

lemma handler_types_neq [simp]: "WriteHandlerType \<noteq> ReadHandlerType" "ReadHandlerType \<noteq> WriteHandlerType"
  by (simp_all add: go_simps)

lemma quic_kv_register:
  assumes "quic_handlerRegistry s = []"
  shows "quic_kv p (Quic_RegisterHandler
    (Quic_RegisterHandler s WriteHandlerType (QuicWriteHandler_HandleMessage (NewQuicWriteHandler p)))
    ReadHandlerType QuicReadHandler_HandleMessage)"
  using assms by (simp add: quic_kv_def Quic_RegisterHandler_def fun_upd_twist)

lemma quic_write_handler:
  assumes "world_ok w" and "p < length (w_writers w)" and "is_key (msg_Key m)"
  shows "\<not> panics (QuicWriteHandler_HandleMessage (NewQuicWriteHandler p) w st m)"
    and "QuicWriteHandler_HandleMessage (NewQuicWriteHandler p) w st m = Ret (w', st') \<Longrightarrow>
      world_ok w' \<and> w_db w' = w_db w \<and> length (w_writers w') = length (w_writers w) \<and>
      world_view p w' = (world_view p w)(msg_Key m \<mapsto> msg_Data m) \<and>
      st' = snd (stream_Write st [0])"
proof -
  show "\<not> panics (QuicWriteHandler_HandleMessage (NewQuicWriteHandler p) w st m)"
    using writer_BufferWrite_not_panic [OF assms(1,2), of "msg_Key m" "msg_Data m"]
    by (cases "writer_BufferWrite p (msg_Key m) (msg_Data m) w")
       (auto simp: QuicWriteHandler_HandleMessage_def NewQuicWriteHandler_def split: prod.splits)
next
  assume "QuicWriteHandler_HandleMessage (NewQuicWriteHandler p) w st m = Ret (w', st')"
  then have bw: "writer_BufferWrite p (msg_Key m) (msg_Data m) w = Ret w'"
    and st': "st' = snd (stream_Write st [0])"
    by (cases "stream_Write st [0]",
        auto simp: QuicWriteHandler_HandleMessage_def NewQuicWriteHandler_def go_bind_Ret_iff)+
  show "world_ok w' \<and> w_db w' = w_db w \<and> length (w_writers w') = length (w_writers w) \<and>
      world_view p w' = (world_view p w)(msg_Key m \<mapsto> msg_Data m) \<and> st' = snd (stream_Write st [0])"
    using writer_BufferWrite_ok [OF assms bw] st' by simp
qed

lemma quic_read_handler:
  "\<exists>st'. QuicReadHandler_HandleMessage w st m = Ret (w, st')"
  by (simp add: QuicReadHandler_HandleMessage_def Let_def split: prod.splits option.splits)

lemma quic_read_handler_out:
  "st_results st = [] \<Longrightarrow> msg_Handler m \<noteq> WriteHandlerType \<Longrightarrow>
   QuicReadHandler_HandleMessage w st m = Ret (w, st\<lparr>st_out := st_out st @ quic_reply (w_db w) m\<rparr>)"
  by (simp add: QuicReadHandler_HandleMessage_def quic_reply_def Let_def
      split: prod.splits option.splits)

text \<open>One message on a stream whose writes succeed.\<close>

lemma handleStream_message:
  assumes kv: "quic_kv p s" and w: "world_ok w" "p < length (w_writers w)"
    and st: "st_results st = []" and m: "encodable m" "is_action (msg_Handler m)"
    and run: "handleStream s w st ((wire m @ rest, None) # reads) = Ret r"
  obtains w1 st1 where "handleStream s w1 st1 reads = Ret r" "world_ok w1"
    "w_db w1 = w_db w" "length (w_writers w1) = length (w_writers w)"
    "world_view p w1 = quic_spec (world_view p w) m"
    "st1 = st\<lparr>st_out := st_out st @ quic_reply (w_db w) m\<rparr>"
proof -
  have dec: "Decode (wire m @ rest) = Ret (Inr m)"
    using m(1) by (simp add: encodable_def Decode_wire)
  have key: "is_key (msg_Key m)" using m(1) by (simp add: encodable_def wf_Message_def)
  show thesis
  proof (cases "msg_Handler m = WriteHandlerType")
    case True
    then obtain w1 st1 where
      h: "QuicWriteHandler_HandleMessage (NewQuicWriteHandler p) w st m = Ret (w1, st1)"
      and next_reads: "handleStream s w1 st1 reads = Ret r"
      using run kv by (auto simp: dec quic_kv_def go_bind_Ret_iff)
    have "st1 = st\<lparr>st_out := st_out st @ quic_reply (w_db w) m\<rparr>"
      using quic_write_handler(2) [OF w key h] st True by (simp add: quic_reply_def)
    then show thesis
      using that [OF next_reads] quic_write_handler(2) [OF w key h] True by (simp add: quic_spec_def)
  next
    case False
    then have "handleStream s w (st\<lparr>st_out := st_out st @ quic_reply (w_db w) m\<rparr>) reads = Ret r"
      using run kv m(2) quic_read_handler_out [OF st False, of w]
      by (auto simp: dec quic_kv_def is_action_def)
    then show thesis using that w False by (simp add: quic_spec_def)
  qed
qed

lemma handleStream_messages:
  assumes "quic_kv p s"
  shows "world_ok w \<Longrightarrow> p < length (w_writers w) \<Longrightarrow> st_results st = [] \<Longrightarrow>
    \<forall>(m, rest) \<in> set msgs. encodable m \<and> is_action (msg_Handler m) \<Longrightarrow>
    handleStream s w st (map (\<lambda>(m, rest). (wire m @ rest, None)) msgs) = Ret (w', st', e) \<Longrightarrow>
    e = Waiting \<and> w_db w' = w_db w \<and>
    world_view p w' = foldl quic_spec (world_view p w) (map fst msgs) \<and>
    st_out st' = st_out st @ concat (map (quic_reply (w_db w)) (map fst msgs))"
proof (induction msgs arbitrary: w st)
  case (Cons mr msgs)
  obtain m rest where mr: "mr = (m, rest)" by fastforce
  have m: "encodable m" "is_action (msg_Handler m)" using Cons.prems(4) by (auto simp: mr)
  obtain w1 st1 where one: "handleStream s w1 st1 (map (\<lambda>(m, rest). (wire m @ rest, None)) msgs) = Ret (w', st', e)"
    "world_ok w1" "w_db w1 = w_db w" "length (w_writers w1) = length (w_writers w)"
    "world_view p w1 = quic_spec (world_view p w) m"
    "st1 = st\<lparr>st_out := st_out st @ quic_reply (w_db w) m\<rparr>"
    using handleStream_message [OF assms Cons.prems(1,2,3) m] Cons.prems(5)
    unfolding mr list.map prod.case by metis
  show ?case
    using Cons.IH [OF one(2) _ _ _ one(1)] Cons.prems one(3-6) by (simp add: mr)
qed auto

lemma declared_len_take:
  assumes "wf_Message m" and "37 \<le> n"
  shows "declared_len (take n (wire m)) = word_of_nat (length (msg_Data m))"
proof -
  obtain j where n: "n = 37 + j" using assms(2) le_Suc_ex by blast
  have "length (msg_Key m) = 32" using assms(1) by (simp add: wf_Message_def is_key_def)
  then have "take 4 (drop 33 (take n (wire m))) = PutUint32 (word_of_nat (length (msg_Data m)))"
    by (simp add: n wire_def drop_take drop_Cons')
  then show ?thesis by (simp add: declared_len_def)
qed

lemma Decode_fragment:
  assumes "wf_Message m" and "length (msg_Data m) < 2 ^ 32" and "n < length (wire m)"
  shows "\<exists>e. Decode (take n (wire m)) = Ret (Inl e)"
proof (cases "n < 37")
  case True
  then show ?thesis by (intro Decode_short) simp
next
  case False
  have len: "length (wire m) = 37 + length (msg_Data m)" using length_wire [OF assms(1)] .
  have "unat (word_of_nat (length (msg_Data m)) :: 32 word) = length (msg_Data m)"
    using assms(2) by (simp add: unat_of_nat take_bit_nat_eq_self)
  then have "n - 37 < unat (declared_len (take n (wire m)))"
    using declared_len_take [OF assms(1), of n] False assms(3) len by simp
  then show ?thesis using False assms(3) by (intro Decode_mismatch) simp_all
qed

lemma Decode_small_not_panic: "length d \<le> 4096 \<Longrightarrow> \<not> panics (Decode d)"
proof -
  assume small: "length d \<le> 4096"
  consider "length d < 37" | "37 \<le> length d" "length d - 37 < unat (declared_len d)"
    | "37 \<le> length d" "unat (declared_len d) \<le> length d - 37" by linarith
  then show ?thesis
  proof cases
    case 1
    then show ?thesis using Decode_short [of d] by auto
  next
    case 2
    then show ?thesis using Decode_mismatch [of d] by auto
  next
    case 3
    then show ?thesis using Decode_long [OF 3] small by auto
  qed
qed

lemma quic_handler_cases:
  assumes "quic_kv p s" and "world_ok w" and "p < length (w_writers w)" and "is_key (msg_Key m)"
    and "map_of (quic_handlerRegistry s) (msg_Handler m) = Some h"
  obtains (ok) w1 st1 where "h w st m = Ret (w1, st1)" "world_ok w1"
    "length (w_writers w1) = length (w_writers w)"
  | (blocked) "h w st m = Blocked"
proof -
  have "h = QuicWriteHandler_HandleMessage (NewQuicWriteHandler p) \<or> h = QuicReadHandler_HandleMessage"
    using assms(1,5) by (auto simp: quic_kv_def split: if_splits)
  then show thesis
  proof
    assume h: "h = QuicWriteHandler_HandleMessage (NewQuicWriteHandler p)"
    show thesis
    proof (cases "h w st m")
      case (Ret wst)
      obtain w1 st1 where wst: "wst = (w1, st1)" by fastforce
      show thesis
        using ok [of w1 st1] Ret quic_write_handler(2) [OF assms(2-4), of st w1 st1]
        unfolding wst h by blast
    qed (use blocked quic_write_handler(1) [OF assms(2-4), of st] h in auto)
  next
    assume "h = QuicReadHandler_HandleMessage"
    then show thesis using ok assms(2) quic_read_handler [of w st m] by blast
  qed
qed

lemma handleStream_not_panic:
  assumes "quic_kv p s"
  shows "world_ok w \<Longrightarrow> p < length (w_writers w) \<Longrightarrow> \<forall>(d, err) \<in> set reads. length d \<le> 4096 \<Longrightarrow>
    \<not> panics (handleStream s w st reads)"
proof (induction reads arbitrary: w st)
  case (Cons rd reads)
  obtain d err where rd: "rd = (d, err)" by fastforce
  have small: "length d \<le> 4096" using Cons.prems(3) by (simp add: rd)
  consider x where "err = Some x" | e where "err = None" "Decode d = Ret (Inl e)" |
    m where "err = None" "Decode d = Ret (Inr m)" | "err = None" "Decode d = Blocked"
    using Decode_small_not_panic [OF small]
    by (cases err; cases "Decode d") (auto, metis sum.exhaust)
  then show ?case
  proof cases
    case (3 m)
    have key: "is_key (msg_Key m)" using wire_of_decoded(1) [OF 3(2)] by (simp add: wf_Message_def)
    show ?thesis
    proof (cases "map_of (quic_handlerRegistry s) (msg_Handler m)")
      case None
      then show ?thesis by (simp add: rd 3)
    next
      case (Some h)
      show ?thesis
      proof (cases rule: quic_handler_cases [OF assms Cons.prems(1,2) key Some, of st])
        case (1 w1 st1)
        then show ?thesis using Cons.IH [of w1 st1] Cons.prems by (simp add: rd 3 Some)
      next
        case 2
        then show ?thesis by (simp add: rd 3 Some)
      qed
    qed
  qed (simp_all add: rd)
qed simp

lemma acceptConnections_wg:
  "acceptConnections wg passes = (wg', conns, e) \<Longrightarrow>
   wg' = wg + int (length conns) - (if e = Waiting then 0 else 1)"
  by (induction wg passes arbitrary: conns rule: acceptConnections.induct)
     (auto split: if_splits sum.splits prod.splits)

lemma handleConnection_wg:
  "handleConnection wg accepts = (wg', strms, e) \<Longrightarrow>
   wg' = wg + int (length strms) - (if e = Waiting then 0 else 1)"
  by (induction wg accepts arbitrary: strms rule: handleConnection.induct)
     (auto split: if_splits prod.splits)

section \<open>Properties\<close>

text \<open>A server with its two handlers registered.\<close>

definition sample_quic :: "((mem_store, mem_store) hworld, unit, unit) QuicServer" where
  "sample_quic = Quic_RegisterHandler
     (Quic_RegisterHandler
        \<lparr>quic_handlerRegistry = [], quic_cnf = zero_Quic,
         quic_tlsConfig = \<lparr>InsecureSkipVerify = False, Certificates = [()],
           NextProtos = [''quic-example''], RootCAs = None\<rparr>,
         quic_stopChan = make_chan 0, quic_started = make_chan 0, quic_wg = 0, quic_listener = None\<rparr>
        WriteHandlerType (QuicWriteHandler_HandleMessage (NewQuicWriteHandler 0)))
     ReadHandlerType QuicReadHandler_HandleMessage"

lemma sample_quic_kv: "quic_kv 0 sample_quic"
  unfolding sample_quic_def by (rule quic_kv_register) simp

abbreviation sample_msg :: Message where
  "sample_msg \<equiv> \<lparr>msg_Handler = WriteHandlerType, msg_Key = sample_key, msg_Data = [9]\<rparr>"

abbreviation sample_stream :: stream where
  "sample_stream \<equiv> \<lparr>st_results = [], st_out = []\<rparr>"

lemma sample_msg_encodable: "encodable sample_msg"
  by (simp add: encodable_def wf_Message_def is_key_def)

lemma sample_handleStream:
  "handleStream sample_quic sample_world sample_stream [(wire sample_msg @ rest, None)] =
     Ret (\<lparr>w_db = mem_db None [], w_writers = [sample_queued [9]]\<rparr>,
          \<lparr>st_results = [], st_out = [[0]]\<rparr>, Waiting)"
proof -
  have "Decode (wire sample_msg @ rest) = Ret (Inr sample_msg)"
    using sample_msg_encodable by (simp add: encodable_def Decode_wire)
  then show ?thesis
    using sample_quic_kv
    by (simp add: quic_kv_def QuicWriteHandler_HandleMessage_def NewQuicWriteHandler_def
        sample_BufferWrite)
qed

text \<open>
  C17. A QUIC stream refines the key-value specification: when every read yields one encoded
  message, alone or followed by other bytes, the stream stays open, the messages' writes take
  effect in order, and the client receives, in order, the success byte for each write and the
  length-prefixed value or the message for a missing key for each read. Bytes that follow a
  message in the same read are ignored.
\<close>

theorem quic_stream_refines:
  assumes "quic_kv p s" and "world_ok w" and "p < length (w_writers w)" and "st_results st = []"
    and "\<forall>(m, rest) \<in> set msgs. encodable m \<and> is_action (msg_Handler m)"
    and "handleStream s w st (map (\<lambda>(m, rest). (wire m @ rest, None)) msgs) = Ret (w', st', e)"
  shows "e = Waiting \<and> w_db w' = w_db w \<and>
    world_view p w' = foldl quic_spec (world_view p w) (map fst msgs) \<and>
    st_out st' = st_out st @ concat (map (quic_reply (w_db w)) (map fst msgs))"
  by (rule handleStream_messages [OF assms])

theorem quic_stream_refines_witness:
  "world_view 0 \<lparr>w_db = mem_db None [], w_writers = [sample_queued [9]]\<rparr> =
     foldl quic_spec (world_view 0 sample_world) [sample_msg]"
  using quic_stream_refines [OF sample_quic_kv sample_world_ok, of sample_stream "[(sample_msg, [7])]"]
    sample_handleStream [of "[7]"] sample_msg_encodable
  by (simp add: is_action_def)

text \<open>
  C32. A message that does not arrive in one read is lost and ends its stream: if a read yields
  only a proper prefix of an encoded message, as it must for a message longer than the
  4096-byte buffer, the stream's goroutine returns with a log line, no reply is sent and
  nothing is written.
\<close>

theorem quic_fragment_ends_stream:
  assumes "wf_Message m" and "length (msg_Data m) < 2 ^ 32" and "n < length (wire m)"
  shows "\<exists>line. handleStream s w st ((take n (wire m), None) # reads) = Ret (w, st, Returned (Some line))"
  using Decode_fragment [OF assms] by auto

theorem quic_fragment_ends_stream_witness:
  "\<exists>line. handleStream sample_quic sample_world sample_stream [(take 37 (wire sample_msg), None)] =
     Ret (sample_world, sample_stream, Returned (Some line))"
  by (rule quic_fragment_ends_stream)
     (use sample_msg_encodable length_wire [of sample_msg] in \<open>simp_all add: encodable_def\<close>)

text \<open>
  C28. No input can make a stream's goroutine panic: reads of up to 4096 bytes never reach the
  slice expression of \<open>Decode\<close> with an overflowing length, whatever the client sends, and the
  handlers themselves do not panic.
\<close>

theorem quic_stream_never_panics:
  assumes "quic_kv p s" and "world_ok w" and "p < length (w_writers w)"
    and "\<forall>(d, err) \<in> set reads. length d \<le> 4096"
  shows "\<not> panics (handleStream s w st reads)"
  by (rule handleStream_not_panic [OF assms])

theorem quic_stream_never_panics_witness:
  "\<not> panics (handleStream sample_quic sample_world sample_stream [(replicate 100 255, None)])"
  by (rule quic_stream_never_panics [OF sample_quic_kv sample_world_ok]) simp_all

text \<open>
  The wait group counts the server's goroutines: each of the two accepting loops adds one for
  every goroutine it starts and takes its own away exactly when it returns.
\<close>

theorem quic_wait_group:
  "(case acceptConnections wg passes of (wg', conns, e) \<Rightarrow>
      wg' = wg + int (length conns) - (if e = Waiting then 0 else 1)) \<and>
   (case handleConnection wg accepts of (wg', strms, e) \<Rightarrow>
      wg' = wg + int (length strms) - (if e = Waiting then 0 else 1))"
  using acceptConnections_wg [of wg passes] handleConnection_wg [of wg accepts]
  by (cases "acceptConnections wg passes"; cases "handleConnection wg accepts") auto

text \<open>
  A QUIC server starts once and stops only after a start: starting again after a successful
  start panics (the channel \<open>started\<close> is closed already), and stopping a server that was
  created but not started panics on its nil listener.
\<close>

theorem quic_lifecycle:
  assumes "Quic_NewServer env cnf = Inr s"
    and "ListenAddr (QuicTransport_Addr cnf) (quic_tlsConfig s) = Inr l"
  shows "\<exists>s1. Quic_Start ListenAddr s = Ret (None, s1) \<and> quic_listener s1 = Some l \<and>
    quic_wg s1 = 1 \<and> panics (Quic_Start ListenAddr s1) \<and> panics (Quic_Stop Listener_Close s)"
  using assms
  by (auto simp: Quic_NewServer_def Quic_Start_def Quic_Stop_def Quic_Addr_def Let_def chan_defs
      split: sum.splits)

theorem quic_lifecycle_witness:
  "\<exists>(s :: (unit, unit, unit) QuicServer) s1. Quic_NewServer \<lparr>os_Stat_IsNotExist = (\<lambda>_. False), os_ReadFile = (\<lambda>_. Inr []),
       LoadX509KeyPair = (\<lambda>_ _. Inr ()), AppendCertsFromPEM = (\<lambda>_. True)\<rparr> zero_Quic = Inr s \<and>
     Quic_Start (\<lambda>_ _. Inr ()) s = Ret (None, s1) \<and> panics (Quic_Start (\<lambda>_ _. Inr ()) s1)"
proof -
  let ?env = "\<lparr>os_Stat_IsNotExist = (\<lambda>_. False), os_ReadFile = (\<lambda>_. Inr []),
       LoadX509KeyPair = (\<lambda>_ _. Inr ()), AppendCertsFromPEM = (\<lambda>_. True)\<rparr>"
  obtain s :: "(unit, unit, unit) QuicServer" where s: "Quic_NewServer ?env zero_Quic = Inr s"
    by (simp add: Quic_NewServer_def QuicTransport_GetTLSConfig_def zero_Quic_def zero_TLS_def Let_def)
  show ?thesis using s quic_lifecycle [OF s, of "\<lambda>_ _. Inr ()" "()"] by blast
qed

end
