(* ===== verification/Fdb.thy ===== *)
theory Fdb
  imports Observability Db_Manager Transport_Manager Tcp_Server Udp_Server Uds_Server Dummy_Server Quic_Server
begin

text \<open>
  The instance: \<^verbatim>\<open>src/fdb.go\<close> builds the transports from the configuration, starts and stops
  them; \<^verbatim>\<open>src/registry.go\<close> wires a transport to the database with a batch writer and the two
  handlers.
\<close>

section \<open>State\<close>

text \<open>The values of the interface \<open>transports.Transport\<close>, by dynamic type.\<close>

datatype ('e, 't, 'g, 'c, 'l) AnyTransport =
  TrDummy "('e, 't) hworld DummyServer"
| TrQuic "(('e, 't) hworld, 'c, 'l) QuicServer"
| TrUds "('e, 't) hworld UdsServer"
| TrTcp "(('e, 't) hworld, 'g) TcpServer"
| TrUdp "('e, 't) hworld UdpServer"

text \<open>
  The struct \<open>FDB\<close>. The batch writers the registry creates are reachable only through the
  handlers; \<open>fdb_writers\<close> lists them, and a handler holds an index into it.
\<close>

record ('e, 't, 'g, 'c, 'l) FDB =
  fdb_config :: Config
  fdb_tm :: "('e, 't, 'g, 'c, 'l) AnyTransport TransportManager"
  fdb_dbManager :: "('e, 't) DbManager"
  fdb_writers :: "BatchWriter list"

definition FDB_GetConfig :: "('e, 't, 'g, 'c, 'l) FDB \<Rightarrow> Config" where
  "FDB_GetConfig fdb = fdb_config fdb"

definition FDB_GetDbManager :: "('e, 't, 'g, 'c, 'l) FDB \<Rightarrow> ('e, 't) DbManager" where
  "FDB_GetDbManager fdb = fdb_dbManager fdb"

definition FDB_GetTransportManager ::
    "('e, 't, 'g, 'c, 'l) FDB \<Rightarrow> ('e, 't, 'g, 'c, 'l) AnyTransport TransportManager" where
  "FDB_GetTransportManager fdb = fdb_tm fdb"

section \<open>Construction\<close>

text \<open>What \<open>New\<close> gets from its environment: the engine, the file system and the logging library.\<close>

record ('e, 't, 'c) new_env =
  ne_mdbx :: "('e, 't) mdbx"
  ne_tls :: "'c tls_env"
  ne_Stat_ok :: "string \<Rightarrow> bool"
  ne_Remove :: "string \<Rightarrow> error option"
  ne_zap :: zap_lib

text \<open>
  One pass of the loop over the configured transports: the type switch. Its default case is
  reached by a nil \<open>Config\<close> only, and then calls a method on it.
\<close>

definition new_transport ::
    "('e, 't, 'c) new_env \<Rightarrow> ('e, 't, 'g, 'c, 'l) AnyTransport TransportManager \<Rightarrow> Transport \<Rightarrow>
     (error + ('e, 't, 'g, 'c, 'l) AnyTransport TransportManager) go" where
  "new_transport env tm transport =
     (case tr_Config transport of
        None \<Rightarrow> Panic ''invalid memory address or nil pointer dereference''
      | Some (CDummy t) \<Rightarrow>
         (case NewDummyServer t of
            Inl err \<Rightarrow> Ret (Inl (Wrapped ''failed to create dummy server'' err))
          | Inr server \<Rightarrow>
             (case RegisterTransport tm DummyTransportType (TrDummy server) of
                (Some err, _) \<Rightarrow> Ret (Inl (Wrapped ''failed to register UDS transport'' err))
              | (None, tm) \<Rightarrow> Ret (Inr tm)))
      | Some (CQuic t) \<Rightarrow>
         (case Quic_NewServer (ne_tls env) t of
            Inl err \<Rightarrow> Ret (Inl (Wrapped ''failed to create QUIC server'' err))
          | Inr server \<Rightarrow>
             (case RegisterTransport tm QUICTransportType (TrQuic server) of
                (Some err, _) \<Rightarrow> Ret (Inl (Wrapped ''failed to register QUIC transport'' err))
              | (None, tm) \<Rightarrow> Ret (Inr tm)))
      | Some (CUds t) \<Rightarrow>
         (case Uds_NewServer (ne_Stat_ok env) (ne_Remove env) t of
            Inl err \<Rightarrow> Ret (Inl (Wrapped ''failed to create UDS server'' err))
          | Inr server \<Rightarrow>
             (case RegisterTransport tm UDSTransportType (TrUds server) of
                (Some err, _) \<Rightarrow> Ret (Inl (Wrapped ''failed to register UDS transport'' err))
              | (None, tm) \<Rightarrow> Ret (Inr tm)))
      | Some (CTcp t) \<Rightarrow>
         (case Tcp_NewServer t of
            Inl err \<Rightarrow> Ret (Inl (Wrapped ''failed to create TCP server'' err))
          | Inr server \<Rightarrow>
             (case RegisterTransport tm TCPTransportType (TrTcp server) of
                (Some err, _) \<Rightarrow> Ret (Inl (Wrapped ''failed to register TCP transport'' err))
              | (None, tm) \<Rightarrow> Ret (Inr tm)))
      | Some (CUdp t) \<Rightarrow>
         (case Udp_NewServer t of
            Inl err \<Rightarrow> Ret (Inl (Wrapped ''failed to create UDP server'' err))
          | Inr server \<Rightarrow>
             (case RegisterTransport tm UDPTransportType (TrUdp server) of
                (Some err, _) \<Rightarrow> Ret (Inl (Wrapped ''failed to register UDP transport'' err))
              | (None, tm) \<Rightarrow> Ret (Inr tm))))"

fun new_transports ::
    "('e, 't, 'c) new_env \<Rightarrow> ('e, 't, 'g, 'c, 'l) AnyTransport TransportManager \<Rightarrow> Transport list \<Rightarrow>
     (error + ('e, 't, 'g, 'c, 'l) AnyTransport TransportManager) go" where
  "new_transports env tm [] = Ret (Inr tm)"
| "new_transports env tm (t # ts) =
     go_bind (new_transport env tm t) (\<lambda>r.
       case r of Inl err \<Rightarrow> Ret (Inl err) | Inr tm \<Rightarrow> new_transports env tm ts)"

definition New :: "('e, 't, 'c) new_env \<Rightarrow> Config \<Rightarrow> (error + ('e, 't, 'g, 'c, 'l) FDB) go" where
  "New env cnf =
     (case Config_Validate cnf of
        Some err \<Rightarrow> Ret (Inl (Wrapped ''failure to validate (f)db configuration'' err))
      | None \<Rightarrow>
         (case (if log_Enabled (cfg_Logger cnf)
                then map_sum id Some (GetLogger (ne_zap env) (log_Environment (cfg_Logger cnf))
                       (log_Level (cfg_Logger cnf)))
                else Inr None) of
            Inl zlErr \<Rightarrow> Ret (Inl (Wrapped ''failure to construct new logger'' zlErr))
          | Inr _ \<Rightarrow>
             (case NewManager (ne_mdbx env) (cfg_Mdbx cnf) of
                Inl (dbmErr, _) \<Rightarrow> Ret (Inl (Wrapped ''failure to create database manager'' dbmErr))
              | Inr dbM \<Rightarrow>
                  go_bind (new_transports env NewTransportManager (cfg_Transports cnf)) (\<lambda>r.
                    case r of
                      Inl err \<Rightarrow> Ret (Inl err)
                    | Inr tm \<Rightarrow> Ret (Inr \<lparr>fdb_config = cnf, fdb_tm = tm, fdb_dbManager = dbM,
                                          fdb_writers = []\<rparr>)))))"

definition GetTransportByType ::
    "('e, 't, 'g, 'c, 'l) FDB \<Rightarrow> TransportType \<Rightarrow> error + ('e, 't, 'g, 'c, 'l) AnyTransport" where
  "GetTransportByType fdb tType = GetTransport (fdb_tm fdb) tType"

section \<open>The transport registry\<close>

text \<open>A change to the server object the manager points to.\<close>

definition set_transport ::
    "('e, 't, 'g, 'c, 'l) FDB \<Rightarrow> TransportType \<Rightarrow> ('e, 't, 'g, 'c, 'l) AnyTransport \<Rightarrow>
     ('e, 't, 'g, 'c, 'l) FDB" where
  "set_transport fdb ty tr =
     fdb\<lparr>fdb_tm := (fdb_tm fdb)\<lparr>tm_transports := AList.update ty tr (tm_transports (fdb_tm fdb))\<rparr>\<rparr>"

definition tRegistry_quic ::
    "('e, 't, 'g, 'c, 'l) FDB \<Rightarrow> (error + ('e, 't, 'g, 'c, 'l) FDB) go" where
  "tRegistry_quic fdb =
     (case GetTransportByType fdb QUICTransportType of
        Inl err \<Rightarrow> Ret (Inl (Wrapped ''failed to retrieve QUIC transport'' err))
      | Inr (TrQuic server) \<Rightarrow>
          go_bind (NewBatchWriter 512 500000000 15) (\<lambda>bw.
            let p = length (fdb_writers fdb);
                server = Quic_RegisterHandler server WriteHandlerType
                  (QuicWriteHandler_HandleMessage (NewQuicWriteHandler p));
                server = Quic_RegisterHandler server ReadHandlerType QuicReadHandler_HandleMessage
            in Ret (Inr (set_transport (fdb\<lparr>fdb_writers := fdb_writers fdb @ [bw]\<rparr>)
                 QUICTransportType (TrQuic server))))
      | Inr _ \<Rightarrow> Ret (Inl (Errorf ''failed to cast transport to QuicServer'')))"

definition tRegistry_tcp ::
    "('e, 't, 'g, 'c, 'l) FDB \<Rightarrow> (error + ('e, 't, 'g, 'c, 'l) FDB) go" where
  "tRegistry_tcp fdb =
     (case GetTransportByType fdb TCPTransportType of
        Inl err \<Rightarrow> Ret (Inl (Wrapped ''failed to retrieve TCP transport'' err))
      | Inr (TrTcp server) \<Rightarrow>
          go_bind (NewBatchWriter 512 500000000 15) (\<lambda>bw.
            let p = length (fdb_writers fdb);
                server = Tcp_RegisterHandler server WriteHandlerType
                  (TCPWriteHandler_HandleMessage (NewTCPWriteHandler p));
                server = Tcp_RegisterHandler server ReadHandlerType TCPReadHandler_HandleMessage
            in Ret (Inr (set_transport (fdb\<lparr>fdb_writers := fdb_writers fdb @ [bw]\<rparr>)
                 TCPTransportType (TrTcp server))))
      | Inr _ \<Rightarrow> Ret (Inl (Errorf ''failed to cast transport to TcpServer'')))"

definition tRegistry_uds ::
    "('e, 't, 'g, 'c, 'l) FDB \<Rightarrow> (error + ('e, 't, 'g, 'c, 'l) FDB) go" where
  "tRegistry_uds fdb =
     (case GetTransportByType fdb UDSTransportType of
        Inl err \<Rightarrow> Ret (Inl (Wrapped ''failed to retrieve UDS transport'' err))
      | Inr (TrUds server) \<Rightarrow>
          go_bind (NewBatchWriter 512 500000000 15) (\<lambda>bw.
            let p = length (fdb_writers fdb);
                server = Uds_RegisterHandler server WriteHandlerType
                  (UDSWriteHandler_HandleMessage (NewUDSWriteHandler p));
                server = Uds_RegisterHandler server ReadHandlerType UDSReadHandler_HandleMessage
            in Ret (Inr (set_transport (fdb\<lparr>fdb_writers := fdb_writers fdb @ [bw]\<rparr>)
                 UDSTransportType (TrUds server))))
      | Inr _ \<Rightarrow> Ret (Inl (Errorf ''failed to cast transport to UdsServer'')))"

definition tRegistry_udp ::
    "('e, 't, 'g, 'c, 'l) FDB \<Rightarrow> (error + ('e, 't, 'g, 'c, 'l) FDB) go" where
  "tRegistry_udp fdb =
     (case GetTransportByType fdb UDPTransportType of
        Inl err \<Rightarrow> Ret (Inl (Wrapped ''failed to retrieve UDP transport'' err))
      | Inr (TrUdp server) \<Rightarrow>
          go_bind (NewBatchWriter 512 500000000 15) (\<lambda>bw.
            let p = length (fdb_writers fdb);
                server = Udp_RegisterHandler server WriteHandlerType
                  (UDPWriteHandler_HandleMessage (NewUDPWriteHandler p));
                server = Udp_RegisterHandler server ReadHandlerType UDPReadHandler_HandleMessage
            in Ret (Inr (set_transport (fdb\<lparr>fdb_writers := fdb_writers fdb @ [bw]\<rparr>)
                 UDPTransportType (TrUdp server))))
      | Inr _ \<Rightarrow> Ret (Inl (Errorf ''failed to cast transport to UdpServer'')))"

text \<open>The map \<open>tRegistry\<close>; it has no entry for the dummy transport.\<close>

definition tRegistry ::
    "TransportType \<Rightarrow> (('e, 't, 'g, 'c, 'l) FDB \<Rightarrow> (error + ('e, 't, 'g, 'c, 'l) FDB) go) option" where
  "tRegistry ty =
     (if ty = QUICTransportType then Some tRegistry_quic
      else if ty = TCPTransportType then Some tRegistry_tcp
      else if ty = UDSTransportType then Some tRegistry_uds
      else if ty = UDPTransportType then Some tRegistry_udp
      else None)"

section \<open>Starting and stopping\<close>

text \<open>
  What a start meets: how each server's event loop comes up, what the QUIC listener answers,
  what the pprof server answers (it is blocked while it serves), the error of the context once
  it is cancelled, and which error the group reports when several goroutines fail.
\<close>

record ('c, 'l) start_env =
  se_outcome :: "TransportType \<Rightarrow> start_outcome"
  se_ListenAddr :: "string \<Rightarrow> 'c tls_Config \<Rightarrow> error + 'l"
  se_ListenAndServe :: "string \<Rightarrow> error go"
  se_ctx_Err :: "error option"
  se_first :: "error list \<Rightarrow> error"

text \<open>The method \<open>Start\<close> of the interface.\<close>

fun Transport_Start ::
    "('c, 'l) start_env \<Rightarrow> TransportType \<Rightarrow> ('e, 't, 'g, 'c, 'l) AnyTransport \<Rightarrow>
     (error option \<times> ('e, 't, 'g, 'c, 'l) AnyTransport) go" where
  "Transport_Start se ty (TrDummy s) =
     go_bind (Dummy_Start s (se_outcome se ty)) (\<lambda>(r, s). Ret (r, TrDummy s))"
| "Transport_Start se ty (TrQuic s) =
     go_bind (Quic_Start (se_ListenAddr se) s) (\<lambda>(r, s). Ret (r, TrQuic s))"
| "Transport_Start se ty (TrUds s) =
     go_bind (Uds_Start s (se_outcome se ty)) (\<lambda>(r, s). Ret (r, TrUds s))"
| "Transport_Start se ty (TrTcp s) =
     go_bind (Tcp_Start s (se_outcome se ty)) (\<lambda>(r, s). Ret (r, TrTcp s))"
| "Transport_Start se ty (TrUdp s) =
     go_bind (Udp_Start s (se_outcome se ty)) (\<lambda>(r, s). Ret (r, TrUdp s))"

text \<open>
  The loop of \<open>FDB.Start\<close>: it ends early on a type without registry entry and on a failing
  registry function; the servers launched before keep running. The second result collects
  the errors of the launched goroutines.
\<close>

fun start_transports ::
    "('c, 'l) start_env \<Rightarrow> ('e, 't, 'g, 'c, 'l) FDB \<Rightarrow> TransportType list \<Rightarrow>
     (error option \<times> error list \<times> ('e, 't, 'g, 'c, 'l) FDB) go" where
  "start_transports se fdb [] = Ret (None, [], fdb)"
| "start_transports se fdb (transport # transports) =
     (case tRegistry transport of
        None \<Rightarrow> Ret (Some (Errorf (''unknown transport type provided: '' @
                  TransportType_String transport @ '' - rejecting serving transports'')), [], fdb)
      | Some transportFn \<Rightarrow>
          go_bind (transportFn fdb) (\<lambda>r.
            case r of
              Inl itErr \<Rightarrow>
                Ret (Some (Wrapped (''failure to create transport: '' @
                  TransportType_String transport) itErr), [], fdb)
            | Inr fdb \<Rightarrow>
               (case GetTransportByType fdb transport of
                  Inl err \<Rightarrow> Ret (Some err, [], fdb)
                | Inr iTransport \<Rightarrow>
                    go_bind (Transport_Start se transport iTransport) (\<lambda>(r, iTransport).
                      go_bind (start_transports se (set_transport fdb transport iTransport) transports)
                        (\<lambda>(early, errs, fdb).
                          Ret (early, (case r of None \<Rightarrow> errs | Some e \<Rightarrow> e # errs), fdb))))))"

definition FDB_Start ::
    "('c, 'l) start_env \<Rightarrow> ('e, 't, 'g, 'c, 'l) FDB \<Rightarrow> TransportType list \<Rightarrow>
     (error \<times> ('e, 't, 'g, 'c, 'l) FDB) go" where
  "FDB_Start se fdb transports =
     (case GetDb (fdb_dbManager fdb) ''fdb'' of
        Inl err \<Rightarrow> Ret (Wrapped ''failed to retrieve fdb database'' err, fdb)
      | Inr bDb \<Rightarrow>
         (case GetPprofByServiceTag (fdb_config fdb) ''fdb'' of
            Inl pcErr \<Rightarrow>
              Ret (Wrapped ''failed to retrieve fdb pprof config for service tag: fdb'' pcErr, fdb)
          | Inr pCfg \<Rightarrow>
              go_bind (start_transports se fdb transports) (\<lambda>(early, errs, fdb).
                case early of
                  Some err \<Rightarrow> Ret (err, fdb)
                | None \<Rightarrow>
                    go_bind
                      (if pprof_Enabled pCfg
                       then go_bind (Pprof_Start (se_ListenAndServe se) (Pprof_New pCfg)) (\<lambda>e. Ret [e])
                       else Ret []) (\<lambda>pErrs.
                        let errs = pErrs @ errs
                        in if errs \<noteq> []
                           then Ret (Wrapped ''failure to start fdb database'' (se_first se errs), fdb)
                           else case se_ctx_Err se of
                                  None \<Rightarrow> Blocked
                                | Some e \<Rightarrow> Ret (e, fdb)))))"

record ('g, 'l) stop_env =
  sp_Remove :: "string \<Rightarrow> error option"
  sp_Engine_Stop :: "'g option \<Rightarrow> error option go"
  sp_Listener_Close :: "'l \<Rightarrow> error option"

fun Transport_Stop ::
    "('g, 'l) stop_env \<Rightarrow> ('e, 't, 'g, 'c, 'l) AnyTransport \<Rightarrow>
     (error option \<times> ('e, 't, 'g, 'c, 'l) AnyTransport) go" where
  "Transport_Stop sp (TrDummy s) = go_bind (Dummy_Stop s) (\<lambda>(r, s). Ret (r, TrDummy s))"
| "Transport_Stop sp (TrQuic s) =
     go_bind (Quic_Stop (sp_Listener_Close sp) s) (\<lambda>(r, s). Ret (r, TrQuic s))"
| "Transport_Stop sp (TrUds s) = go_bind (Uds_Stop (sp_Remove sp) s) (\<lambda>(r, s). Ret (r, TrUds s))"
| "Transport_Stop sp (TrTcp s) = go_bind (Tcp_Stop (sp_Engine_Stop sp) s) (\<lambda>r. Ret (r, TrTcp s))"
| "Transport_Stop sp (TrUdp s) = go_bind (Udp_Stop s) (\<lambda>(r, s). Ret (r, TrUdp s))"

fun FDB_Stop ::
    "('g, 'l) stop_env \<Rightarrow> ('e, 't, 'g, 'c, 'l) FDB \<Rightarrow> TransportType list \<Rightarrow>
     (error option \<times> ('e, 't, 'g, 'c, 'l) FDB) go" where
  "FDB_Stop sp fdb [] = Ret (None, fdb)"
| "FDB_Stop sp fdb (transport # transports) =
     (case GetTransport (fdb_tm fdb) transport of
        Inl tErr \<Rightarrow> Ret (Some tErr, fdb)
      | Inr t \<Rightarrow>
          go_bind (Transport_Stop sp t) (\<lambda>(r, t).
            let fdb = set_transport fdb transport t
            in case r of
                 Some err \<Rightarrow> Ret (Some err, fdb)
               | None \<Rightarrow> FDB_Stop sp fdb transports))"

section \<open>Lemmas on construction\<close>

fun transport_kind :: "('e, 't, 'g, 'c, 'l) AnyTransport \<Rightarrow> TransportType" where
  "transport_kind (TrDummy s) = DummyTransportType"
| "transport_kind (TrQuic s) = QUICTransportType"
| "transport_kind (TrUds s) = UDSTransportType"
| "transport_kind (TrTcp s) = TCPTransportType"
| "transport_kind (TrUdp s) = UDPTransportType"

text \<open>Every server is registered under its own type.\<close>

definition tm_typed :: "('e, 't, 'g, 'c, 'l) AnyTransport TransportManager \<Rightarrow> bool" where
  "tm_typed tm \<longleftrightarrow> (\<forall>ty tr. tm_contents tm ty = Some tr \<longrightarrow> transport_kind tr = ty)"

lemma RegisterTransport_ok:
  assumes "RegisterTransport tm ty tr = (None, tm')"
  shows "tm_contents tm ty = None" and "tm_contents tm' = (tm_contents tm)(ty \<mapsto> tr)"
  using assms by (auto simp: RegisterTransport_def tm_contents_def split: if_splits)

lemma register_result:
  "(case r of (Some err, _) \<Rightarrow> Ret (Inl (h err)) | (None, tm) \<Rightarrow> Ret (Inr tm)) = Ret (Inr tm') \<longleftrightarrow>
   r = (None, tm')"
  by (auto split: prod.splits option.splits)

lemma new_transport_ok:
  assumes "new_transport env tm t = Ret (Inr tm')"
  obtains c tr where "tr_Config t = Some c" "tm_contents tm (config_kind c) = None"
    "tm_contents tm' = (tm_contents tm)(config_kind c \<mapsto> tr)" "transport_kind tr = config_kind c"
proof -
  obtain c where c: "tr_Config t = Some c" using assms by (cases "tr_Config t") (auto simp: new_transport_def)
  have "\<exists>tr. RegisterTransport tm (config_kind c) tr = (None, tm') \<and> transport_kind tr = config_kind c"
  proof (cases c)
    case (CDummy d)
    have "RegisterTransport tm (config_kind c) (TrDummy (projr (NewDummyServer d))) = (None, tm')"
      using assms by (simp add: new_transport_def c CDummy NewDummyServer_def register_result)
    then show ?thesis unfolding CDummy by (metis config_kind.simps(1) transport_kind.simps(1))
  next
    case (CUds d)
    obtain s where "Uds_NewServer (ne_Stat_ok env) (ne_Remove env) d = Inr s"
      "RegisterTransport tm (config_kind c) (TrUds s) = (None, tm')"
      using assms by (auto simp: new_transport_def c CUds register_result split: sum.split_asm)
    then show ?thesis unfolding CUds by (metis config_kind.simps(2) transport_kind.simps(3))
  next
    case (CQuic d)
    obtain s where "Quic_NewServer (ne_tls env) d = Inr s"
      "RegisterTransport tm (config_kind c) (TrQuic s) = (None, tm')"
      using assms by (auto simp: new_transport_def c CQuic register_result split: sum.split_asm)
    then show ?thesis unfolding CQuic by (metis config_kind.simps(3) transport_kind.simps(2))
  next
    case (CTcp d)
    have "RegisterTransport tm (config_kind c) (TrTcp (projr (Tcp_NewServer d))) = (None, tm')"
      using assms by (simp add: new_transport_def c CTcp Tcp_NewServer_def register_result)
    then show ?thesis unfolding CTcp by (metis config_kind.simps(4) transport_kind.simps(4))
  next
    case (CUdp d)
    have "RegisterTransport tm (config_kind c) (TrUdp (projr (Udp_NewServer d))) = (None, tm')"
      using assms by (simp add: new_transport_def c CUdp Udp_NewServer_def register_result)
    then show ?thesis unfolding CUdp by (metis config_kind.simps(5) transport_kind.simps(5))
  qed
  then obtain tr where tr: "RegisterTransport tm (config_kind c) tr = (None, tm')"
    "transport_kind tr = config_kind c" by blast
  show thesis by (rule that [OF c RegisterTransport_ok [OF tr(1)] tr(2)])
qed

lemma new_transport_no_panic: "tr_Config t \<noteq> None \<Longrightarrow> \<not> panics (new_transport env tm t)"
  by (auto simp: new_transport_def split: option.splits TransportConfig.splits sum.splits prod.splits)

abbreviation config_kinds :: "Transport list \<Rightarrow> TransportType option list" where
  "config_kinds ts \<equiv> map (\<lambda>t. map_option config_kind (tr_Config t)) ts"

lemma new_transports_ok:
  "new_transports env tm ts = Ret (Inr tm') \<Longrightarrow> tm_typed tm \<Longrightarrow>
   None \<notin> set (config_kinds ts) \<and> distinct (config_kinds ts) \<and> tm_typed tm' \<and>
   (\<forall>ty. Some ty \<in> set (config_kinds ts) \<longrightarrow> tm_contents tm ty = None) \<and>
   dom (tm_contents tm') = dom (tm_contents tm) \<union> {ty. Some ty \<in> set (config_kinds ts)}"
proof (induction ts arbitrary: tm)
  case (Cons t ts)
  then obtain tm1 where one: "new_transport env tm t = Ret (Inr tm1)"
    and rest: "new_transports env tm1 ts = Ret (Inr tm')"
    by (auto simp: go_try_Inr_iff)
  obtain c tr where c: "tr_Config t = Some c" "tm_contents tm (config_kind c) = None"
    "tm_contents tm1 = (tm_contents tm)(config_kind c \<mapsto> tr)" "transport_kind tr = config_kind c"
    using new_transport_ok [OF one] .
  have "tm_typed tm1" using Cons.prems(2) c(3,4) by (auto simp: tm_typed_def)
  note IH = Cons.IH [OF rest this]
  have "Some (config_kind c) \<notin> set (config_kinds ts)"
    using IH c(3) by (metis fun_upd_same option.distinct(1))
  moreover have "tm_contents tm ty = None" if "Some ty \<in> set (config_kinds ts)" for ty
    using IH c(3) that by (metis fun_upd_apply option.distinct(1))
  moreover have "dom (tm_contents tm1) = insert (config_kind c) (dom (tm_contents tm))"
    unfolding c(3) by (simp only: dom_fun_upd) simp
  then have "dom (tm_contents tm') = insert (config_kind c) (dom (tm_contents tm)) \<union>
      {ty. Some ty \<in> set (config_kinds ts)}"
    using IH by argo
  moreover have "{ty. Some ty \<in> set (config_kinds (t # ts))} =
      insert (config_kind c) {ty. Some ty \<in> set (config_kinds ts)}" by (auto simp: c(1))
  ultimately show ?case using IH c(1,2) by simp
qed simp

lemma new_transports_no_panic:
  "\<forall>t \<in> set ts. tr_Config t \<noteq> None \<Longrightarrow> \<not> panics (new_transports env tm ts)"
proof (induction ts arbitrary: tm)
  case (Cons t ts)
  show ?case
  proof (cases "new_transport env tm t")
    case (Ret r)
    then show ?thesis using Cons by (cases r) auto
  next
    case (Panic x)
    then show ?thesis using new_transport_no_panic [of t env tm] Cons.prems by simp
  qed simp
qed simp

lemma New_ok:
  assumes "New env cnf = Ret (Inr fdb)"
  obtains dbM tm where "NewManager (ne_mdbx env) (cfg_Mdbx cnf) = Inr dbM"
    "new_transports env NewTransportManager (cfg_Transports cnf) = Ret (Inr tm)"
    "fdb = \<lparr>fdb_config = cnf, fdb_tm = tm, fdb_dbManager = dbM, fdb_writers = []\<rparr>"
  using assms
  by (auto simp: New_def go_try_Inr_iff split: option.split_asm sum.split_asm prod.split_asm)

lemma tm_typed_New: "tm_typed NewTransportManager"
  by (simp add: tm_typed_def)

text \<open>The servers \<open>New\<close> builds are not running: a QUIC server has no listener and no handlers yet.\<close>

definition quic_fresh :: "('e, 't, 'g, 'c, 'l) AnyTransport TransportManager \<Rightarrow> bool" where
  "quic_fresh tm \<longleftrightarrow> (\<forall>ty s. tm_contents tm ty = Some (TrQuic s) \<longrightarrow>
     quic_listener s = None \<and> quic_stopChan s = make_chan 0 \<and> quic_handlerRegistry s = [])"

lemma new_transport_quic_fresh:
  assumes "new_transport env tm t = Ret (Inr tm')" and "quic_fresh tm"
  shows "quic_fresh tm'"
proof -
  obtain c where c: "tr_Config t = Some c" using assms(1) by (cases "tr_Config t") (auto simp: new_transport_def)
  obtain ty tr where reg: "RegisterTransport tm ty tr = (None, tm')"
    and tr: "\<And>s. tr = TrQuic s \<Longrightarrow> quic_listener s = None \<and> quic_stopChan s = make_chan 0 \<and> quic_handlerRegistry s = []"
    using assms(1) unfolding new_transport_def c
    by (cases c) (fastforce simp: register_result Quic_NewServer_def split: sum.split_asm)+
  show ?thesis
    using assms(2) tr unfolding quic_fresh_def RegisterTransport_ok(2) [OF reg] by auto
qed

lemma new_transports_quic_fresh:
  "new_transports env tm ts = Ret (Inr tm') \<Longrightarrow> quic_fresh tm \<Longrightarrow> quic_fresh tm'"
  by (induction ts arbitrary: tm) (auto simp: go_try_Inr_iff dest: new_transport_quic_fresh)

lemma New_quic:
  assumes "New env cnf = Ret (Inr fdb)"
    and "Some QUICTransportType \<in> set (config_kinds (cfg_Transports cnf))"
  obtains s where "tm_contents (fdb_tm fdb) QUICTransportType = Some (TrQuic s)" "quic_listener s = None"
    "quic_stopChan s = make_chan 0"
proof -
  obtain dbM tm where tm: "new_transports env NewTransportManager (cfg_Transports cnf) = Ret (Inr tm)"
    and fdb: "fdb = \<lparr>fdb_config = cnf, fdb_tm = tm, fdb_dbManager = dbM, fdb_writers = []\<rparr>"
    using New_ok [OF assms(1)] by metis
  note ok = new_transports_ok [OF tm tm_typed_New]
  have fresh: "quic_fresh tm"
    using new_transports_quic_fresh [OF tm] by (simp add: quic_fresh_def)
  obtain tr where tr: "tm_contents tm QUICTransportType = Some tr" using ok assms(2) by auto
  then have "transport_kind tr = QUICTransportType" using ok by (simp add: tm_typed_def)
  then obtain s where s: "tr = TrQuic s" by (cases tr) (auto simp: transport_types)
  show thesis using that tr fresh unfolding s fdb quic_fresh_def by simp
qed

section \<open>Lemmas on starting\<close>

text \<open>The two handlers a started server has, for a pointer to its batch writer.\<close>

fun transport_wired :: "('e, 't, 'g, 'c, 'l) AnyTransport \<Rightarrow> nat \<Rightarrow> bool" where
  "transport_wired (TrDummy s) p = False"
| "transport_wired (TrQuic s) p =
     (map_of (quic_handlerRegistry s) WriteHandlerType =
        Some (QuicWriteHandler_HandleMessage (NewQuicWriteHandler p)) \<and>
      map_of (quic_handlerRegistry s) ReadHandlerType = Some QuicReadHandler_HandleMessage)"
| "transport_wired (TrUds s) p =
     (Uds_handler s WriteHandlerType = Some (UDSWriteHandler_HandleMessage (NewUDSWriteHandler p)) \<and>
      Uds_handler s ReadHandlerType = Some UDSReadHandler_HandleMessage)"
| "transport_wired (TrTcp s) p =
     (Tcp_handler s WriteHandlerType = Some (TCPWriteHandler_HandleMessage (NewTCPWriteHandler p)) \<and>
      Tcp_handler s ReadHandlerType = Some TCPReadHandler_HandleMessage)"
| "transport_wired (TrUdp s) p =
     (Udp_handler s WriteHandlerType = Some (UDPWriteHandler_HandleMessage (NewUDPWriteHandler p)) \<and>
      Udp_handler s ReadHandlerType = Some UDPReadHandler_HandleMessage)"

definition fdb_wired :: "('e, 't, 'g, 'c, 'l) FDB \<Rightarrow> TransportType \<Rightarrow> nat \<Rightarrow> bool" where
  "fdb_wired fdb ty p \<longleftrightarrow> (\<exists>tr. tm_contents (fdb_tm fdb) ty = Some tr \<and> transport_wired tr p)"

lemma contents_set_transport [simp]:
  "tm_contents (fdb_tm (set_transport fdb ty tr)) = (tm_contents (fdb_tm fdb))(ty \<mapsto> tr)"
  "fdb_writers (set_transport fdb ty tr) = fdb_writers fdb"
  "fdb_dbManager (set_transport fdb ty tr) = fdb_dbManager fdb"
  by (simp_all add: set_transport_def tm_contents_def)

text \<open>A new writer: nothing is pending and all workers run.\<close>

definition fresh_writer :: "BatchWriter \<Rightarrow> bool" where
  "fresh_writer bw \<longleftrightarrow> quiescent bw \<and> (\<forall>i < nat (bw_workers bw). bw_running bw ! i)"

lemma writer_of_registry: "\<exists>bw. NewBatchWriter 512 500000000 15 = Ret bw \<and> bw_inv bw \<and> fresh_writer bw"
  using NewBatchWriter_inv [of 512 500000000 15]
  by (simp add: NewBatchWriter_def quiescent_def fresh_writer_def)

definition registered ::
    "('e, 't, 'g, 'c, 'l) FDB \<Rightarrow> TransportType \<Rightarrow> ('e, 't, 'g, 'c, 'l) FDB \<Rightarrow> bool" where
  "registered fdb ty fdb' \<longleftrightarrow>
     (\<exists>bw tr. bw_inv bw \<and> fresh_writer bw \<and> fdb_writers fdb' = fdb_writers fdb @ [bw] \<and> fdb_dbManager fdb' = fdb_dbManager fdb \<and>
        tm_contents (fdb_tm fdb') = (tm_contents (fdb_tm fdb))(ty \<mapsto> tr) \<and>
        transport_wired tr (length (fdb_writers fdb)))"

lemma tRegistry_each:
  "tRegistry_quic fdb = Ret (Inr fdb') \<Longrightarrow> registered fdb QUICTransportType fdb'"
  "tRegistry_tcp fdb = Ret (Inr fdb') \<Longrightarrow> registered fdb TCPTransportType fdb'"
  "tRegistry_uds fdb = Ret (Inr fdb') \<Longrightarrow> registered fdb UDSTransportType fdb'"
  "tRegistry_udp fdb = Ret (Inr fdb') \<Longrightarrow> registered fdb UDPTransportType fdb'"
proof -
  obtain bw where bw: "NewBatchWriter 512 500000000 15 = Ret bw" "bw_inv bw" "fresh_writer bw"
    using writer_of_registry by blast
  note defs = GetTransportByType_def Let_def bw(1) registered_def
  show "tRegistry_quic fdb = Ret (Inr fdb') \<Longrightarrow> registered fdb QUICTransportType fdb'"
    by (auto simp: tRegistry_quic_def defs Quic_RegisterHandler_def bw(2,3)
        split: sum.split_asm AnyTransport.split_asm intro!: exI [of _ "TrQuic _"])
  show "tRegistry_tcp fdb = Ret (Inr fdb') \<Longrightarrow> registered fdb TCPTransportType fdb'"
    by (auto simp: tRegistry_tcp_def defs tcp.lookup_register bw(2,3)
        split: sum.split_asm AnyTransport.split_asm intro!: exI [of _ "TrTcp _"])
  show "tRegistry_uds fdb = Ret (Inr fdb') \<Longrightarrow> registered fdb UDSTransportType fdb'"
    by (auto simp: tRegistry_uds_def defs uds.lookup_register bw(2,3)
        split: sum.split_asm AnyTransport.split_asm intro!: exI [of _ "TrUds _"])
  show "tRegistry_udp fdb = Ret (Inr fdb') \<Longrightarrow> registered fdb UDPTransportType fdb'"
    by (auto simp: tRegistry_udp_def defs udp.lookup_register bw(2,3)
        split: sum.split_asm AnyTransport.split_asm intro!: exI [of _ "TrUdp _"])
qed

lemma tRegistry_ok:
  "tRegistry ty = Some fn \<Longrightarrow> fn fdb = Ret (Inr fdb') \<Longrightarrow> registered fdb ty fdb'"
  using tRegistry_each [of fdb fdb'] by (auto simp: tRegistry_def split: if_splits)

lemma Transport_Start_wired:
  "Transport_Start se ty tr = Ret (r, tr') \<Longrightarrow> transport_wired tr' p = transport_wired tr p"
  by (cases tr)
     (auto simp: go_bind_Ret_iff Quic_Start_def Uds_Start_def Tcp_Start_def Udp_Start_def Let_def
        Uds_handler_def Tcp_handler_def Udp_handler_def
        split: start_outcome.splits sum.splits)

lemma start_transports_Cons:
  fixes fdb :: "('e, 't, 'g, 'c, 'l) FDB"
  assumes "start_transports se fdb (ty # tys) = Ret (None, errs, fdb')"
  obtains fn and fdb0 :: "('e, 't, 'g, 'c, 'l) FDB" and tr r tr1 errs1 where
    "tRegistry ty = Some fn" "fn fdb = Ret (Inr fdb0)" "GetTransportByType fdb0 ty = Inr tr"
    "Transport_Start se ty tr = Ret (r, tr1)"
    "start_transports se (set_transport fdb0 ty tr1) tys = Ret (None, errs1, fdb')"
    "errs = (case r of None \<Rightarrow> errs1 | Some e \<Rightarrow> e # errs1)"
proof (cases "tRegistry ty :: (('e, 't, 'g, 'c, 'l) FDB \<Rightarrow> _) option")
  case None
  then show thesis using assms by simp
next
  case (Some fn)
  obtain r0 where r0: "fn fdb = Ret r0" using assms by (auto simp: Some go_bind_Ret_iff)
  obtain fdb0 where fdb0: "r0 = Inr fdb0" using assms by (cases r0) (auto simp: Some r0)
  obtain tr where "GetTransportByType fdb0 ty = Inr tr"
    using assms by (cases "GetTransportByType fdb0 ty") (auto simp: Some r0 fdb0)
  then show thesis
    using that [OF Some r0 [unfolded fdb0]] assms by (auto simp: Some r0 fdb0 go_bind_Ret_iff)
qed

lemma start_transports_step:
  fixes fdb :: "('e, 't, 'g, 'c, 'l) FDB"
  assumes "start_transports se fdb (ty # tys) = Ret (None, errs, fdb')"
  obtains fdb1 :: "('e, 't, 'g, 'c, 'l) FDB" and errs1 where
    "start_transports se fdb1 tys = Ret (None, errs1, fdb')" "registered fdb ty fdb1"
proof (rule start_transports_Cons [OF assms])
  fix fn and fdb0 :: "('e, 't, 'g, 'c, 'l) FDB" and tr r tr1 errs1
  assume fn: "tRegistry ty = Some fn" "fn fdb = Ret (Inr fdb0)"
    and tr: "GetTransportByType fdb0 ty = Inr tr" "Transport_Start se ty tr = Ret (r, tr1)"
    and rest: "start_transports se (set_transport fdb0 ty tr1) tys = Ret (None, errs1, fdb')"
  have reg: "registered fdb ty fdb0" using tRegistry_ok [OF fn] .
  have "tm_contents (fdb_tm fdb0) ty = Some tr"
    using tr(1) by (simp add: GetTransportByType_def tmr.get_Inr_iff)
  then have "registered fdb ty (set_transport fdb0 ty tr1)"
    using reg Transport_Start_wired [OF tr(2)]
    by (auto simp: registered_def intro!: exI [of _ tr1])
  with rest show thesis by (rule that)
qed

lemma start_transports_other:
  "start_transports se fdb tys = Ret (None, errs, fdb') \<Longrightarrow>
   (ty \<notin> set tys \<longrightarrow> tm_contents (fdb_tm fdb') ty = tm_contents (fdb_tm fdb) ty) \<and>
   fdb_dbManager fdb' = fdb_dbManager fdb \<and>
   (\<exists>ws. fdb_writers fdb' = fdb_writers fdb @ ws \<and> (\<forall>bw \<in> set ws. bw_inv bw \<and> fresh_writer bw))"
proof (induction tys arbitrary: fdb errs)
  case (Cons t tys)
  obtain fdb1 errs1 where "start_transports se fdb1 tys = Ret (None, errs1, fdb')"
    and reg: "registered fdb t fdb1" using start_transports_step [OF Cons.prems] .
  from Cons.IH [OF this(1)] show ?case using reg by (auto simp: registered_def)
qed auto

lemma start_transports_wired:
  "start_transports se fdb tys = Ret (None, errs, fdb') \<Longrightarrow>
   \<exists>f. inj_on f (set tys) \<and> (\<forall>ty \<in> set tys. length (fdb_writers fdb) \<le> f ty \<and>
     f ty < length (fdb_writers fdb') \<and> fdb_wired fdb' ty (f ty))"
proof (induction tys arbitrary: fdb errs)
  case (Cons t tys)
  obtain fdb1 errs1 where rest: "start_transports se fdb1 tys = Ret (None, errs1, fdb')"
    and reg: "registered fdb t fdb1" using start_transports_step [OF Cons.prems] .
  obtain bw tr where reg': "fdb_writers fdb1 = fdb_writers fdb @ [bw]"
    "tm_contents (fdb_tm fdb1) = (tm_contents (fdb_tm fdb))(t \<mapsto> tr)"
    "transport_wired tr (length (fdb_writers fdb))" using reg by (auto simp: registered_def)
  obtain f where f: "inj_on f (set tys)" "\<forall>ty \<in> set tys. length (fdb_writers fdb) < f ty \<and>
     f ty < length (fdb_writers fdb') \<and> fdb_wired fdb' ty (f ty)"
    using Cons.IH [OF rest] reg'(1) by (force simp: Suc_le_eq)
  show ?case
  proof (cases "t \<in> set tys")
    case True
    then show ?thesis using f by (intro exI [of _ f]) (auto simp: insert_absorb)
  next
    case False
    note other = start_transports_other [OF rest, of t]
    have "fdb_wired fdb' t (length (fdb_writers fdb))"
      using other False reg' by (simp add: fdb_wired_def)
    moreover have "length (fdb_writers fdb) < length (fdb_writers fdb')" using other reg'(1) by auto
    moreover have fresh: "length (fdb_writers fdb) \<notin> f ` set tys"
      using f(2) by (metis imageE less_irrefl_nat)
    have "inj_on (f(t := length (fdb_writers fdb))) (insert t (set tys))"
      unfolding inj_on_insert using inj_on_fun_updI [OF f(1) fresh, of t] fresh False by auto
    ultimately have "inj_on (f(t := length (fdb_writers fdb))) (set (t # tys)) \<and>
      (\<forall>ty \<in> set (t # tys). length (fdb_writers fdb) \<le> (f(t := length (fdb_writers fdb))) ty \<and>
         (f(t := length (fdb_writers fdb))) ty < length (fdb_writers fdb') \<and>
         fdb_wired fdb' ty ((f(t := length (fdb_writers fdb))) ty))"
      using f(2) False by (simp add: less_imp_le)
    then show ?thesis by blast
  qed
qed simp

section \<open>Properties\<close>

text \<open>A configuration with a database node, a TCP and a UDP transport, and its environment.\<close>

definition sample_config :: Config where
  "sample_config =
     \<lparr>cfg_Logger = \<lparr>log_Enabled = False, log_Environment = [], log_Level = []\<rparr>,
      cfg_Transports =
        [\<lparr>tr_Type = TCPTransportType, tr_Enabled = False, tr_Config = Some (CTcp zero_Tcp)\<rparr>,
         \<lparr>tr_Type = UDPTransportType, tr_Enabled = True, tr_Config = Some (CUdp zero_Udp)\<rparr>],
      cfg_Mdbx = \<lparr>mdbx_Enabled = True, mdbx_Nodes = [sample_node]\<rparr>,
      cfg_Pprof = [\<lparr>pprof_Enabled = False, pprof_Name = ''fdb'', pprof_Addr = []\<rparr>]\<rparr>"

definition sample_zap :: zap_lib where
  "sample_zap =
     \<lparr>zap_ParseAtomicLevel = (\<lambda>_. Inr 0),
      zap_NewProductionConfig = \<lparr>zc_Level = 0, zc_Encoding = ''json'', zc_EncodeLevel = LowercaseLevelEncoder\<rparr>,
      zap_NewDevelopmentConfig = \<lparr>zc_Level = -1, zc_Encoding = ''console'', zc_EncodeLevel = CapitalLevelEncoder\<rparr>,
      zap_Build = (\<lambda>_. None)\<rparr>"

definition sample_env :: "(mem_store, mem_store, unit) new_env" where
  "sample_env =
     \<lparr>ne_mdbx = mem_mdbx None,
      ne_tls = \<lparr>os_Stat_IsNotExist = (\<lambda>_. True), os_ReadFile = (\<lambda>_. Inr []),
        LoadX509KeyPair = (\<lambda>_ _. Inr ()), AppendCertsFromPEM = (\<lambda>_. True)\<rparr>,
      ne_Stat_ok = (\<lambda>_. False), ne_Remove = (\<lambda>_. None), ne_zap = sample_zap\<rparr>"

definition sample_fdb :: "(mem_store, mem_store, unit, unit, unit) FDB" where
  "sample_fdb =
     \<lparr>fdb_config = sample_config,
      fdb_tm = \<lparr>tm_transports =
        [(TCPTransportType, TrTcp (projr (Tcp_NewServer zero_Tcp))),
         (UDPTransportType, TrUdp (projr (Udp_NewServer zero_Udp)))]\<rparr>,
      fdb_dbManager = \<lparr>dm_opts = cfg_Mdbx sample_config, dm_dbs = [(''fdb'', mem_db None [])]\<rparr>,
      fdb_writers = []\<rparr>"

lemma sample_New: "New sample_env sample_config = Ret (Inr sample_fdb)"
proof -
  have "NewManager (mem_mdbx None) (cfg_Mdbx sample_config) =
      Inr \<lparr>dm_opts = cfg_Mdbx sample_config, dm_dbs = [(''fdb'', mem_db None [])]\<rparr>"
    by (simp add: NewManager_def sample_config_def NewDb_mem) (simp add: sample_node_def)
  then show ?thesis
    by (simp add: New_def Config_Validate_def sample_env_def sample_config_def sample_fdb_def
        new_transport_def Tcp_NewServer_def Udp_NewServer_def RegisterTransport_def
        NewTransportManager_def go_simps)
qed

text \<open>
  A successful \<open>New\<close> has registered exactly the configured transports: every entry has a
  configuration, no two entries configure the same kind of transport, and the manager holds
  one server for each kind, under its own type. Whether an entry is enabled plays no part.
\<close>

theorem new_registers_configured:
  assumes "New env cnf = Ret (Inr fdb)"
  shows "None \<notin> set (config_kinds (cfg_Transports cnf)) \<and>
    distinct (config_kinds (cfg_Transports cnf)) \<and>
    dom (tm_contents (fdb_tm fdb)) = {ty. Some ty \<in> set (config_kinds (cfg_Transports cnf))} \<and>
    tm_typed (fdb_tm fdb) \<and> fdb_writers fdb = [] \<and> fdb_config fdb = cnf"
proof -
  obtain dbM tm where n: "new_transports env NewTransportManager (cfg_Transports cnf) = Ret (Inr tm)"
    "fdb = \<lparr>fdb_config = cnf, fdb_tm = tm, fdb_dbManager = dbM, fdb_writers = []\<rparr>"
    using New_ok [OF assms] by metis
  then show ?thesis using new_transports_ok [OF n(1) tm_typed_New] n(2) by simp
qed

theorem new_registers_configured_witness:
  "dom (tm_contents (fdb_tm sample_fdb)) =
     {ty. Some ty \<in> set (config_kinds (cfg_Transports sample_config))} \<and>
   \<not> tr_Enabled (hd (cfg_Transports sample_config))"
  using new_registers_configured [OF sample_New] by (simp add: sample_config_def)

text \<open>
  \<open>New\<close> does not panic on a configuration whose entries were all decoded from YAML: the
  decoder sets the configuration of every entry it accepts, and only an entry without one
  makes the type switch call a method on a nil interface.
\<close>

theorem new_no_panic_on_decoded_config:
  assumes "\<forall>t \<in> set (cfg_Transports cnf). \<exists>t0 node. Transport_UnmarshalYAML y t0 node = (None, t)"
  shows "\<not> panics (New env cnf :: (error + ('e, 't, 'g, 'c, 'l) FDB) go)"
proof -
  have "tr_Config t \<noteq> None" if t: "t \<in> set (cfg_Transports cnf)" for t
  proof -
    obtain t0 node where "Transport_UnmarshalYAML y t0 node = (None, t)" using assms t by blast
    from Transport_UnmarshalYAML_wf [OF this] show ?thesis
      by (cases "tr_Config t") (simp_all add: wf_Transport_def)
  qed
  then have np: "\<not> panics (new_transports env tm (cfg_Transports cnf))"
    for tm :: "('e, 't, 'g, 'c, 'l) AnyTransport TransportManager"
    using new_transports_no_panic by blast
  show ?thesis
    using np [of NewTransportManager]
    by (cases "new_transports env (NewTransportManager :: ('e, 't, 'g, 'c, 'l) AnyTransport TransportManager)
          (cfg_Transports cnf)")
       (auto simp: New_def split: option.split sum.split)
qed

theorem new_no_panic_on_decoded_config_witness:
  "\<not> panics (New sample_env (sample_config\<lparr>cfg_Transports :=
     [snd (Transport_UnmarshalYAML sample_yaml
        \<lparr>tr_Type = 0, tr_Enabled = False, tr_Config = None\<rparr> True)]\<rparr>)
       :: (error + (mem_store, mem_store, unit, unit, unit) FDB) go)"
proof -
  let ?t0 = "\<lparr>tr_Type = 0, tr_Enabled = False, tr_Config = None\<rparr> :: Transport"
  have "Transport_UnmarshalYAML sample_yaml ?t0 True =
      (None, snd (Transport_UnmarshalYAML sample_yaml ?t0 True))"
    by (simp add: Transport_UnmarshalYAML_def sample_yaml_def TcpTransport_UnmarshalYAML_def go_simps)
  then show ?thesis
    by (intro new_no_panic_on_decoded_config [where y = sample_yaml]) (auto simp del: split_paired_Ex)
qed

text \<open>
  An entry without a configuration, which the Go API accepts, makes \<open>New\<close> panic as soon as
  the loop reaches it.
\<close>

theorem new_panics_on_nil_config:
  assumes "NewManager (ne_mdbx env) (cfg_Mdbx cnf) = Inr dbM" and "\<not> log_Enabled (cfg_Logger cnf)"
    and "cfg_Transports cnf = ts @ t # ts'" and "tr_Config t = None"
    and "new_transports env (NewTransportManager :: ('e, 't, 'g, 'c, 'l) AnyTransport TransportManager) ts =
      Ret (Inr tm)"
  shows "panics (New env cnf :: (error + ('e, 't, 'g, 'c, 'l) FDB) go)"
proof -
  have "new_transports env tm0 (ts @ t # ts') = Panic ''invalid memory address or nil pointer dereference''"
    if "new_transports env tm0 ts = Ret (Inr tm)" for tm0
    using that
    by (induction ts arbitrary: tm0)
       (auto simp: new_transport_def [of _ _ t] assms(4) go_try_Inr_iff)
  from this [OF assms(5)] show ?thesis using assms(1-3) by (simp add: New_def Config_Validate_def)
qed

theorem new_panics_on_nil_config_witness:
  "panics (New sample_env (sample_config\<lparr>cfg_Transports :=
     [\<lparr>tr_Type = TCPTransportType, tr_Enabled = True, tr_Config = None\<rparr>]\<rparr>)
       :: (error + (mem_store, mem_store, unit, unit, unit) FDB) go)"
proof -
  obtain dbM where "NewManager (ne_mdbx sample_env) (cfg_Mdbx sample_config) = Inr dbM"
    using New_ok [OF sample_New] by metis
  then show ?thesis
    by (intro new_panics_on_nil_config [where ts = "[]" and dbM = dbM
          and t = "\<lparr>tr_Type = TCPTransportType, tr_Enabled = True, tr_Config = None\<rparr>"])
       (simp_all add: sample_config_def)
qed

text \<open>
  Starting wires the transports: when the loop of \<open>Start\<close> launched all requested transports,
  each of them is in the manager with its write and read handlers registered, each writes
  through a batch writer of its own made by this start, and every new batch writer satisfies
  its invariant.
\<close>

theorem start_wires_transports:
  assumes "start_transports se fdb tys = Ret (None, errs, fdb')"
  shows "(\<exists>f. inj_on f (set tys) \<and> (\<forall>ty \<in> set tys. length (fdb_writers fdb) \<le> f ty \<and>
       f ty < length (fdb_writers fdb') \<and> fdb_wired fdb' ty (f ty))) \<and>
    (\<exists>ws. fdb_writers fdb' = fdb_writers fdb @ ws \<and> (\<forall>bw \<in> set ws. bw_inv bw))"
  using start_transports_wired [OF assms] start_transports_other [OF assms] by blast

definition sample_start :: "(unit, unit) start_env" where
  "sample_start = \<lparr>se_outcome = (\<lambda>_. Booted), se_ListenAddr = (\<lambda>_ _. Inr ()), se_ListenAndServe = (\<lambda>_. Blocked),
     se_ctx_Err = None, se_first = hd\<rparr>"

lemma sample_start_transports:
  "\<exists>fdb'. start_transports sample_start sample_fdb [TCPTransportType] = Ret (None, [], fdb')"
proof -
  obtain bw where "NewBatchWriter 512 500000000 15 = Ret bw" using writer_of_registry by blast
  then show ?thesis
    by (simp add: tRegistry_def tRegistry_tcp_def sample_fdb_def GetTransportByType_def
        GetTransport_def Let_def set_transport_def Tcp_Start_def sample_start_def chan_defs
        transport_types)
qed

theorem start_wires_transports_witness:
  "\<exists>fdb' p. start_transports sample_start sample_fdb [TCPTransportType] = Ret (None, [], fdb') \<and>
     fdb_wired fdb' TCPTransportType p"
proof -
  obtain fdb' where st: "start_transports sample_start sample_fdb [TCPTransportType] = Ret (None, [], fdb')"
    using sample_start_transports by blast
  show ?thesis using st start_wires_transports [OF st] by auto
qed

text \<open>
  With pprof enabled, \<open>Start\<close> waits for the pprof server, which does not watch the context:
  once the transports are launched the call does not return while that server runs, whatever
  errors the transports reported and even after the context was cancelled.
\<close>

theorem start_blocks_on_pprof:
  assumes "GetDb (fdb_dbManager fdb) ''fdb'' = Inr db"
    and "GetPprofByServiceTag (fdb_config fdb) ''fdb'' = Inr pCfg" and "pprof_Enabled pCfg"
    and "se_ListenAndServe se (pprof_Addr pCfg) = Blocked" and "start_transports se fdb tys = Ret (None, errs, fdb')"
  shows "FDB_Start se fdb tys = Blocked"
  using assms by (simp add: FDB_Start_def Pprof_Start_def Pprof_New_def)

theorem start_blocks_on_pprof_witness:
  "FDB_Start (sample_start\<lparr>se_ctx_Err := Some (LibErr ''context.Canceled'' ''context canceled'')\<rparr>)
     (sample_fdb\<lparr>fdb_config := sample_config\<lparr>cfg_Pprof :=
        [\<lparr>pprof_Enabled = True, pprof_Name = ''fdb'', pprof_Addr = []\<rparr>]\<rparr>\<rparr>) [] = Blocked"
  by (rule start_blocks_on_pprof [where
        pCfg = "\<lparr>pprof_Enabled = True, pprof_Name = ''fdb'', pprof_Addr = []\<rparr>"])
     (simp_all add: GetDb_def sample_fdb_def GetPprofByServiceTag_def sample_start_def)

text \<open>
  The dummy transport can be configured but not started: \<open>Start\<close> refuses its type, as it does
  every type that is not QUIC, TCP, UDS or UDP, after launching the transports listed before it.
\<close>

theorem start_rejects_unlisted:
  fixes fdb :: "('e, 't, 'g, 'c, 'l) FDB"
  assumes "start_transports se fdb tys = Ret (None, errs, fdb')"
    and "ty \<notin> {QUICTransportType, TCPTransportType, UDSTransportType, UDPTransportType}"
  shows "start_transports se fdb (tys @ ty # tys') =
    Ret (Some (Errorf (''unknown transport type provided: '' @ TransportType_String ty @
      '' - rejecting serving transports'')), errs, fdb')"
  using assms(1)
proof (induction tys arbitrary: fdb errs)
  case Nil
  then show ?case using assms(2) by (simp add: tRegistry_def)
next
  case (Cons t tys)
  from Cons.prems show ?case
    by (rule start_transports_Cons) (use Cons.IH in \<open>auto split: option.split\<close>)
qed

theorem start_rejects_unlisted_witness:
  "\<exists>fdb'. start_transports sample_start sample_fdb [TCPTransportType, DummyTransportType] =
     Ret (Some (Errorf ''unknown transport type provided: dummy - rejecting serving transports''), [], fdb')"
proof -
  obtain fdb' where st: "start_transports sample_start sample_fdb [TCPTransportType] = Ret (None, [], fdb')"
    using sample_start_transports by blast
  have "TransportType_String DummyTransportType = ''dummy''"
    by (simp add: TransportType_String_def transport_types)
  then show ?thesis
    using start_rejects_unlisted [OF st, of DummyTransportType "[]"]
    by (simp add: transport_types del: start_transports.simps)
qed

end
