(* ===== verification/Float64.thy ===== *)
theory Float64
  imports Prelude Complex_Main
begin

text \<open>
  64-bit floating-point arithmetic on finite numbers, as far as the benchmark's statistics need it. A
  finite number is represented by its value, a rational; an operation computes the exact result and
  rounds it to 53 significant digits, to nearest with ties to even, as IEEE 754 prescribes. The
  exponent is unbounded: the durations and counts of the program, and their quotients and squares,
  are far from overflow and from the subnormal numbers. The sign of zero is not represented. Each
  operation is rounded by itself, as the compiler does on amd64.
\<close>

section \<open>Rounding natural numbers\<close>

text \<open>The number of binary digits.\<close>

fun bitlen :: "nat \<Rightarrow> nat" where
  "bitlen p = (if p = 0 then 0 else Suc (bitlen (p div 2)))"

declare bitlen.simps [simp del]

text \<open>Rounding to 53 significant digits, to nearest with ties to even, as IEEE 754 prescribes.\<close>

definition round_even :: "nat \<Rightarrow> nat \<Rightarrow> nat" where
  "round_even p e =
     (let q = p div 2 ^ e; r = p mod 2 ^ e; h = 2 ^ (e - 1)
      in if r < h \<or> (r = h \<and> even q) then q else q + 1)"

definition round53 :: "nat \<Rightarrow> nat" where
  "round53 p = (let e = bitlen p - 53 in if e = 0 then p else round_even p e * 2 ^ e)"

text \<open>
  \<^verbatim>\<open>int(float64(n) * c)\<close> for a constant \<open>c\<close> between one half and one, given by its 53-bit significand
  \<open>m\<close>, that is $c = m / 2^{53}$.
\<close>

definition float_index :: "nat \<Rightarrow> nat \<Rightarrow> nat" where
  "float_index m n = round53 (round53 n * m) div 2 ^ 53"

text \<open>The significands of the constants 0.9 and 0.99.\<close>

definition sig_90 :: nat where "sig_90 = 8106479329266893"

definition sig_99 :: nat where "sig_99 = 8917127262193582"

lemma bitlen_0 [simp]: "bitlen 0 = 0"
  by (simp add: bitlen.simps)

lemma bitlen_pos: "p \<noteq> 0 \<Longrightarrow> bitlen p = Suc (bitlen (p div 2))"
  by (subst bitlen.simps) simp

lemma bitlen_bounds: "p < 2 ^ bitlen p \<and> (0 < p \<longrightarrow> 2 ^ (bitlen p - 1) \<le> p)"
proof (induction p rule: bitlen.induct)
  case (1 p)
  show ?case
  proof (cases "p = 0")
    case True
    then show ?thesis by simp
  next
    case False
    have IH: "p div 2 < 2 ^ bitlen (p div 2)" "0 < p div 2 \<longrightarrow> 2 ^ (bitlen (p div 2) - 1) \<le> p div 2"
      using 1 [OF False] by simp_all
    have b: "bitlen p = Suc (bitlen (p div 2))" using False by (rule bitlen_pos)
    have "p < 2 ^ bitlen p" using IH(1) by (simp add: b)
    moreover have "2 ^ (bitlen p - 1) \<le> p"
    proof (cases "p div 2 = 0")
      case True
      then show ?thesis using False by (simp add: b)
    next
      case half: False
      then have "bitlen (p div 2) = Suc (bitlen (p div 2) - 1)" using bitlen_pos [OF half] by simp
      then have "(2::nat) ^ bitlen (p div 2) = 2 * 2 ^ (bitlen (p div 2) - 1)" by (metis power_Suc)
      also have "\<dots> \<le> 2 * (p div 2)" using IH(2) half by simp
      finally show ?thesis by (simp add: b)
    qed
    ultimately show ?thesis by blast
  qed
qed

lemma round_even_error:
  assumes "0 < e"
  shows "round_even p e * 2 ^ e \<le> p + 2 ^ (e - 1)" and "p \<le> round_even p e * 2 ^ e + 2 ^ (e - 1)"
proof -
  let ?q = "p div 2 ^ e" and ?r = "p mod 2 ^ e" and ?h = "2 ^ (e - 1) :: nat"
  have h: "2 ^ e = 2 * ?h" using assms by (cases e) simp_all
  have p: "p = ?q * 2 ^ e + ?r" by (rule div_mult_mod_eq [symmetric])
  have r: "?r < 2 ^ e" by simp
  have "round_even p e = ?q \<and> ?r \<le> ?h \<or> round_even p e = ?q + 1 \<and> ?h \<le> ?r"
    by (auto simp: round_even_def Let_def)
  then have "round_even p e * 2 ^ e = ?q * 2 ^ e \<and> ?r \<le> ?h \<or>
      round_even p e * 2 ^ e = ?q * 2 ^ e + 2 * ?h \<and> ?h \<le> ?r"
    by (metis add_mult_distrib h mult_1)
  then show "round_even p e * 2 ^ e \<le> p + ?h" "p \<le> round_even p e * 2 ^ e + ?h"
    using p r h by linarith+
qed

text \<open>The relative error is at most $2^{-53}$.\<close>

lemma round53_bounds:
  "p * (2 ^ 53 - 1) \<le> round53 p * 2 ^ 53" "round53 p * 2 ^ 53 \<le> p * (2 ^ 53 + 1)"
proof -
  have "p * (2 ^ 53 - 1) \<le> round53 p * 2 ^ 53 \<and> round53 p * 2 ^ 53 \<le> p * (2 ^ 53 + 1)"
  proof (cases "bitlen p - 53 = 0")
    case True
    then show ?thesis by (simp add: round53_def)
  next
    case False
    define e where "e = bitlen p - 53"
    have e: "0 < e" "bitlen p = e + 53" using False by (simp_all add: e_def)
    have "p \<noteq> 0" using False by (cases "p = 0") simp_all
    then have "2 ^ (e + 52) \<le> p" using bitlen_bounds [of p] e(2) by (simp add: add.commute)
    moreover have "(2::nat) ^ (e - 1) * 2 ^ 53 = 2 ^ (e + 52)"
      using e(1) by (cases e) (simp_all add: power_add)
    ultimately have err: "2 ^ (e - 1) * 2 ^ 53 \<le> p" by simp
    have r: "round53 p = round_even p e * 2 ^ e" using False by (simp add: round53_def e_def Let_def)
    have "round53 p * 2 ^ 53 \<le> (p + 2 ^ (e - 1)) * 2 ^ 53"
      unfolding r using round_even_error(1) [OF e(1)] by (rule mult_le_mono1)
    moreover have "p * 2 ^ 53 \<le> (round53 p + 2 ^ (e - 1)) * 2 ^ 53"
      unfolding r using round_even_error(2) [OF e(1)] by (rule mult_le_mono1)
    ultimately show ?thesis using err by (simp add: add_mult_distrib diff_mult_distrib2)
  qed
  then show "p * (2 ^ 53 - 1) \<le> round53 p * 2 ^ 53" "round53 p * 2 ^ 53 \<le> p * (2 ^ 53 + 1)" by simp_all
qed

lemma round53_exact: "n < 2 ^ 53 \<Longrightarrow> round53 n = n"
proof -
  assume n: "n < 2 ^ 53"
  have "bitlen n \<le> 53"
  proof (rule ccontr)
    assume "\<not> bitlen n \<le> 53"
    then have "53 \<le> bitlen n - 1" and "n \<noteq> 0" by (simp, cases "n = 0") simp_all
    then have "(2::nat) ^ 53 \<le> 2 ^ (bitlen n - 1)" by (intro power_increasing) simp_all
    also have "\<dots> \<le> n" using bitlen_bounds [of n] \<open>n \<noteq> 0\<close> by simp
    finally show False using n by simp
  qed
  then show ?thesis by (simp add: round53_def)
qed

lemma float_index_less:
  assumes "0 < n" and "n < 2 ^ 53" and "m < 2 ^ 53"
  shows "float_index m n < n"
proof -
  have "round53 (n * m) * 2 ^ 53 \<le> n * m * (2 ^ 53 + 1)" by (rule round53_bounds(2))
  also have "\<dots> \<le> n * (2 ^ 53 - 1) * (2 ^ 53 + 1)" using assms(3) by (intro mult_le_mono) simp_all
  also have "\<dots> < n * 2 ^ 53 * 2 ^ 53" using assms(1) by simp
  finally have "round53 (n * m) < n * 2 ^ 53" by simp
  then show ?thesis
    using round53_exact [OF assms(2)] by (simp add: float_index_def less_mult_imp_div_less)
qed

lemma half_le_float_index:
  assumes "n < 2 ^ 53" and "2 ^ 105 \<le> m * (2 ^ 53 - 1)"
  shows "n div 2 \<le> float_index m n"
proof -
  have "(n div 2) * 2 ^ 53 * 2 ^ 53 \<le> n * 2 ^ 105"
  proof -
    have "(n div 2) * 2 * 2 ^ 105 \<le> n * 2 ^ 105" by (intro mult_le_mono1) simp
    then show ?thesis by simp
  qed
  also have "\<dots> \<le> n * m * (2 ^ 53 - 1)" using assms(2) by (simp add: mult.assoc)
  also have "\<dots> \<le> round53 (n * m) * 2 ^ 53" by (rule round53_bounds(1))
  finally have "(n div 2) * 2 ^ 53 \<le> round53 (n * m)" by simp
  then have "n div 2 \<le> round53 (n * m) div 2 ^ 53" by (simp add: less_eq_div_iff_mult_less_eq)
  then show ?thesis using round53_exact [OF assms(1)] by (simp add: float_index_def)
qed

lemma float_index_mono:
  assumes "m * (2 ^ 53 + 1) \<le> m' * (2 ^ 53 - 1)"
  shows "float_index m n \<le> float_index m' n"
proof -
  have "round53 (round53 n * m) * 2 ^ 53 \<le> round53 n * (m * (2 ^ 53 + 1))"
    using round53_bounds(2) [of "round53 n * m"] by (simp add: mult.assoc)
  also have "\<dots> \<le> round53 n * (m' * (2 ^ 53 - 1))" using assms by (rule mult_le_mono2)
  also have "\<dots> \<le> round53 (round53 n * m') * 2 ^ 53"
    using round53_bounds(1) [of "round53 n * m'"] by (simp add: mult.assoc)
  finally have "round53 (round53 n * m) \<le> round53 (round53 n * m')" by simp
  then show ?thesis unfolding float_index_def by (rule div_le_mono)
qed

section \<open>Rounding rational numbers\<close>

text \<open>To the nearest integer, ties to even.\<close>

definition rne :: "rat \<Rightarrow> int" where
  "rne y = (let q = \<lfloor>y\<rfloor>; d = y - of_int q in if d < 1 / 2 \<or> (d = 1 / 2 \<and> even q) then q else q + 1)"

text \<open>The exponent \<open>e\<close> with $2^e \leq |x| < 2^{e+1}$.\<close>

definition exponent :: "rat \<Rightarrow> int" where
  "exponent x =
     (case quotient_of x of
        (a, b) \<Rightarrow>
          let l = int (bitlen (nat \<bar>a\<bar>)) - int (bitlen (nat b))
          in if 2 powi l \<le> \<bar>x\<bar> then l else l - 1)"

definition rnd :: "rat \<Rightarrow> rat" where
  "rnd x =
     (if x = 0 then 0
      else let e = exponent x - 52 in of_int (rne (x * 2 powi - e)) * 2 powi e)"

lemma rne_error: "\<bar>of_int (rne y) - y\<bar> \<le> 1 / 2"
proof -
  define d where "d = y - of_int \<lfloor>y\<rfloor>"
  have d: "0 \<le> d" "d < 1" unfolding d_def by linarith+
  have y: "y = of_int \<lfloor>y\<rfloor> + d" by (simp add: d_def)
  have "rne y = \<lfloor>y\<rfloor> \<and> d \<le> 1 / 2 \<or> rne y = \<lfloor>y\<rfloor> + 1 \<and> 1 / 2 \<le> d"
    unfolding rne_def Let_def d_def [symmetric] by auto
  then show ?thesis using y d by (auto simp: abs_le_iff)
qed

lemma rne_of_int [simp]: "rne (of_int q) = q"
  by (simp add: rne_def Let_def)

lemma bitlen_rat:
  assumes "0 < p"
  shows "2 powi (int (bitlen p) - 1) \<le> (of_nat p :: rat)" and "(of_nat p :: rat) < 2 powi int (bitlen p)"
proof -
  obtain m where m: "bitlen p = Suc m" using assms bitlen_pos [of p] by auto
  have "2 ^ m \<le> p" "p < 2 ^ Suc m" using bitlen_bounds [of p] assms by (simp_all add: m)
  then have "of_nat (2 ^ m) \<le> (of_nat p :: rat)" "(of_nat p :: rat) < of_nat (2 ^ Suc m)"
    by (simp_all only: of_nat_le_iff of_nat_less_iff)
  moreover have "int (Suc m) - 1 = int m" by simp
  ultimately show "2 powi (int (bitlen p) - 1) \<le> (of_nat p :: rat)" "(of_nat p :: rat) < 2 powi int (bitlen p)"
    unfolding m power_int_of_nat by (simp_all only: power_int_of_nat of_nat_power of_nat_numeral)
qed

lemma pow2_diff: "c = a - b \<Longrightarrow> (2 :: rat) powi a / 2 powi b = 2 powi c"
  by (simp add: power_int_diff)

lemma exponent_bounds:
  assumes "x \<noteq> 0"
  shows "2 powi exponent x \<le> \<bar>x\<bar>" and "\<bar>x\<bar> < 2 powi (exponent x + 1)"
proof -
  obtain a b where q: "quotient_of x = (a, b)" by fastforce
  have b: "0 < b" using q by (rule quotient_of_denom_pos)
  have x: "x = of_int a / of_int b" using q by (rule quotient_of_div)
  define A B where "A = nat \<bar>a\<bar>" and "B = nat b"
  have pos: "0 < A" "0 < B" using b x assms by (auto simp: A_def B_def)
  have ax: "\<bar>x\<bar> = of_nat A / of_nat B" using b by (simp add: x abs_divide A_def B_def)
  define l where "l = int (bitlen A) - int (bitlen B)"
  note bA = bitlen_rat [OF pos(1)] and bB = bitlen_rat [OF pos(2)]
  have "\<bar>x\<bar> < 2 powi int (bitlen A) / 2 powi (int (bitlen B) - 1)"
    unfolding ax by (rule frac_less) (use bA bB pos in auto)
  also have "\<dots> = 2 powi (l + 1)" by (rule pow2_diff) (simp add: l_def)
  finally have up: "\<bar>x\<bar> < 2 powi (l + 1)" .
  have "(2 :: rat) powi (l - 1) = 2 powi (int (bitlen A) - 1) / 2 powi int (bitlen B)"
    by (rule pow2_diff [symmetric]) (simp add: l_def)
  also have "\<dots> \<le> \<bar>x\<bar>" unfolding ax by (rule frac_le) (use bA bB pos in auto)
  finally have low: "2 powi (l - 1) \<le> \<bar>x\<bar>" .
  have "exponent x = (if 2 powi l \<le> \<bar>x\<bar> then l else l - 1)"
    by (simp add: exponent_def q Let_def l_def A_def B_def)
  then show "2 powi exponent x \<le> \<bar>x\<bar>" and "\<bar>x\<bar> < 2 powi (exponent x + 1)"
    using up low by simp_all
qed

lemma exponent_unique:
  assumes "2 powi e \<le> \<bar>x\<bar>" and "\<bar>x\<bar> < 2 powi (e + 1)"
  shows "exponent x = e"
proof -
  have "0 < (2 :: rat) powi e" by simp
  then have "x \<noteq> 0" using assms(1) by linarith
  note b = exponent_bounds [OF this]
  have "\<not> exponent x + 1 \<le> e" and "\<not> e + 1 \<le> exponent x"
    using b assms power_int_increasing [of "exponent x + 1" e "2::rat"]
      power_int_increasing [of "e + 1" "exponent x" "2::rat"] by auto
  then show ?thesis by simp
qed

text \<open>The relative error of an operation is at most $2^{-53}$.\<close>

lemma rnd_error: "\<bar>rnd x - x\<bar> \<le> \<bar>x\<bar> / 2 ^ 53"
proof (cases "x = 0")
  case False
  define e where "e = exponent x - 52"
  have "\<bar>of_int (rne (x * 2 powi - e)) - x * 2 powi - e\<bar> * 2 powi e \<le> 1 / 2 * 2 powi e"
    by (intro mult_right_mono rne_error) simp
  moreover have "\<bar>of_int (rne (x * 2 powi - e)) - x * 2 powi - e\<bar> * 2 powi e = \<bar>rnd x - x\<bar>"
  proof -
    have "\<bar>of_int (rne (x * 2 powi - e)) - x * 2 powi - e\<bar> * 2 powi e =
        \<bar>(of_int (rne (x * 2 powi - e)) - x * 2 powi - e) * 2 powi e\<bar>" by (simp add: abs_mult)
    also have "(of_int (rne (x * 2 powi - e)) - x * 2 powi - e) * 2 powi e =
        of_int (rne (x * 2 powi - e)) * 2 powi e - x * (2 powi - e * 2 powi e)"
      by (simp add: algebra_simps)
    also have "(2 :: rat) powi - e * 2 powi e = 1" by (simp flip: power_int_add)
    finally show ?thesis using False by (simp add: rnd_def e_def)
  qed
  moreover have "2 powi e * 2 ^ 52 \<le> \<bar>x\<bar>"
    using exponent_bounds(1) [OF False] power_int_diff [of "2::rat" "exponent x" 52] by (simp add: e_def)
  ultimately show ?thesis by simp
qed (simp add: rnd_def)

lemma rnd_bounds:
  assumes "0 \<le> x"
  shows "x * (1 - 1 / 2 ^ 53) \<le> rnd x" and "rnd x \<le> x * (1 + 1 / 2 ^ 53)"
proof -
  have "\<bar>rnd x - x\<bar> \<le> x / 2 ^ 53" using rnd_error [of x] assms by simp
  then have "x - x / 2 ^ 53 \<le> rnd x" "rnd x \<le> x + x / 2 ^ 53" by (simp_all only: abs_diff_le_iff)
  then show "x * (1 - 1 / 2 ^ 53) \<le> rnd x" "rnd x \<le> x * (1 + 1 / 2 ^ 53)"
    by (simp_all only: right_diff_distrib distrib_left mult_1_right times_divide_eq_right)
qed

lemma rnd_nonneg: "0 \<le> x \<Longrightarrow> 0 \<le> rnd x"
  using rnd_bounds(1) [of x] by simp

lemma rnd_pos: "0 < x \<Longrightarrow> 0 < rnd x"
  using rnd_bounds(1) [of x] by simp

lemma rnd_0 [simp]: "rnd 0 = 0"
  by (simp add: rnd_def)

lemma pow2_mult: "c = a + b \<Longrightarrow> (2 :: rat) powi a * 2 powi b = 2 powi c"
  by (simp add: power_int_add)

lemma rnd_fixed:
  assumes "x * 2 powi - (exponent x - 52) = of_int r"
  shows "rnd x = x"
proof (cases "x = 0")
  case False
  have "rnd x = x * 2 powi - (exponent x - 52) * 2 powi (exponent x - 52)"
    using False by (simp only: rnd_def Let_def assms rne_of_int if_False)
  also have "\<dots> = x * (2 powi - (exponent x - 52) * 2 powi (exponent x - 52))" by (simp only: mult.assoc)
  also have "2 powi - (exponent x - 52) * 2 powi (exponent x - 52) = (1 :: rat)"
    using pow2_mult [of 0 "- (exponent x - 52)" "exponent x - 52"] by simp
  finally show ?thesis by simp
qed simp

text \<open>Numbers with at most 53 significant digits are represented exactly.\<close>

lemma rnd_exact:
  assumes "\<bar>q\<bar> \<le> 2 ^ 53"
  shows "rnd (of_int q * 2 powi e) = of_int q * 2 powi e"
proof (cases "q = 0")
  case False
  let ?x = "of_int q * 2 powi e :: rat"
  have x: "?x \<noteq> 0" using False by simp
  have ax: "\<bar>?x\<bar> = of_int \<bar>q\<bar> * 2 powi e" by (simp add: abs_mult)
  show ?thesis
  proof (cases "\<bar>q\<bar> < 2 ^ 53")
    case True
    have "(of_int \<bar>q\<bar> :: rat) < 2 ^ 53" using True by (metis of_int_less_iff of_int_numeral of_int_power)
    then have "\<bar>?x\<bar> < 2 ^ 53 * 2 powi e" unfolding ax by (intro mult_strict_right_mono) simp_all
    also have "2 ^ 53 * 2 powi e = (2 :: rat) powi (e + 53)" using pow2_mult [of "e + 53" 53 e] by simp
    finally have "2 powi exponent ?x < (2 :: rat) powi (e + 53)" using exponent_bounds(1) [OF x] by linarith
    then have "\<not> e + 53 \<le> exponent ?x" using power_int_increasing [of "e + 53" "exponent ?x" "2 :: rat"] by linarith
    then have n: "int (nat (e - (exponent ?x - 52))) = e + - (exponent ?x - 52)" by simp
    have "?x * 2 powi - (exponent ?x - 52) = of_int q * 2 powi int (nat (e - (exponent ?x - 52)))"
      by (simp only: mult.assoc pow2_mult [OF n])
    also have "\<dots> = of_int (q * 2 ^ nat (e - (exponent ?x - 52)))"
      by (simp only: power_int_of_nat of_int_mult of_int_power of_int_numeral)
    finally show ?thesis by (rule rnd_fixed)
  next
    case big: False
    then have q: "\<bar>q\<bar> = 2 ^ 53" using assms by simp
    have "exponent ?x = e + 53"
    proof (rule exponent_unique)
      have "\<bar>?x\<bar> = 2 powi 53 * 2 powi e" unfolding ax q by simp
      also have "\<dots> = 2 powi (e + 53)" by (rule pow2_mult) simp
      finally show "2 powi (e + 53) \<le> \<bar>?x\<bar>" "\<bar>?x\<bar> < 2 powi (e + 53 + 1)"
        using power_int_strict_increasing [of "e + 53" "e + 53 + 1" "2 :: rat"] by simp_all
    qed
    then have k: "- (exponent ?x - 52) = - e - 1" by simp
    have one: "- 1 = e + (- e - 1)" by simp
    have "?x * 2 powi - (exponent ?x - 52) = of_int q * 2 powi - 1"
      by (simp only: k mult.assoc pow2_mult [OF one])
    also have "\<dots> = of_int (sgn q * 2 ^ 52)"
    proof -
      have "q = sgn q * \<bar>q\<bar>" by (simp add: sgn_mult_abs)
      then have "q = sgn q * 2 ^ 52 * 2" using q by simp
      then have "(of_int q :: rat) = of_int (sgn q * 2 ^ 52) * 2" by (metis of_int_mult of_int_numeral)
      then show ?thesis by (simp add: power_int_minus)
    qed
    finally show ?thesis by (rule rnd_fixed)
  qed
qed simp

lemma rnd_of_int: "\<bar>q\<bar> \<le> 2 ^ 53 \<Longrightarrow> rnd (of_int q) = of_int q"
  using rnd_exact [of q 0] by simp

lemma rnd_idem [simp]: "rnd (rnd x) = rnd x"
proof (cases "x = 0")
  case False
  define e where "e = exponent x - 52"
  define y where "y = x * 2 powi - e"
  have "\<bar>y\<bar> = \<bar>x\<bar> * 2 powi - e" by (simp add: y_def abs_mult)
  also have "\<dots> < 2 powi (exponent x + 1) * 2 powi - e"
    by (intro mult_strict_right_mono exponent_bounds(2) False) simp
  also have "\<dots> = 2 powi 53" by (rule pow2_mult) (simp add: e_def)
  finally have "\<bar>y\<bar> < 2 ^ 53" by simp
  then have "\<bar>of_int (rne y)\<bar> < (2 ^ 53 + 1 :: rat)" using rne_error [of y] by linarith
  then have "of_int \<bar>rne y\<bar> < (of_int (2 ^ 53 + 1) :: rat)" by simp
  then have "\<bar>rne y\<bar> \<le> 2 ^ 53" by (simp only: of_int_less_iff)
  then show ?thesis
    using rnd_exact [of "rne y" e] False by (simp add: rnd_def Let_def y_def e_def)
qed simp

section \<open>The two views agree\<close>

text \<open>On natural numbers and on products with a constant, \<open>rnd\<close> is the rounding of the first section.\<close>

lemma rne_div:
  assumes "0 < e"
  shows "rne (of_nat p / 2 ^ e) = int (round_even p e)"
proof -
  have fl: "\<lfloor>of_nat p / (2 :: rat) ^ e\<rfloor> = int (p div 2 ^ e)"
    using floor_divide_of_nat_eq [of p "2 ^ e", where 'a = rat] by simp
  have "(of_nat p :: rat) = of_nat (p div 2 ^ e * 2 ^ e + p mod 2 ^ e)" by (simp only: div_mult_mod_eq)
  also have "\<dots> = of_nat (p div 2 ^ e) * 2 ^ e + of_nat (p mod 2 ^ e)"
    by (simp only: of_nat_add of_nat_mult of_nat_power of_nat_numeral)
  finally have "of_nat p / (2 :: rat) ^ e = (of_nat (p div 2 ^ e) * 2 ^ e + of_nat (p mod 2 ^ e)) / 2 ^ e"
    by (rule arg_cong)
  then have d: "of_nat p / (2 :: rat) ^ e - of_int (int (p div 2 ^ e)) = of_nat (p mod 2 ^ e) / 2 ^ e"
    by (simp only: add_divide_distrib of_int_of_nat_eq) simp
  have two: "(2 :: rat) ^ e = 2 * 2 ^ (e - 1)" using assms by (cases e) simp_all
  have "of_nat (p mod 2 ^ e) / (2 :: rat) ^ e < 1 / 2 \<longleftrightarrow> (of_nat (p mod 2 ^ e) :: rat) < of_nat (2 ^ (e - 1))"
    unfolding two by (simp add: field_simps)
  then have lt: "of_nat (p mod 2 ^ e) / (2 :: rat) ^ e < 1 / 2 \<longleftrightarrow> p mod 2 ^ e < 2 ^ (e - 1)"
    by (simp only: of_nat_less_iff)
  have "of_nat (p mod 2 ^ e) / (2 :: rat) ^ e = 1 / 2 \<longleftrightarrow> (of_nat (p mod 2 ^ e) :: rat) = of_nat (2 ^ (e - 1))"
    unfolding two by (auto simp: field_simps)
  then have eq: "of_nat (p mod 2 ^ e) / (2 :: rat) ^ e = 1 / 2 \<longleftrightarrow> p mod 2 ^ e = 2 ^ (e - 1)"
    by (simp only: of_nat_eq_iff)
  show ?thesis unfolding rne_def round_even_def Let_def fl d lt eq by simp
qed

lemma exponent_of_nat: "0 < p \<Longrightarrow> exponent (of_nat p) = int (bitlen p) - 1"
  by (rule exponent_unique) (use bitlen_rat [of p] in simp_all)

lemma rnd_of_nat: "rnd (of_nat p) = of_nat (round53 p)"
proof (cases "bitlen p \<le> 53")
  case True
  then have "p < 2 ^ 53"
    using bitlen_bounds [of p] power_increasing [of "bitlen p" 53 "2 :: nat"] by linarith
  then show ?thesis using rnd_of_int [of "int p"] round53_exact [of p] by simp
next
  case False
  define e where "e = bitlen p - 53"
  have e: "0 < e" using False by (simp add: e_def)
  have p: "0 < p" using False by (cases "p = 0") simp_all
  have ex: "exponent (of_nat p) - 52 = int e" using exponent_of_nat [OF p] False by (simp add: e_def)
  have "rnd (of_nat p) = of_int (rne (of_nat p * 2 powi - int e)) * 2 powi int e"
    using p by (simp add: rnd_def Let_def ex)
  also have "of_nat p * 2 powi - int e = (of_nat p / 2 ^ e :: rat)"
    by (simp add: power_int_minus divide_inverse)
  finally show ?thesis using e by (simp add: rne_div round53_def Let_def flip: e_def)
qed

lemma rnd_scale: "rnd (x * 2 powi k) = rnd x * 2 powi k"
proof (cases "x = 0")
  case False
  have ax: "\<bar>x * 2 powi k\<bar> = \<bar>x\<bar> * 2 powi k" by (simp add: abs_mult)
  have "exponent (x * 2 powi k) = exponent x + k"
  proof (rule exponent_unique)
    have "2 powi (exponent x + k) = 2 powi exponent x * (2 :: rat) powi k" by (rule pow2_mult [symmetric]) simp
    also have "\<dots> \<le> \<bar>x * 2 powi k\<bar>" unfolding ax using exponent_bounds(1) [OF False] by (intro mult_right_mono) simp_all
    finally show "2 powi (exponent x + k) \<le> \<bar>x * 2 powi k\<bar>" .
    have "\<bar>x * 2 powi k\<bar> < 2 powi (exponent x + 1) * 2 powi k"
      unfolding ax using exponent_bounds(2) [OF False] by (intro mult_strict_right_mono) simp_all
    also have "\<dots> = 2 powi (exponent x + k + 1)" by (rule pow2_mult) simp
    finally show "\<bar>x * 2 powi k\<bar> < 2 powi (exponent x + k + 1)" .
  qed
  then have e: "exponent (x * 2 powi k) - 52 = (exponent x - 52) + k" by simp
  have m: "- (exponent x - 52) = k + - (exponent x - 52 + k)" by simp
  have "x * 2 powi k * 2 powi - (exponent x - 52 + k) = x * 2 powi - (exponent x - 52)"
    by (simp only: mult.assoc pow2_mult [OF m])
  moreover have "(2 :: rat) powi (exponent x - 52 + k) = 2 powi (exponent x - 52) * 2 powi k"
    by (rule pow2_mult [symmetric]) simp
  moreover have "x * 2 powi k \<noteq> 0" using False by simp
  ultimately show ?thesis using False by (simp only: rnd_def Let_def e if_False mult.assoc)
qed simp

lemma float_index_rnd: "int (float_index m n) = \<lfloor>rnd (rnd (of_nat n) * (of_nat m / 2 ^ 53))\<rfloor>"
proof -
  have two: "z * 2 powi - 53 = z / (2 :: rat) ^ 53" for z by (simp add: power_int_minus)
  have "rnd (of_nat n) * (of_nat m / 2 ^ 53) = of_nat (round53 n * m) * 2 powi - 53"
    by (simp only: two rnd_of_nat of_nat_mult times_divide_eq_right)
  then have "rnd (rnd (of_nat n) * (of_nat m / 2 ^ 53)) = of_nat (round53 (round53 n * m)) * 2 powi - 53"
    by (simp only: rnd_scale rnd_of_nat)
  also have "\<dots> = of_nat (round53 (round53 n * m)) / of_nat (2 ^ 53)"
    by (simp only: two of_nat_power of_nat_numeral)
  finally have "rnd (rnd (of_nat n) * (of_nat m / 2 ^ 53)) = of_nat (round53 (round53 n * m)) / of_nat (2 ^ 53)" .
  then show ?thesis by (simp only: floor_divide_of_nat_eq float_index_def)
qed

text \<open>The significands are those of the constants as the compiler rounds them.\<close>

lemma sig_90_rnd: "rnd (9 / 10) = of_nat sig_90 / 2 ^ 53"
proof -
  have "exponent (9 / 10) = - 1" by (rule exponent_unique) (simp_all add: power_int_minus)
  moreover have "\<lfloor>40532396646334464 / 5 :: rat\<rfloor> = 8106479329266892" by (simp add: floor_eq_iff)
  ultimately show ?thesis by (simp add: rnd_def rne_def Let_def sig_90_def power_int_minus)
qed

lemma sig_99_rnd: "rnd (99 / 100) = of_nat sig_99 / 2 ^ 53"
proof -
  have "exponent (99 / 100) = - 1" by (rule exponent_unique) (simp_all add: power_int_minus)
  moreover have "\<lfloor>222928181554839552 / 25 :: rat\<rfloor> = 8917127262193582" by (simp add: floor_eq_iff)
  ultimately show ?thesis by (simp add: rnd_def rne_def Let_def sig_99_def power_int_minus)
qed

section \<open>Square roots\<close>

text \<open>The integer square root, two binary digits at a time.\<close>

fun isqrt :: "nat \<Rightarrow> nat" where
  "isqrt n = (if n = 0 then 0 else let r = 2 * isqrt (n div 4) in if (r + 1)\<^sup>2 \<le> n then r + 1 else r)"

declare isqrt.simps [simp del]

text \<open>The nearest integer to the root, ties to even.\<close>

definition root_rne :: "rat \<Rightarrow> nat" where
  "root_rne y =
     (let q = isqrt (nat \<lfloor>y\<rfloor>); m = (of_nat q + 1 / 2)\<^sup>2
      in if m < y \<or> (m = y \<and> odd q) then q + 1 else q)"

text \<open>
  \<^verbatim>\<open>math.Sqrt\<close> of a number that is not negative: scaled by a power of four so that the root has 53 digits
  before the point, then rounded.
\<close>

definition sqrt64 :: "rat \<Rightarrow> rat" where
  "sqrt64 v =
     (if v = 0 then 0
      else let k = (exponent v - 104) div 2
           in of_nat (root_rne (v * 2 powi - (2 * k))) * 2 powi k)"

lemma isqrt_bounds: "(isqrt n)\<^sup>2 \<le> n \<and> n < (isqrt n + 1)\<^sup>2"
proof (induction n rule: isqrt.induct)
  case (1 n)
  show ?case
  proof (cases "n = 0")
    case True
    then show ?thesis by (simp add: isqrt.simps)
  next
    case False
    define r where "r = isqrt (n div 4)"
    have IH: "r\<^sup>2 \<le> n div 4" "n div 4 < (r + 1)\<^sup>2" using 1 [OF False] by (simp_all add: r_def)
    have low: "(2 * r)\<^sup>2 \<le> n" using IH(1) by (simp add: power2_eq_square)
    have "n < 4 * (r + 1)\<^sup>2" using IH(2) by linarith
    also have "\<dots> = (2 * r + 2)\<^sup>2" by (simp add: power2_eq_square algebra_simps)
    finally have "n < (2 * r + 2)\<^sup>2" .
    moreover have "isqrt n = (if (2 * r + 1)\<^sup>2 \<le> n then 2 * r + 1 else 2 * r)"
      using False by (subst isqrt.simps) (simp add: r_def Let_def)
    ultimately show ?thesis using low by (auto simp: not_le numeral_eq_Suc)
  qed
qed

lemma isqrt_floor:
  fixes y :: rat
  assumes "0 \<le> y"
  shows "(of_nat (isqrt (nat \<lfloor>y\<rfloor>)))\<^sup>2 \<le> y" and "y < (of_nat (isqrt (nat \<lfloor>y\<rfloor>)) + 1)\<^sup>2"
proof -
  let ?n = "isqrt (nat \<lfloor>y\<rfloor>)"
  have f: "(of_nat (nat \<lfloor>y\<rfloor>) :: rat) = of_int \<lfloor>y\<rfloor>" using assms by simp
  have "(of_nat (?n\<^sup>2) :: rat) \<le> of_nat (nat \<lfloor>y\<rfloor>)" "(of_nat (nat \<lfloor>y\<rfloor> + 1) :: rat) \<le> of_nat ((?n + 1)\<^sup>2)"
    using isqrt_bounds [of "nat \<lfloor>y\<rfloor>"] unfolding of_nat_le_iff by simp_all
  then have "(of_nat ?n)\<^sup>2 \<le> (of_int \<lfloor>y\<rfloor> :: rat)" "of_int \<lfloor>y\<rfloor> + 1 \<le> (of_nat ?n + 1 :: rat)\<^sup>2"
    using f by (simp_all add: add.commute)
  then show "(of_nat ?n)\<^sup>2 \<le> y" "y < (of_nat ?n + 1)\<^sup>2"
    using of_int_floor_le [of y] floor_correct [of y] by linarith+
qed

lemma root_rne_bounds:
  assumes "(2 :: rat) ^ 104 \<le> y"
  shows "(2 :: rat) ^ 52 \<le> of_nat (root_rne y)" and "(of_nat (root_rne y) - 1 / 2)\<^sup>2 \<le> y"
    and "y \<le> (of_nat (root_rne y) + 1 / 2)\<^sup>2"
proof -
  have "0 \<le> y" by (rule order_trans [OF _ assms]) simp
  note sq = isqrt_floor [OF this]
  define n where "n = isqrt (nat \<lfloor>y\<rfloor>)"
  have n52: "(2 :: rat) ^ 52 \<le> of_nat n"
  proof (rule ccontr)
    assume "\<not> (2 :: rat) ^ 52 \<le> of_nat n"
    then have "of_nat n < (of_nat (2 ^ 52) :: rat)" by simp
    then have "n + 1 \<le> 2 ^ 52" by (simp only: of_nat_less_iff)
    then have "(of_nat (n + 1) :: rat) \<le> of_nat (2 ^ 52)" by (simp only: of_nat_le_iff)
    then have "(of_nat n + 1)\<^sup>2 \<le> ((2 :: rat) ^ 52)\<^sup>2" by (intro power_mono) simp_all
    also have "\<dots> \<le> y" using assms by simp
    finally show False using sq(2) by (simp add: n_def)
  qed
  have r: "root_rne y = (if (of_nat n + 1 / 2)\<^sup>2 < y \<or> ((of_nat n + 1 / 2)\<^sup>2 = y \<and> odd n) then n + 1 else n)"
    by (simp add: root_rne_def n_def Let_def)
  show "(2 :: rat) ^ 52 \<le> of_nat (root_rne y)" using n52 by (simp add: r)
  have "(of_nat n - 1 / 2)\<^sup>2 \<le> (of_nat n :: rat)\<^sup>2"
    by (rule power_mono) (use order_trans [OF _ n52, of "1 / 2"] in simp_all)
  then show "(of_nat (root_rne y) - 1 / 2)\<^sup>2 \<le> y" using sq(1) by (auto simp: r n_def algebra_simps)
  have "(1 + of_nat n :: rat)\<^sup>2 \<le> (of_nat n + 3 / 2)\<^sup>2" by (intro power_mono) simp_all
  moreover have "y < (1 + of_nat n)\<^sup>2" using sq(2) by (simp add: n_def add.commute)
  ultimately have "y \<le> (of_nat n + 3 / 2)\<^sup>2" by linarith
  then show "y \<le> (of_nat (root_rne y) + 1 / 2)\<^sup>2" unfolding r by (auto simp: not_less algebra_simps)
qed

lemma sqrt64_0 [simp]: "sqrt64 0 = 0"
  by (simp add: sqrt64_def)

text \<open>The root is off by at most half a unit in its last place.\<close>

lemma sqrt64_error:
  assumes "0 \<le> v"
  shows "0 \<le> sqrt64 v" and "(sqrt64 v * (1 - 1 / 2 ^ 53))\<^sup>2 \<le> v" and "v \<le> (sqrt64 v * (1 + 1 / 2 ^ 53))\<^sup>2"
proof -
  have "0 \<le> sqrt64 v \<and> (sqrt64 v * (1 - 1 / 2 ^ 53))\<^sup>2 \<le> v \<and> v \<le> (sqrt64 v * (1 + 1 / 2 ^ 53))\<^sup>2"
  proof (cases "v = 0")
    case False
    define k where "k = (exponent v - 104) div 2"
    define y where "y = v * 2 powi - (2 * k)"
    define s where "s = (of_nat (root_rne y) :: rat)"
    have root: "sqrt64 v = s * 2 powi k" using False by (simp add: sqrt64_def Let_def s_def y_def k_def)
    have one: "0 = - (2 * k) + (k + k)" by simp
    have "y * (2 powi k)\<^sup>2 = v * (2 powi - (2 * k) * 2 powi (k + k))"
      by (simp only: y_def power2_eq_square mult.assoc pow2_mult [OF refl])
    then have v: "v = y * (2 powi k)\<^sup>2" by (simp only: pow2_mult [OF one]) simp
    have "(2 :: rat) powi 104 \<le> 2 powi (exponent v - 2 * k)"
      by (rule power_int_increasing) (simp_all add: k_def)
    also have "\<dots> = 2 powi exponent v * 2 powi - (2 * k)" by (rule pow2_mult [symmetric]) simp
    also have "\<dots> \<le> y" unfolding y_def
      using exponent_bounds(1) [OF False] assms by (intro mult_right_mono) simp_all
    finally have y: "2 ^ 104 \<le> y" by simp
    note b = root_rne_bounds [OF y, folded s_def]
    have half: "1 / 2 \<le> s / 2 ^ 53" "0 \<le> s" "1 / 2 \<le> s" using b(1) by simp_all
    have "(s * (1 - 1 / 2 ^ 53))\<^sup>2 \<le> (s - 1 / 2)\<^sup>2" "(s + 1 / 2)\<^sup>2 \<le> (s * (1 + 1 / 2 ^ 53))\<^sup>2"
      using half by (intro power_mono; simp add: algebra_simps)+
    then have "(s * (1 - 1 / 2 ^ 53))\<^sup>2 \<le> y" "y \<le> (s * (1 + 1 / 2 ^ 53))\<^sup>2" using b(2,3) by linarith+
    then have "(s * (1 - 1 / 2 ^ 53))\<^sup>2 * (2 powi k)\<^sup>2 \<le> y * (2 powi k)\<^sup>2"
      "y * (2 powi k)\<^sup>2 \<le> (s * (1 + 1 / 2 ^ 53))\<^sup>2 * (2 powi k)\<^sup>2"
      by (intro mult_right_mono; simp)+
    then have "(s * (1 - 1 / 2 ^ 53) * 2 powi k)\<^sup>2 \<le> v" "v \<le> (s * (1 + 1 / 2 ^ 53) * 2 powi k)\<^sup>2"
      unfolding power_mult_distrib v [symmetric] .
    then show ?thesis using half(2) unfolding root by (simp only: mult_ac zero_le_mult_iff) simp
  qed simp
  then show "0 \<le> sqrt64 v" "(sqrt64 v * (1 - 1 / 2 ^ 53))\<^sup>2 \<le> v" "v \<le> (sqrt64 v * (1 + 1 / 2 ^ 53))\<^sup>2"
    by blast+
qed

end
