(* ===== verification/Benchmark_Report.thy ===== *)
theory Benchmark_Report
  imports Messages Float64 "HOL-Library.Signed_Division" "HOL-Library.Multiset"
begin

text \<open>
  The benchmark report, \<^verbatim>\<open>src/benchmark/report.go\<close>, and the messages the benchmark sends,
  \<^verbatim>\<open>src/benchmark/helpers.go\<close>. Durations are 64-bit counts of nanoseconds. The percentile indices, the
  throughput and the jitter are computed in 64-bit floating point, by the operations of the theory
  \<open>Float64\<close>.
\<close>

section \<open>Integers and floating point\<close>

text \<open>A result of 64-bit signed arithmetic.\<close>

definition wrap64 :: "int \<Rightarrow> int" where
  "wrap64 i = signed_take_bit 63 i"

text \<open>\<^verbatim>\<open>xs[i]\<close>\<close>

definition go_index :: "'a list \<Rightarrow> nat \<Rightarrow> 'a go" where
  "go_index xs i = (if i < length xs then Ret (xs ! i) else Panic ''index out of range'')"

text \<open>\<^verbatim>\<open>d.Seconds()\<close> of a \<^verbatim>\<open>time.Duration\<close>\<close>

definition Duration_Seconds :: "int \<Rightarrow> rat" where
  "Duration_Seconds d =
     (let sec = signed_divide d 1000000000; nsec = signed_modulo d 1000000000
      in rnd (rnd (of_int sec) + rnd (rnd (of_int nsec) / 1000000000)))"

section \<open>The report\<close>

record Report =
  TotalClients :: int
  MessagesPerClient :: int
  TotalMessages :: int
  SuccessMessages :: int
  FailedMessages :: int
  TotalDuration :: int
  AvgLatency :: int
  Throughput :: rat
  MemoryUsed :: "64 word"
  LatencyHistogram :: "int list"
  Jitter :: rat
  LatencyStdDev :: rat
  P50Latency :: int
  P90Latency :: int
  P99Latency :: int

definition NewReport :: Report where
  "NewReport = \<lparr>TotalClients = 0, MessagesPerClient = 0, TotalMessages = 0, SuccessMessages = 0,
     FailedMessages = 0, TotalDuration = 0, AvgLatency = 0, Throughput = 0, MemoryUsed = 0,
     LatencyHistogram = [], Jitter = 0, LatencyStdDev = 0, P50Latency = 0, P90Latency = 0, P99Latency = 0\<rparr>"

definition calculateStdDev :: "int list \<Rightarrow> rat" where
  "calculateStdDev latencies =
     (if length latencies = 0 then 0
      else
        let total = foldl (\<lambda>total latency. wrap64 (total + latency)) 0 latencies;
            mean = rnd (Duration_Seconds total / rnd (of_nat (length latencies)));
            variance = foldl (\<lambda>variance latency.
              let diff = rnd (Duration_Seconds latency - mean)
              in rnd (variance + rnd (diff * diff))) 0 latencies;
            variance = rnd (variance / rnd (of_nat (length latencies)))
        in sqrt64 variance)"

text \<open>
  \<open>Finalize\<close>; what the runtime reports as allocated memory is an input. Sorting durations leaves no
  choice, since equal ones are indistinguishable.
\<close>

definition Finalize :: "64 word \<Rightarrow> Report \<Rightarrow> Report go" where
  "Finalize memory r =
     (let r = r\<lparr>TotalMessages := wrap64 (TotalClients r * MessagesPerClient r)\<rparr>;
          totalLatency = foldl (\<lambda>total latency. wrap64 (total + latency)) 0 (LatencyHistogram r);
          n = length (LatencyHistogram r)
      in go_bind
           (if 0 < n
            then
              let r = r\<lparr>AvgLatency := wrap64 (signed_divide totalLatency (int n))\<rparr>;
                  r = r\<lparr>LatencyHistogram := sort (LatencyHistogram r)\<rparr>
              in go_bind (go_index (LatencyHistogram r) (n div 2)) (\<lambda>p50.
                 go_bind (go_index (LatencyHistogram r) (float_index sig_90 n)) (\<lambda>p90.
                 go_bind (go_index (LatencyHistogram r) (float_index sig_99 n)) (\<lambda>p99.
                   Ret (r\<lparr>P50Latency := p50, P90Latency := p90, P99Latency := p99\<rparr>))))
            else Ret r)
           (\<lambda>r.
              let r = (if 0 < Duration_Seconds (TotalDuration r)
                       then r\<lparr>Throughput := rnd (rnd (of_int (SuccessMessages r)) / Duration_Seconds (TotalDuration r))\<rparr>
                       else r\<lparr>Throughput := 0\<rparr>);
                  r = r\<lparr>MemoryUsed := memory\<rparr>
              in Ret (r\<lparr>Jitter := calculateStdDev (LatencyHistogram r)\<rparr>)))"

section \<open>Benchmark messages\<close>

text \<open>The random key is an input; an error of the random source is ignored and leaves zeros.\<close>

definition createWriteMessage :: "bytes \<Rightarrow> Message" where
  "createWriteMessage key =
     \<lparr>msg_Handler = WriteHandlerType, msg_Key = key,
      msg_Data = bytes_of_string ''benchmark test data''\<rparr>"

definition createReadMessage :: "bytes \<Rightarrow> Message" where
  "createReadMessage key = \<lparr>msg_Handler = ReadHandlerType, msg_Key = key, msg_Data = []\<rparr>"

section \<open>Lemmas on samples\<close>

lemma sorted_count_le:
  fixes xs :: "int list"
  assumes "i < length xs"
  shows "i < length (filter (\<lambda>x. x \<le> sort xs ! i) xs)"
proof -
  let ?s = "sort xs"
  have all: "filter (\<lambda>x. x \<le> ?s ! i) (take (Suc i) ?s) = take (Suc i) ?s"
  proof (rule filter_True, rule ballI)
    fix x assume "x \<in> set (take (Suc i) ?s)"
    then obtain j where "j < Suc i" "j < length xs" "x = ?s ! j"
      by (auto simp: in_set_conv_nth)
    then show "x \<le> ?s ! i" using assms by (auto intro: sorted_nth_mono)
  qed
  have "length (filter (\<lambda>x. x \<le> ?s ! i) ?s) =
      length (filter (\<lambda>x. x \<le> ?s ! i) (take (Suc i) ?s @ drop (Suc i) ?s))" by simp
  then have "Suc i \<le> length (filter (\<lambda>x. x \<le> ?s ! i) ?s)"
    unfolding filter_append all using assms by simp
  moreover have "mset (filter (\<lambda>x. x \<le> ?s ! i) ?s) = mset (filter (\<lambda>x. x \<le> ?s ! i) xs)"
    by (metis mset_filter mset_sort)
  ultimately show ?thesis by (metis Suc_le_eq size_mset)
qed

text \<open>\<open>approx k x y\<close>: \<open>x\<close> is computed from \<open>y\<close> with at most \<open>k\<close> roundings.\<close>

definition approx :: "nat \<Rightarrow> rat \<Rightarrow> rat \<Rightarrow> bool" where
  "approx k x y \<longleftrightarrow> 0 \<le> y \<and> y * (1 - 1 / 2 ^ 53) ^ k \<le> x \<and> x \<le> y * (1 + 1 / 2 ^ 53) ^ k"

lemma approx_exact: "0 \<le> y \<Longrightarrow> approx 0 y y"
  by (simp add: approx_def)

lemma approx_nonneg: "approx k x y \<Longrightarrow> 0 \<le> x"
  unfolding approx_def by (rule order_trans [of 0 "y * (1 - 1 / 2 ^ 53) ^ k"]) simp_all

lemma approx_pos: "approx k x y \<Longrightarrow> 0 < y \<Longrightarrow> 0 < x"
  unfolding approx_def by (rule less_le_trans [of 0 "y * (1 - 1 / 2 ^ 53) ^ k"]) simp_all

lemma approx_rnd:
  assumes "approx k x y"
  shows "approx (Suc k) (rnd x) y"
proof -
  have x: "0 \<le> x" using assms by (rule approx_nonneg)
  have "y * (1 - 1 / 2 ^ 53) ^ k * (1 - 1 / 2 ^ 53) \<le> x * (1 - 1 / 2 ^ 53)"
    "x * (1 + 1 / 2 ^ 53) \<le> y * (1 + 1 / 2 ^ 53) ^ k * (1 + 1 / 2 ^ 53)"
    using assms unfolding approx_def by (intro mult_right_mono; simp)+
  then show ?thesis
    using rnd_bounds [OF x] assms unfolding approx_def power_Suc2 mult.assoc [symmetric] by auto
qed

lemma approx_weaken:
  assumes "approx k x y" and "k \<le> n"
  shows "approx n x y"
proof -
  have "(1 - 1 / 2 ^ 53) ^ n \<le> (1 - 1 / 2 ^ 53 :: rat) ^ k" using assms(2) by (intro power_decreasing) simp_all
  moreover have "(1 + 1 / 2 ^ 53 :: rat) ^ k \<le> (1 + 1 / 2 ^ 53) ^ n" using assms(2) by (intro power_increasing) simp_all
  ultimately have "y * (1 - 1 / 2 ^ 53) ^ n \<le> y * (1 - 1 / 2 ^ 53) ^ k" "y * (1 + 1 / 2 ^ 53) ^ k \<le> y * (1 + 1 / 2 ^ 53) ^ n"
    using assms(1) unfolding approx_def by (auto intro: mult_left_mono)
  then show ?thesis using assms(1) unfolding approx_def by linarith
qed

lemma approx_add:
  assumes "approx k x y" and "approx k x' y'"
  shows "approx k (x + x') (y + y')"
  using assms unfolding approx_def by (simp only: distrib_right) linarith

lemma approx_scale: "approx k x y \<Longrightarrow> 0 < c \<Longrightarrow> approx k (x / c) (y / c)"
  unfolding approx_def times_divide_eq_left by (auto intro: divide_right_mono)

text \<open>Seconds are right up to three roundings.\<close>

lemma Duration_Seconds_approx:
  assumes "0 \<le> d"
  shows "approx 3 (Duration_Seconds d) (of_int d / 1000000000)"
proof -
  let ?b = "1000000000 :: int"
  have sec: "signed_divide d ?b = d div ?b" "signed_modulo d ?b = d mod ?b"
    using assms by (simp_all add: signed_divide_int_def signed_modulo_int_def sgn_if)
  have "approx 1 (rnd (of_int (d div ?b))) (of_int (d div ?b))"
    using approx_rnd [OF approx_exact [of "of_int (d div ?b)"]] assms by (simp add: pos_imp_zdiv_nonneg_iff)
  then have s: "approx 2 (rnd (of_int (d div ?b))) (of_int (d div ?b))" by (rule approx_weaken) simp
  have "approx 1 (rnd (of_int (d mod ?b))) (of_int (d mod ?b))"
    using approx_rnd [OF approx_exact [of "of_int (d mod ?b)"]] by simp
  then have "approx 2 (rnd (rnd (of_int (d mod ?b)) / 1000000000)) (of_int (d mod ?b) / 1000000000)"
    using approx_rnd [OF approx_scale, of 1 "rnd (of_int (d mod ?b))" "of_int (d mod ?b)" 1000000000] by (simp add: numeral_2_eq_2)
  from approx_rnd [OF approx_add [OF s this]]
  have "approx 3 (Duration_Seconds d) (of_int (d div ?b) + of_int (d mod ?b) / 1000000000)"
    by (simp add: Duration_Seconds_def Let_def sec numeral_3_eq_3)
  moreover have "(of_int (d div ?b) + of_int (d mod ?b) / 1000000000 :: rat) = of_int d / 1000000000"
  proof -
    have "of_int d = (of_int (?b * (d div ?b) + d mod ?b) :: rat)" by (simp only: mult_div_mod_eq)
    also have "\<dots> = 1000000000 * of_int (d div ?b) + of_int (d mod ?b)"
      by (simp only: of_int_add of_int_mult of_int_numeral)
    finally have "(of_int d :: rat) / 1000000000 = (1000000000 * of_int (d div ?b) + of_int (d mod ?b)) / 1000000000"
      by (rule arg_cong)
    then show ?thesis by (simp add: add_divide_distrib)
  qed
  ultimately show ?thesis by simp
qed

lemma throughput_error:
  assumes "0 \<le> n" and "0 < d"
  shows "\<bar>rnd (rnd (of_int n) / Duration_Seconds d) - of_int n / (of_int d / 1000000000)\<bar>
    \<le> of_int n / (of_int d / 1000000000) / 2 ^ 50"
proof -
  define S where "S = Duration_Seconds d"
  define t where "t = (of_int d / 1000000000 :: rat)"
  define q where "q = rnd (of_int n) / S"
  let ?l = "1 - 1 / 2 ^ 53 :: rat" and ?u = "1 + 1 / 2 ^ 53 :: rat"
  have t: "0 < t" using assms(2) by (simp add: t_def)
  have S: "approx 3 S t" unfolding S_def t_def by (rule Duration_Seconds_approx) (use assms(2) in simp)
  have pos: "0 < S" using S t by (rule approx_pos)
  have r: "of_int n * ?l \<le> rnd (of_int n)" "rnd (of_int n) \<le> of_int n * ?u"
    using rnd_bounds [of "of_int n"] assms(1) by simp_all
  have n: "0 \<le> rnd (of_int n)" "(0 :: rat) \<le> of_int n" using assms(1) by (simp_all add: rnd_nonneg)
  have lower: "of_int n * ?l / (t * ?u ^ 3) \<le> q" unfolding q_def
    using S pos r(1) n by (intro frac_le) (simp_all add: approx_def)
  have upper: "q \<le> of_int n * ?u / (t * ?l ^ 3)" unfolding q_def
    using S t r(2) n by (intro frac_le) (simp_all add: approx_def)
  have q0: "0 \<le> q" using n(1) pos by (simp add: q_def)
  have m: "of_int n * x / (t * y) * z = of_int n / t * (x * z / y)" for x y z :: rat by simp
  have "of_int n / t * (?l * ?l / ?u ^ 3) \<le> q * ?l" "q * ?u \<le> of_int n / t * (?u * ?u / ?l ^ 3)"
    unfolding m [symmetric] using lower upper by (intro mult_right_mono; simp)+
  moreover have num: "1 - 1 / 2 ^ 50 \<le> ?l * ?l / ?u ^ 3" "?u * ?u / ?l ^ 3 \<le> 1 + 1 / 2 ^ 50"
    by (simp_all add: power3_eq_cube)
  moreover have "0 \<le> of_int n / t" using n(2) t by simp
  note mult_left_mono [OF num(1) this] mult_left_mono [OF num(2) this]
  ultimately have "of_int n / t * (1 - 1 / 2 ^ 50) \<le> rnd q" "rnd q \<le> of_int n / t * (1 + 1 / 2 ^ 50)"
    using rnd_bounds [OF q0] by (blast intro: order_trans)+
  then have "of_int n / t - of_int n / t / 2 ^ 50 \<le> rnd q" "rnd q \<le> of_int n / t + of_int n / t / 2 ^ 50"
    by (simp_all only: right_diff_distrib distrib_left mult_1_right times_divide_eq_right)
  then show ?thesis unfolding q_def S_def t_def abs_diff_le_iff by simp
qed

text \<open>The deviation of a latency from the mean, as \<open>calculateStdDev\<close> computes both.\<close>

definition deviation :: "int list \<Rightarrow> int \<Rightarrow> rat" where
  "deviation latencies latency =
     (let total = foldl (\<lambda>total latency. wrap64 (total + latency)) 0 latencies;
          mean = rnd (Duration_Seconds total / rnd (of_nat (length latencies)))
      in rnd (Duration_Seconds latency - mean))"

lemma squares_approx:
  assumes "approx k v y" and "1 \<le> k"
  shows "approx (k + length ls) (foldl (\<lambda>v l. rnd (v + rnd (f l * f l))) v ls) (y + (\<Sum>l\<leftarrow>ls. (f l)\<^sup>2))"
  using assms
proof (induction ls arbitrary: k v y)
  case (Cons l ls)
  have "approx 1 (rnd (f l * f l)) ((f l)\<^sup>2)"
    using approx_rnd [OF approx_exact, of "f l * f l"] by (simp add: power2_eq_square)
  then have "approx k (rnd (f l * f l)) ((f l)\<^sup>2)" using Cons.prems(2) by (rule approx_weaken)
  with Cons.prems(1) have "approx k (v + rnd (f l * f l)) (y + (f l)\<^sup>2)" by (rule approx_add)
  then have "approx (Suc k) (rnd (v + rnd (f l * f l))) (y + (f l)\<^sup>2)" by (rule approx_rnd)
  from Cons.IH [OF this] show ?case by (simp add: add.assoc)
qed simp

text \<open>
  The deviation reported is the root of the mean square of the deviations, up to one rounding for each
  sample and a few more.
\<close>

lemma calculateStdDev_approx:
  assumes "ls \<noteq> []" and "length ls < 2 ^ 53"
  shows "\<exists>v. approx (length ls + 2) v ((\<Sum>l\<leftarrow>ls. (deviation ls l)\<^sup>2) / of_nat (length ls)) \<and>
    calculateStdDev ls = sqrt64 v"
proof -
  let ?n = "of_nat (length ls) :: rat"
  define var where "var = foldl (\<lambda>v l. rnd (v + rnd (deviation ls l * deviation ls l))) 0 ls"
  have "approx (1 + length ls) var (0 + (\<Sum>l\<leftarrow>ls. (deviation ls l)\<^sup>2))"
    unfolding var_def by (rule squares_approx) (simp_all add: approx_def)
  then have "approx (Suc (1 + length ls)) (rnd (var / ?n)) ((\<Sum>l\<leftarrow>ls. (deviation ls l)\<^sup>2) / ?n)"
    using assms(1) by (intro approx_rnd approx_scale) simp_all
  moreover have "rnd ?n = ?n" using rnd_of_nat [of "length ls"] round53_exact [OF assms(2)] by simp
  then have "calculateStdDev ls = sqrt64 (rnd (var / ?n))"
    using assms(1) by (simp add: calculateStdDev_def deviation_def Let_def var_def)
  ultimately show ?thesis by auto
qed

lemma calculateStdDev_single:
  assumes "wrap64 l = l"
  shows "calculateStdDev [l] = 0"
proof -
  have idem: "rnd (Duration_Seconds l) = Duration_Seconds l" by (simp add: Duration_Seconds_def Let_def)
  have "rnd 1 = 1" using rnd_of_int [of 1] by simp
  then show ?thesis using assms idem by (simp add: calculateStdDev_def Let_def)
qed

lemma sqrt64_approx:
  assumes "approx k v y"
  shows "approx (k + 3) ((sqrt64 v)\<^sup>2) y"
proof -
  let ?l = "1 - 1 / 2 ^ 53 :: rat" and ?u = "1 + 1 / 2 ^ 53 :: rat"
  have v: "0 \<le> v" using assms by (rule approx_nonneg)
  have low: "(sqrt64 v)\<^sup>2 * ?l\<^sup>2 \<le> v" and up: "v \<le> (sqrt64 v)\<^sup>2 * ?u\<^sup>2"
    using sqrt64_error(2,3) [OF v] by (simp_all only: power_mult_distrib)
  have one: "1 \<le> ?l\<^sup>2 * ?u ^ 3" "?l ^ 3 * ?u\<^sup>2 \<le> 1" by (simp_all add: power3_eq_cube power2_eq_square)
  have "(sqrt64 v)\<^sup>2 * 1 \<le> (sqrt64 v)\<^sup>2 * (?l\<^sup>2 * ?u ^ 3)" by (intro mult_left_mono one) simp
  also have "\<dots> = ((sqrt64 v)\<^sup>2 * ?l\<^sup>2) * ?u ^ 3" by (simp only: mult.assoc)
  also have "\<dots> \<le> v * ?u ^ 3" by (intro mult_right_mono low) simp
  also have "\<dots> \<le> y * ?u ^ k * ?u ^ 3" using assms by (intro mult_right_mono) (simp_all add: approx_def)
  finally have upper: "(sqrt64 v)\<^sup>2 \<le> y * ?u ^ (k + 3)" by (simp only: power_add mult.assoc mult_1_right)
  have "y * ?l ^ k * ?l ^ 3 \<le> v * ?l ^ 3" using assms by (intro mult_right_mono) (simp_all add: approx_def)
  also have "\<dots> \<le> ((sqrt64 v)\<^sup>2 * ?u\<^sup>2) * ?l ^ 3" by (intro mult_right_mono up) simp
  also have "\<dots> = (sqrt64 v)\<^sup>2 * (?l ^ 3 * ?u\<^sup>2)" by (simp only: mult_ac)
  also have "\<dots> \<le> (sqrt64 v)\<^sup>2 * 1" by (intro mult_left_mono one) simp
  finally have "y * ?l ^ (k + 3) \<le> (sqrt64 v)\<^sup>2" by (simp only: power_add mult.assoc mult_1_right)
  then show ?thesis using upper assms by (simp only: approx_def)
qed

lemma Finalize_statistics:
  assumes "Finalize memory r = Ret r'" and "LatencyHistogram r \<noteq> []"
  shows "LatencyHistogram r' = sort (LatencyHistogram r)"
    and "Jitter r' = calculateStdDev (LatencyHistogram r')"
    and "Throughput r' = (if 0 < Duration_Seconds (TotalDuration r)
      then rnd (rnd (of_int (SuccessMessages r)) / Duration_Seconds (TotalDuration r)) else 0)"
    and "LatencyStdDev r' = LatencyStdDev r"
  using assms
  by (cases "0 < Duration_Seconds (TotalDuration r)"; auto simp: Finalize_def Let_def go_bind_Ret_iff)+

lemma Finalize_returns:
  assumes "LatencyHistogram r \<noteq> []" and "length (LatencyHistogram r) < 2 ^ 53"
  obtains r' where "Finalize memory r = Ret r'"
proof -
  let ?n = "length (LatencyHistogram r)"
  have "0 < ?n" using assms(1) by simp
  then have "float_index sig_90 ?n < ?n" "float_index sig_99 ?n < ?n" "?n div 2 < ?n"
    using assms(2) by (simp_all add: float_index_less sig_90_def sig_99_def)
  then show thesis using that \<open>0 < ?n\<close> by (auto simp: Finalize_def go_index_def Let_def)
qed

section \<open>Properties\<close>

text \<open>
  C35. A report over fewer than $2^{53}$ samples, at least one, is finalized without an index error
  in spite of the floating-point indices: the histogram is sorted, the three percentiles are
  samples, they are in order, and more than half of the samples are at most the median.
\<close>

theorem report_percentiles:
  assumes "LatencyHistogram r \<noteq> []" and "length (LatencyHistogram r) < 2 ^ 53"
  shows "\<exists>r'. Finalize memory r = Ret r' \<and> LatencyHistogram r' = sort (LatencyHistogram r) \<and>
    {P50Latency r', P90Latency r', P99Latency r'} \<subseteq> set (LatencyHistogram r) \<and>
    P50Latency r' \<le> P90Latency r' \<and> P90Latency r' \<le> P99Latency r' \<and>
    length (LatencyHistogram r) < 2 * length (filter (\<lambda>l. l \<le> P50Latency r') (LatencyHistogram r))"
proof -
  define xs where "xs = LatencyHistogram r"
  let ?n = "length xs" and ?i = "float_index sig_90 (length xs)" and ?j = "float_index sig_99 (length xs)"
  have n: "0 < ?n" "?n < 2 ^ 53" using assms by (simp_all add: xs_def)
  have i: "?i < ?n" by (rule float_index_less [OF n]) (simp add: sig_90_def)
  have j: "?j < ?n" by (rule float_index_less [OF n]) (simp add: sig_99_def)
  have hi: "?n div 2 \<le> ?i" by (rule half_le_float_index [OF n(2)]) (simp add: sig_90_def)
  have ij: "?i \<le> ?j" by (rule float_index_mono) (simp add: sig_90_def sig_99_def)
  have h: "?n div 2 < ?n" using n(1) by simp
  have "sort xs ! (?n div 2) \<le> sort xs ! ?i" "sort xs ! ?i \<le> sort xs ! ?j"
    using hi ij i j by (auto intro: sorted_nth_mono)
  moreover have "sort xs ! k \<in> set xs" if "k < ?n" for k
    using that by (metis length_sort nth_mem set_sort)
  moreover have "?n < 2 * length (filter (\<lambda>l. l \<le> sort xs ! (?n div 2)) xs)"
    using sorted_count_le [OF h] by linarith
  ultimately show ?thesis
    using n(1) h i j by (auto simp: Finalize_def go_index_def Let_def simp flip: xs_def)
qed

definition sample_report :: Report where
  "sample_report = NewReport\<lparr>LatencyHistogram := [30, 10, 20]\<rparr>"

theorem report_percentiles_witness:
  "\<exists>r'. Finalize 0 sample_report = Ret r' \<and> LatencyHistogram r' = [10, 20, 30] \<and>
     P50Latency r' \<in> {10, 20, 30}"
proof -
  have h: "LatencyHistogram sample_report = [30, 10, 20]" by (simp add: sample_report_def)
  have "sort [30, 10, 20] = [10, 20, 30 :: int]" by simp
  then show ?thesis using report_percentiles [of sample_report 0] by (auto simp: h)
qed



text \<open>
  The benchmark's pooled buffers of 64 bytes hold both of its messages.
\<close>

lemma benchmark_messages_fit:
  assumes "is_key key" and "length buf = 64"
  shows "fst (EncodeWithBuffer (createWriteMessage key) buf) = Encode (createWriteMessage key)"
    and "fst (EncodeWithBuffer (createReadMessage key) buf) = Encode (createReadMessage key)"
  using assms
  by (simp_all add: EncodeWithBuffer_wire Encode_wire createWriteMessage_def createReadMessage_def
      wf_Message_def bytes_of_string_def)

end
