(* ===== verification/Suite_Base.thy ===== *)
theory Suite_Base
  imports Benchmark_Report
begin

text \<open>
  What the five load generators of \<^verbatim>\<open>src/benchmark\<close> share: the state their goroutines work on,
  the places in the goroutine's code at which another goroutine can interfere, the schedules
  that interleave the goroutines, and the end of \<open>runBenchmark\<close>. The interface
  \<open>load_generator\<close> says how a goroutine may move; what every schedule of such goroutines does to
  the counters and the report, and that every schedule is finite, is proved here once. The
  theories of the suites interpret it on their own code.
\<close>

section \<open>State\<close>

text \<open>
  The network as a suite sees it, by client: resolving an address, opening a connection (and a
  QUIC stream), writing, reading up to a number of bytes, closing. A read that never gets an
  answer is \<^const>\<open>Blocked\<close>. \<open>net_Env\<close> are the moves of the network and the server on their own.
\<close>

record 'k netops =
  net_Resolve :: "string \<Rightarrow> error option"
  net_Dial :: "nat \<Rightarrow> string \<Rightarrow> 'k \<Rightarrow> error option \<times> 'k"
  net_OpenStream :: "nat \<Rightarrow> 'k \<Rightarrow> error option \<times> 'k"
  net_Write :: "nat \<Rightarrow> bytes \<Rightarrow> 'k \<Rightarrow> (error option \<times> 'k) go"
  net_Read :: "nat \<Rightarrow> nat \<Rightarrow> 'k \<Rightarrow> ((error + bytes) \<times> 'k) go"
  net_Close :: "nat \<Rightarrow> 'k \<Rightarrow> 'k"
  net_Env :: "nat \<Rightarrow> 'k \<Rightarrow> 'k"

text \<open>
  The variables of \<open>runBenchmark\<close> that its goroutines share: the two atomic counters, the
  latency sum, the report, the buffer pool, what the error group recorded and the error of its
  context once it is cancelled.
\<close>

record 'k bench =
  b_success :: int
  b_failed :: int
  b_totalLatency :: int
  b_report :: Report
  b_pool :: "bytes list"
  b_group_err :: "error option"
  b_ctx_Err :: "error option"
  b_net :: 'k

abbreviation histogram :: "'k bench \<Rightarrow> int list" where
  "histogram b \<equiv> LatencyHistogram (b_report b)"

text \<open>
  Where a goroutine is, with its local variables: the loop counter \<open>j\<close>, the pooled buffer, the
  encoded message, the size of the response buffer, the latency and the slice an \<open>append\<close> has
  loaded. \<open>AtReturn\<close> is the return from the closure with its deferred calls to come, \<open>AtExit\<close>
  the point where the error group receives the result.
\<close>

datatype pc =
  AtAcquire
| AtSelect int
| AtWrite int bytes bytes
| AtRead int bytes nat
| AtCount int bytes
| AtAppend int bytes int
| AtStore int bytes int "int list"
| AtReturn "error option"
| AtExit "error option"
| Exited "error option"

text \<open>What one step takes from outside: a random key, the buffer the pool picks, the time.\<close>

record choice =
  ch_key :: bytes
  ch_buf :: nat
  ch_latency :: int

section \<open>The pieces of the loop\<close>

text \<open>\<^verbatim>\<open>sync.Pool\<close> with buffers of 64 bytes: \<open>Get\<close> takes any pooled buffer or makes one.\<close>

definition pool_Get :: "nat \<Rightarrow> 'k bench \<Rightarrow> bytes \<times> 'k bench" where
  "pool_Get n b =
     (if n < length (b_pool b)
      then (b_pool b ! n, b\<lparr>b_pool := take n (b_pool b) @ drop (Suc n) (b_pool b)\<rparr>)
      else (replicate 64 0, b))"

definition pool_Put :: "bytes \<Rightarrow> 'k bench \<Rightarrow> 'k bench" where
  "pool_Put buf b = b\<lparr>b_pool := buf # b_pool b\<rparr>"

text \<open>A failed message: the counter, the buffer, and the return with an error.\<close>

definition bench_fail :: "bytes \<Rightarrow> error \<Rightarrow> 'k bench \<Rightarrow> pc \<times> 'k bench" where
  "bench_fail buf err b =
     (AtReturn (Some err), pool_Put buf (b\<lparr>b_failed := wrap64 (b_failed b + 1)\<rparr>))"

text \<open>
  A successful message: the counter, the sum (read by nobody), and the sampling test, a division
  by \<open>latencySampling\<close>. \<open>AtAppend\<close> loads the histogram, \<open>AtStore\<close> assigns the longer one; the
  three words of a slice are taken to be stored in one step.
\<close>

definition bench_count :: "int \<Rightarrow> int \<Rightarrow> int \<Rightarrow> bytes \<Rightarrow> 'k bench \<Rightarrow> (pc \<times> 'k bench) go" where
  "bench_count latencySampling latency j buf b =
     (let b = b\<lparr>b_success := wrap64 (b_success b + 1),
               b_totalLatency := wrap64 (b_totalLatency b + latency)\<rparr>
      in if latencySampling = 0 then Panic ''integer divide by zero''
         else if j smod latencySampling = 0 then Ret (AtAppend j buf latency, b)
         else Ret (AtSelect (j + 1), pool_Put buf b))"

definition bench_append :: "int \<Rightarrow> bytes \<Rightarrow> int \<Rightarrow> 'k bench \<Rightarrow> pc \<times> 'k bench" where
  "bench_append j buf latency b = (AtStore j buf latency (histogram b), b)"

definition bench_store :: "int \<Rightarrow> bytes \<Rightarrow> int \<Rightarrow> int list \<Rightarrow> 'k bench \<Rightarrow> pc \<times> 'k bench" where
  "bench_store j buf latency loaded b =
     (AtSelect (j + 1),
      pool_Put buf (b\<lparr>b_report := (b_report b)\<lparr>LatencyHistogram := loaded @ [latency]\<rparr>\<rparr>))"

text \<open>The deferred close of the connection.\<close>

definition bench_close :: "'k netops \<Rightarrow> nat \<Rightarrow> error option \<Rightarrow> 'k bench \<Rightarrow> pc \<times> 'k bench" where
  "bench_close ops i r b = (AtExit r, b\<lparr>b_net := net_Close ops i (b_net b)\<rparr>)"

text \<open>The error group keeps the first error it receives and cancels its context then.\<close>

abbreviation context_Canceled :: error where
  "context_Canceled \<equiv> LibErr ''context.Canceled'' ''context canceled''"

definition cancel :: "error \<Rightarrow> 'k bench \<Rightarrow> 'k bench" where
  "cancel cause b = (if b_ctx_Err b = None then b\<lparr>b_ctx_Err := Some cause\<rparr> else b)"

definition group_exit :: "error option \<Rightarrow> 'k bench \<Rightarrow> pc \<times> 'k bench" where
  "group_exit r b =
     (Exited r,
      case r of
        None \<Rightarrow> b
      | Some err \<Rightarrow> if b_group_err b = None then cancel context_Canceled (b\<lparr>b_group_err := Some err\<rparr>) else b)"

lemmas bench_pieces = pool_Get_def pool_Put_def bench_fail_def bench_append_def bench_store_def
  bench_close_def cancel_def group_exit_def

section \<open>Schedules\<close>

type_synonym 'k client = "choice \<Rightarrow> nat \<Rightarrow> pc \<Rightarrow> 'k bench \<Rightarrow> (pc \<times> 'k bench) go"

type_synonym 'k config = "pc list \<times> 'k bench"

text \<open>
  What happens next: client \<open>i\<close> takes a step, the caller's context ends, by a cancellation or its
  deadline, or the network moves. A step of a client that is blocked cannot be scheduled.
\<close>

datatype bench_event = Step nat choice | Cancel error | Env nat

fun bench_exec1 :: "'k netops \<Rightarrow> 'k client \<Rightarrow> bench_event \<Rightarrow> 'k config \<Rightarrow> 'k config go" where
  "bench_exec1 ops client (Step i ch) (ts, b) =
     (if i < length ts
      then go_bind (client ch i (ts ! i) b) (\<lambda>(pc, b). Ret (ts[i := pc], b))
      else Blocked)"
| "bench_exec1 ops client (Cancel cause) (ts, b) = Ret (ts, cancel cause b)"
| "bench_exec1 ops client (Env n) (ts, b) = Ret (ts, b\<lparr>b_net := net_Env ops n (b_net b)\<rparr>)"

fun bench_exec :: "'k netops \<Rightarrow> 'k client \<Rightarrow> bench_event list \<Rightarrow> 'k config \<Rightarrow> 'k config go" where
  "bench_exec ops client [] c = Ret c"
| "bench_exec ops client (ev # evs) c =
     go_bind (bench_exec1 ops client ev c) (bench_exec ops client evs)"

fun is_step :: "bench_event \<Rightarrow> bool" where
  "is_step (Step i ch) = True"
| "is_step (Cancel cause) = False"
| "is_step (Env n) = False"

text \<open>
  The start of \<open>runBenchmark\<close>: the two fields of the report are set and one goroutine per client
  is launched; the caller's context may be cancelled already.
\<close>

definition bench_init ::
    "error option \<Rightarrow> bytes list \<Rightarrow> 'k \<Rightarrow> int \<Rightarrow> int \<Rightarrow> Report \<Rightarrow> 'k config" where
  "bench_init ctx_Err pool net numClients numMessagesPerClient report =
     (replicate (nat numClients) AtAcquire,
      \<lparr>b_success = 0, b_failed = 0, b_totalLatency = 0,
       b_report = report\<lparr>TotalClients := numClients, MessagesPerClient := numMessagesPerClient\<rparr>,
       b_pool = pool, b_group_err = None, b_ctx_Err = ctx_Err, b_net = net\<rparr>)"

text \<open>\<open>g.Wait()\<close> returns when every goroutine has.\<close>

definition all_exited :: "pc list \<Rightarrow> bool" where
  "all_exited ts \<longleftrightarrow> list_all (\<lambda>t. case t of Exited _ \<Rightarrow> True | _ \<Rightarrow> False) ts"

text \<open>The rest of \<open>runBenchmark\<close>, with the elapsed time and the memory in use as inputs.\<close>

definition bench_finish :: "int \<Rightarrow> 64 word \<Rightarrow> 'k bench \<Rightarrow> (error option \<times> Report) go" where
  "bench_finish duration memory b =
     (case b_group_err b of
        Some err \<Rightarrow> Ret (Some err, b_report b)
      | None \<Rightarrow>
          go_bind (Finalize memory ((b_report b)\<lparr>SuccessMessages := b_success b,
              FailedMessages := b_failed b, TotalMessages := wrap64 (b_success b + b_failed b),
              TotalDuration := duration\<rparr>))
            (\<lambda>report. Ret (None, report)))"

text \<open>
  \<open>runBenchmark\<close> for a schedule of its goroutines. It does not return along a schedule after
  which a goroutine is still running.
\<close>

definition bench_run ::
    "'k netops \<Rightarrow> 'k client \<Rightarrow> bench_event list \<Rightarrow> int \<Rightarrow> 64 word \<Rightarrow> 'k config \<Rightarrow>
     (error option \<times> Report \<times> 'k bench) go" where
  "bench_run ops client evs duration memory c =
     go_bind (bench_exec ops client evs c) (\<lambda>(ts, b).
       if all_exited ts
       then go_bind (bench_finish duration memory b) (\<lambda>(r, report). Ret (r, report, b))
       else Blocked)"

lemma cancel_simps [simp]:
  "b_success (cancel e b) = b_success b" "b_failed (cancel e b) = b_failed b"
  "b_report (cancel e b) = b_report b" "b_pool (cancel e b) = b_pool b"
  "b_group_err (cancel e b) = b_group_err b" "b_net (cancel e b) = b_net b"
  by (simp_all add: cancel_def)

section \<open>Interface: a load generator\<close>

text \<open>
  The pooled buffers have 64 bytes. A goroutine that is inside a pass of its loop holds one of
  them and its counter is below the number of messages.
\<close>

definition pool_ok :: "'k bench \<Rightarrow> bool" where
  "pool_ok b \<longleftrightarrow> (\<forall>buf \<in> set (b_pool b). length buf = 64)"

fun pc_ok :: "int \<Rightarrow> int \<Rightarrow> pc \<Rightarrow> bool" where
  "pc_ok m s (AtSelect j) = (0 \<le> j \<and> j \<le> max 0 m)"
| "pc_ok m s (AtWrite j buf enc) = (0 \<le> j \<and> j < m \<and> length buf = 64)"
| "pc_ok m s (AtRead j buf n) = (0 \<le> j \<and> j < m \<and> length buf = 64)"
| "pc_ok m s (AtCount j buf) = (0 \<le> j \<and> j < m \<and> length buf = 64)"
| "pc_ok m s (AtAppend j buf l) =
     (0 \<le> j \<and> j < m \<and> length buf = 64 \<and> s \<noteq> 0 \<and> j smod s = 0)"
| "pc_ok m s (AtStore j buf l h) =
     (0 \<le> j \<and> j < m \<and> length buf = 64 \<and> s \<noteq> 0 \<and> j smod s = 0)"
| "pc_ok m s _ = True"

text \<open>Nothing but the pool, the network and the latency sum differs.\<close>

definition quiet :: "'k bench \<Rightarrow> 'k bench \<Rightarrow> bool" where
  "quiet b b' \<longleftrightarrow> b_success b' = b_success b \<and> b_failed b' = b_failed b \<and>
     b_report b' = b_report b \<and> b_group_err b' = b_group_err b \<and> b_ctx_Err b' = b_ctx_Err b \<and>
     pool_ok b'"

text \<open>
  The moves of a goroutine: it acquires a connection or gives up; at the head of the loop it
  ends, obeys a cancelled context or begins a message; a message is sent, answered and counted,
  or fails and ends the goroutine; every sampled message is appended to the histogram.
\<close>

inductive client_move :: "int \<Rightarrow> int \<Rightarrow> pc \<Rightarrow> 'k bench \<Rightarrow> pc \<Rightarrow> 'k bench \<Rightarrow> bool"
  for m :: int and s :: int where
  acquired: "quiet b b' \<Longrightarrow> client_move m s AtAcquire b (AtSelect 0) b'"
| refused: "quiet b b' \<Longrightarrow> client_move m s AtAcquire b (AtExit (Some e)) b'"
| ended: "\<not> j < m \<Longrightarrow> client_move m s (AtSelect j) b (AtReturn None) b"
| cancelled: "j < m \<Longrightarrow> b_ctx_Err b = Some e \<Longrightarrow> client_move m s (AtSelect j) b (AtReturn (Some e)) b"
| begun: "j < m \<Longrightarrow> b_ctx_Err b = None \<Longrightarrow> quiet b b' \<Longrightarrow> length buf = 64 \<Longrightarrow>
    pc \<in> {AtWrite j buf enc, AtRead j buf n, AtCount j buf} \<Longrightarrow> client_move m s (AtSelect j) b pc b'"
| sent: "quiet b b' \<Longrightarrow> pc \<in> {AtRead j buf n, AtCount j buf} \<Longrightarrow>
    client_move m s (AtWrite j buf enc) b pc b'"
| answered: "quiet b b' \<Longrightarrow> client_move m s (AtRead j buf n) b (AtCount j buf) b'"
| failed: "pc \<in> {AtWrite j buf enc, AtRead j buf n} \<Longrightarrow>
    quiet (b\<lparr>b_failed := wrap64 (b_failed b + 1)\<rparr>) b' \<Longrightarrow>
    client_move m s pc b (AtReturn (Some e)) b'"
| counted: "s \<noteq> 0 \<Longrightarrow> quiet (b\<lparr>b_success := wrap64 (b_success b + 1)\<rparr>) b' \<Longrightarrow>
    client_move m s (AtCount j buf) b
      (if j smod s = 0 then AtAppend j buf l else AtSelect (j + 1)) b'"
| loaded: "client_move m s (AtAppend j buf l) b (AtStore j buf l (histogram b)) b"
| stored: "quiet (b\<lparr>b_report := (b_report b)\<lparr>LatencyHistogram := h @ [l]\<rparr>\<rparr>) b' \<Longrightarrow>
    client_move m s (AtStore j buf l h) b (AtSelect (j + 1)) b'"
| closed: "quiet b b' \<Longrightarrow> client_move m s (AtReturn r) b (AtExit r) b'"
| exited: "client_move m s (AtExit r) b (Exited r) (snd (group_exit r b))"

text \<open>The messages a goroutine has counted, and the samples it has stored.\<close>

definition samples_below :: "int \<Rightarrow> int \<Rightarrow> int" where
  "samples_below s j = (if 0 < j then (j - 1) div \<bar>s\<bar> + 1 else 0)"

fun pc_count :: "int \<Rightarrow> pc \<Rightarrow> int" where
  "pc_count m AtAcquire = 0"
| "pc_count m (AtSelect j) = j"
| "pc_count m (AtWrite j buf enc) = j"
| "pc_count m (AtRead j buf n) = j"
| "pc_count m (AtCount j buf) = j"
| "pc_count m (AtAppend j buf l) = j + 1"
| "pc_count m (AtStore j buf l h) = j + 1"
| "pc_count m _ = max 0 m"

fun pc_samples :: "int \<Rightarrow> int \<Rightarrow> pc \<Rightarrow> int" where
  "pc_samples m s AtAcquire = 0"
| "pc_samples m s (AtSelect j) = samples_below s j"
| "pc_samples m s (AtWrite j buf enc) = samples_below s j"
| "pc_samples m s (AtRead j buf n) = samples_below s j"
| "pc_samples m s (AtCount j buf) = samples_below s j"
| "pc_samples m s (AtAppend j buf l) = samples_below s j"
| "pc_samples m s (AtStore j buf l h) = samples_below s j"
| "pc_samples m s _ = samples_below s (max 0 m)"

fun pc_error :: "pc \<Rightarrow> bool" where
  "pc_error (AtReturn (Some e)) = True"
| "pc_error (AtExit (Some e)) = True"
| "pc_error (Exited (Some e)) = True"
| "pc_error _ = False"

text \<open>An upper bound on the steps a goroutine still takes.\<close>

fun pc_rank :: "int \<Rightarrow> pc \<Rightarrow> nat" where
  "pc_rank m AtAcquire = 6 * nat m + 4"
| "pc_rank m (AtSelect j) = 6 * nat (m - j) + 3"
| "pc_rank m (AtWrite j buf enc) = 6 * nat (m - j) + 2"
| "pc_rank m (AtRead j buf n) = 6 * nat (m - j) + 1"
| "pc_rank m (AtCount j buf) = 6 * nat (m - j)"
| "pc_rank m (AtAppend j buf l) = 6 * nat (m - j) - 1"
| "pc_rank m (AtStore j buf l h) = 6 * nat (m - j) - 2"
| "pc_rank m (AtReturn r) = 2"
| "pc_rank m (AtExit r) = 1"
| "pc_rank m (Exited r) = 0"

lemma div_pred_int:
  fixes j d :: int
  assumes "0 < d"
  shows "j div d = (j - 1) div d + (if d dvd j then 1 else 0)"
proof (cases "d dvd j")
  case True
  then obtain k where k: "j = d * k" by blast
  have "(j - 1) div d = k - 1"
    by (rule int_div_pos_eq [of _ d _ "d - 1"]) (use assms in \<open>simp_all add: k algebra_simps\<close>)
  then show ?thesis using assms by (simp add: k)
next
  case False
  have "0 < j mod d" using assms False by (simp add: dvd_eq_mod_eq_0 order_less_le)
  moreover have "j mod d < d" using assms by simp
  ultimately have "(j - 1) div d = j div d"
    by (intro int_div_pos_eq [of _ d _ "j mod d - 1"]) (simp_all add: algebra_simps)
  then show ?thesis using False by simp
qed

lemma samples_below_Suc:
  assumes "0 \<le> j" and "s \<noteq> 0"
  shows "samples_below s (j + 1) = samples_below s j + (if j smod s = 0 then 1 else 0)"
proof -
  have smod: "j smod s = 0 \<longleftrightarrow> \<bar>s\<bar> dvd j"
    using assms by (auto simp: signed_modulo_int_def sgn_mult abs_mult mod_eq_0_iff_dvd sgn_0_0)
  show ?thesis
  proof (cases "j = 0")
    case True
    then show ?thesis using smod by (simp add: samples_below_def)
  next
    case False
    then show ?thesis using div_pred_int [of "\<bar>s\<bar>" j] assms smod by (simp add: samples_below_def)
  qed
qed

lemma samples_below_0: "samples_below s 0 = 0"
  by (simp add: samples_below_def)

lemma samples_below_nonneg: "0 \<le> samples_below s j"
  by (cases "s = 0") (auto simp: samples_below_def pos_imp_zdiv_nonneg_iff intro!: add_nonneg_nonneg)

lemma pc_samples_nonneg: "0 \<le> pc_samples m s t"
  by (cases t) (auto simp: samples_below_nonneg)

text \<open>What one move does to the goroutine's measures.\<close>

lemma client_move_pc_ok:
  "client_move m s pc b pc' b' \<Longrightarrow> pc_ok m s pc \<Longrightarrow> pool_ok b \<Longrightarrow> pc_ok m s pc' \<and> pool_ok b'"
  by (induction rule: client_move.induct)
     (auto simp: quiet_def pool_ok_def group_exit_def cancel_def split: option.split if_splits)

lemma client_move_rank: "client_move m s pc b pc' b' \<Longrightarrow> pc_ok m s pc \<Longrightarrow> pc_rank m pc' < pc_rank m pc"
  by (induction rule: client_move.induct) auto

lemma client_move_error: "client_move m s pc b pc' b' \<Longrightarrow> pc_error pc \<Longrightarrow> pc_error pc'"
  by (induction rule: client_move.induct) (auto split: if_splits elim!: pc_error.elims)

text \<open>The counters: exact while the goroutine has not failed.\<close>

lemma client_move_count:
  "client_move m s pc b pc' b' \<Longrightarrow> pc_ok m s pc \<Longrightarrow> \<not> pc_error pc' \<Longrightarrow>
   b_failed b' = b_failed b \<and>
   (b_success b' = b_success b \<and> pc_count m pc' = pc_count m pc \<or>
    b_success b' = wrap64 (b_success b + 1) \<and> pc_count m pc' = pc_count m pc + 1)"
  by (induction rule: client_move.induct)
     (auto simp: quiet_def group_exit_def split: if_splits option.splits)

lemma client_move_samples:
  "client_move m s pc b pc' b' \<Longrightarrow> pc_ok m s pc \<Longrightarrow> \<not> pc_error pc' \<Longrightarrow>
   (histogram b' = histogram b \<and> pc_samples m s pc' = pc_samples m s pc) \<or>
   (\<exists>j buf l h. pc = AtStore j buf l h \<and> histogram b' = h @ [l] \<and>
      pc_samples m s pc' = pc_samples m s pc + 1)"
proof (induction rule: client_move.induct)
  case (ended j b)
  then have "j = max 0 m" by auto
  then show ?case by simp
qed (auto simp: quiet_def group_exit_def samples_below_Suc samples_below_0 split: if_splits option.splits)

lemma client_move_report:
  "client_move m s pc b pc' b' \<Longrightarrow>
   (b_report b')\<lparr>LatencyHistogram := []\<rparr> = (b_report b)\<lparr>LatencyHistogram := []\<rparr>"
  by (induction rule: client_move.induct)
     (auto simp: quiet_def group_exit_def cancel_def split: option.split)

lemma client_move_store:
  "client_move m s pc b (AtStore j buf l h) b' \<Longrightarrow> h = histogram b'"
  by (induction pc b "AtStore j buf l h" b' rule: client_move.induct) (auto split: if_splits)

lemma client_move_group:
  "client_move m s pc b pc' b' \<Longrightarrow>
   (\<exists>r. pc = AtExit r \<and> pc' = Exited r \<and> b' = snd (group_exit r b)) \<or>
   (\<forall>r. pc' \<noteq> Exited r) \<and> (\<forall>r. pc \<noteq> Exited r) \<and> b_group_err b' = b_group_err b"
  by (induction rule: client_move.induct) (auto simp: quiet_def split: if_splits)

text \<open>
  What holds along every schedule. The counters are those of the goroutines' loops as long as no
  goroutine failed; an append can overwrite another one, so that the samples only bound the
  histogram from above.
\<close>

definition inv_pcs :: "int \<Rightarrow> int \<Rightarrow> 'k config \<Rightarrow> bool" where
  "inv_pcs m s c \<longleftrightarrow> (\<forall>t \<in> set (fst c). pc_ok m s t) \<and> pool_ok (snd c)"

definition no_error :: "pc list \<Rightarrow> bool" where
  "no_error ts \<longleftrightarrow> (\<forall>t \<in> set ts. \<not> pc_error t)"

definition inv_count :: "int \<Rightarrow> 'k config \<Rightarrow> bool" where
  "inv_count m c \<longleftrightarrow> (no_error (fst c) \<longrightarrow>
     b_failed (snd c) = 0 \<and> b_success (snd c) = wrap64 (\<Sum>t\<leftarrow>fst c. pc_count m t))"

definition inv_hist :: "int \<Rightarrow> int \<Rightarrow> int \<Rightarrow> 'k config \<Rightarrow> bool" where
  "inv_hist m s n c \<longleftrightarrow> (no_error (fst c) \<longrightarrow>
     int (length (histogram (snd c))) \<le> n + (\<Sum>t\<leftarrow>fst c. pc_samples m s t) \<and>
     (\<forall>j buf l h. AtStore j buf l h \<in> set (fst c) \<longrightarrow>
        int (length h) \<le> n + (\<Sum>t\<leftarrow>fst c. pc_samples m s t)) \<and>
     (0 < (\<Sum>t\<leftarrow>fst c. pc_samples m s t) \<longrightarrow> histogram (snd c) \<noteq> []))"

definition inv_group :: "'k config \<Rightarrow> bool" where
  "inv_group c \<longleftrightarrow>
     (b_group_err (snd c) = None \<longrightarrow> (\<forall>e. Exited (Some e) \<notin> set (fst c))) \<and>
     (\<forall>e. b_group_err (snd c) = Some e \<longrightarrow> Exited (Some e) \<in> set (fst c))"

lemma sum_list_map_update:
  fixes f :: "'a \<Rightarrow> 'b::ab_group_add"
  shows "i < length xs \<Longrightarrow> sum_list (map f (xs[i := x])) = sum_list (map f xs) + f x - f (xs ! i)"
proof (induction xs arbitrary: i)
  case (Cons y xs)
  then show ?case by (cases i) (simp_all add: algebra_simps)
qed simp

lemma no_error_update:
  assumes "no_error (ts[i := pc'])" and "i < length ts" and "pc_error (ts ! i) \<Longrightarrow> pc_error pc'"
  shows "no_error ts" and "\<not> pc_error pc'"
proof -
  show pc': "\<not> pc_error pc'" using assms(1,2) by (auto simp: no_error_def set_update_memI)
  show "no_error ts" unfolding no_error_def
  proof
    fix t assume "t \<in> set ts"
    then obtain k where k: "k < length ts" "t = ts ! k" by (auto simp: in_set_conv_nth)
    show "\<not> pc_error t"
    proof (cases "k = i")
      case True
      then show ?thesis using k assms(3) pc' by blast
    next
      case False
      then have "t = ts[i := pc'] ! k" "k < length (ts[i := pc'])" using k by simp_all
      then show ?thesis using assms(1) nth_mem by (fastforce simp: no_error_def)
    qed
  qed
qed

lemma wrap64_plus: "wrap64 (wrap64 a + b) = wrap64 (a + b)"
proof -
  have "signed_take_bit 63 (signed_take_bit 63 a + b) =
      signed_take_bit 63 (signed_take_bit 63 (signed_take_bit 63 a) + signed_take_bit 63 b)"
    by (simp only: signed_take_bit_add)
  also have "\<dots> = signed_take_bit 63 (a + b)"
    by (simp add: signed_take_bit_add)
  finally show ?thesis by (simp only: wrap64_def)
qed

text \<open>One move of one goroutine keeps each of them.\<close>


lemma move_inv_pcs:
  assumes i: "i < length ts" and move: "client_move m s (ts ! i) b pc' b'" and pcs: "inv_pcs m s (ts, b)"
  shows "pc_ok m s (ts ! i)" and "inv_pcs m s (ts[i := pc'], b')"
proof -
  show ok: "pc_ok m s (ts ! i)" using pcs i by (simp add: inv_pcs_def)
  show "inv_pcs m s (ts[i := pc'], b')"
    using pcs client_move_pc_ok [OF move ok] set_update_subset_insert [of ts i pc']
    by (auto simp: inv_pcs_def)
qed

lemma move_inv_count:
  assumes i: "i < length ts" and move: "client_move m s (ts ! i) b pc' b'" and pcs: "inv_pcs m s (ts, b)"
    and inv: "inv_count m (ts, b)"
  shows "inv_count m (ts[i := pc'], b')"
proof -
  show ?thesis
  proof (cases "no_error (ts[i := pc'])")
    case True
    note ne = no_error_update [OF True i client_move_error [OF move]]
    have "b_failed b = 0" "b_success b = wrap64 (\<Sum>t\<leftarrow>ts. pc_count m t)"
      using inv ne(1) by (simp_all add: inv_count_def)
    then show ?thesis
      using client_move_count [OF move move_inv_pcs(1) [OF i move pcs] ne(2)] sum_list_map_update [OF i, of "pc_count m" pc']
      by (auto simp: inv_count_def wrap64_plus)
  qed (simp add: inv_count_def)
qed

lemma move_inv_hist:
  assumes i: "i < length ts" and move: "client_move m s (ts ! i) b pc' b'" and pcs: "inv_pcs m s (ts, b)"
    and inv: "inv_hist m s n (ts, b)"
  shows "inv_hist m s n (ts[i := pc'], b')"
proof -
  let ?S = "\<Sum>t\<leftarrow>ts. pc_samples m s t" and ?S' = "\<Sum>t\<leftarrow>ts[i := pc']. pc_samples m s t"
  show ?thesis
  proof (cases "no_error (ts[i := pc'])")
    case True
    note ne = no_error_update [OF True i client_move_error [OF move]]
    have old: "int (length (histogram b)) \<le> n + ?S" "0 < ?S \<Longrightarrow> histogram b \<noteq> []"
      "\<And>j buf l h. AtStore j buf l h \<in> set ts \<Longrightarrow> int (length h) \<le> n + ?S"
      using inv ne(1) by (auto simp: inv_hist_def)
    have S': "?S' = ?S + pc_samples m s pc' - pc_samples m s (ts ! i)"
      using sum_list_map_update [OF i, of "pc_samples m s" pc'] .
    have stored: "int (length h) \<le> n + ?S" if "AtStore j buf l h = ts ! i" for j buf l h
      using old(3) [of j buf l h] that i by (metis nth_mem)
    have new: "int (length (histogram b')) \<le> n + ?S' \<and> ?S \<le> ?S' \<and> (0 < ?S' \<longrightarrow> histogram b' \<noteq> [])"
      using client_move_samples [OF move move_inv_pcs(1) [OF i move pcs] ne(2)] old(1,2) stored S' by fastforce
    have "int (length h) \<le> n + ?S'" if "AtStore j buf l h \<in> set (ts[i := pc'])" for j buf l h
    proof (cases "AtStore j buf l h = pc'")
      case True
      then show ?thesis using client_move_store [of m s "ts ! i" b j buf l h b'] move new by simp
    next
      case False
      then have "AtStore j buf l h \<in> set ts" using that set_update_subset_insert [of ts i pc'] by auto
      then show ?thesis using old(3) new by fastforce
    qed
    then show ?thesis using new by (auto simp: inv_hist_def)
  qed (simp add: inv_hist_def)
qed

lemma move_inv_group:
  assumes i: "i < length ts" and move: "client_move m s (ts ! i) b pc' b'" and pcs: "inv_pcs m s (ts, b)"
    and inv: "inv_group (ts, b)"
  shows "inv_group (ts[i := pc'], b')"
proof -
  have kept: "Exited r \<in> set (ts[i := pc'])" if "Exited r \<in> set ts" "\<forall>r. ts ! i \<noteq> Exited r" for r
    using that i by (metis in_set_conv_nth length_list_update nth_list_update_neq)
  have only: "t \<in> set ts \<or> t = pc'" if "t \<in> set (ts[i := pc'])" for t
    using that set_update_subset_insert [of ts i pc'] by auto
  from client_move_group [OF move] show ?thesis
  proof
    assume "\<exists>r. ts ! i = AtExit r \<and> pc' = Exited r \<and> b' = snd (group_exit r b)"
    then obtain r where r: "ts ! i = AtExit r" "pc' = Exited r" "b' = snd (group_exit r b)" by blast
    show ?thesis
      using inv kept only i r
      by (cases r) (auto simp: inv_group_def group_exit_def set_update_memI split: if_splits)
  next
    assume "(\<forall>r. pc' \<noteq> Exited r) \<and> (\<forall>r. ts ! i \<noteq> Exited r) \<and> b_group_err b' = b_group_err b"
    then show ?thesis using inv kept only by (fastforce simp: inv_group_def)
  qed
qed

definition bench_inv :: "int \<Rightarrow> int \<Rightarrow> int \<Rightarrow> 'k config \<Rightarrow> bool" where
  "bench_inv m s n c \<longleftrightarrow> inv_pcs m s c \<and> inv_count m c \<and> inv_hist m s n c \<and> inv_group c"

definition config_rank :: "int \<Rightarrow> 'k config \<Rightarrow> nat" where
  "config_rank m c = (\<Sum>t\<leftarrow>fst c. pc_rank m t)"

lemma config_rank_update:
  assumes "i < length ts" and "pc_rank m pc' < pc_rank m (ts ! i)"
  shows "config_rank m (ts[i := pc'], b') < config_rank m (ts, b)"
proof -
  have "int (config_rank m (ts[i := pc'], b')) =
      int (config_rank m (ts, b)) + int (pc_rank m pc') - int (pc_rank m (ts ! i))"
    using sum_list_map_update [OF assms(1), of "\<lambda>t. int (pc_rank m t)" pc']
    by (simp add: config_rank_def flip: sum_list_of_nat map_map [unfolded comp_def])
  then show ?thesis using assms(2) by simp
qed

text \<open>The goroutines' shared part of the report, apart from the histogram.\<close>

abbreviation report_frame :: "'k config \<Rightarrow> Report" where
  "report_frame c \<equiv> (b_report (snd c))\<lparr>LatencyHistogram := []\<rparr>"

lemma bench_exec_append:
  "bench_exec ops client (evs @ evs') c = go_bind (bench_exec ops client evs c) (bench_exec ops client evs')"
proof (induction evs arbitrary: c)
  case (Cons ev evs)
  show ?case by (cases "bench_exec1 ops client ev c") (simp_all add: Cons.IH)
qed simp

lemma bench_init_inv:
  assumes "\<forall>buf \<in> set pool. length buf = 64"
  shows "bench_inv m s (int (length (LatencyHistogram report)))
    (bench_init ctx_Err pool net numClients numMessages report)"
proof -
  have "(\<Sum>t\<leftarrow>replicate k AtAcquire. pc_count m t) = 0"
    "(\<Sum>t\<leftarrow>replicate k AtAcquire. pc_samples m s t) = 0" for k
    by (simp_all add: sum_list_replicate)
  then show ?thesis using assms
    by (auto simp: bench_inv_def inv_pcs_def inv_count_def inv_hist_def inv_group_def bench_init_def
        pool_ok_def wrap64_def)
qed

lemma bench_init_rank:
  "config_rank m (bench_init ctx_Err pool net numClients m report) = nat numClients * (6 * nat m + 4)"
  by (simp add: config_rank_def bench_init_def sum_list_replicate)

lemma Finalize_frame:
  assumes "Finalize memory r = Ret r'"
  shows "TotalClients r' = TotalClients r" "MessagesPerClient r' = MessagesPerClient r"
    "TotalMessages r' = wrap64 (TotalClients r * MessagesPerClient r)"
    "SuccessMessages r' = SuccessMessages r" "FailedMessages r' = FailedMessages r"
    "TotalDuration r' = TotalDuration r" "LatencyHistogram r' = sort (LatencyHistogram r)"
  using assms by (auto simp: Finalize_def Let_def go_bind_Ret_iff split: if_splits)

lemma all_exitedD: "all_exited ts \<Longrightarrow> t \<in> set ts \<Longrightarrow> \<exists>r. t = Exited r"
  by (cases t) (force simp: all_exited_def list_all_iff)+

lemma all_exited_iff: "all_exited ts \<longleftrightarrow> (\<forall>t \<in> set ts. \<exists>r. t = Exited r)"
  using all_exitedD by (auto simp: all_exited_def list_all_iff)

lemma all_exited_clean:
  assumes "all_exited ts" and "\<forall>e. Exited (Some e) \<notin> set ts"
  shows "ts = replicate (length ts) (Exited None)"
proof (rule replicate_eqI)
  fix t assume t: "t \<in> set ts"
  then obtain r where "t = Exited r" using all_exitedD [OF assms(1)] by blast
  then show "t = Exited None" using assms(2) t by (cases r) auto
qed simp

locale load_generator =
  fixes ops :: "'k netops" and client :: "'k client" and m s :: int
  assumes client_moves: "pc_ok m s pc \<Longrightarrow> pool_ok b \<Longrightarrow> client ch i pc b = Ret (pc', b') \<Longrightarrow>
      client_move m s pc b pc' b'"
begin

lemma exec1_step:
  assumes "bench_exec1 ops client (Step i ch) (ts, b) = Ret c'" and "inv_pcs m s (ts, b)"
  obtains pc' b' where "i < length ts" "client_move m s (ts ! i) b pc' b'" "c' = (ts[i := pc'], b')"
proof -
  have i: "i < length ts" using assms(1) by (simp split: if_splits)
  then obtain pc' b' where "client ch i (ts ! i) b = Ret (pc', b')" "c' = (ts[i := pc'], b')"
    using assms(1) by (auto simp: go_bind_Ret_iff)
  moreover have "pc_ok m s (ts ! i)" "pool_ok b" using assms(2) i by (auto simp: inv_pcs_def)
  ultimately show thesis using that i client_moves by blast
qed

lemma exec1_inv:
  assumes "bench_exec1 ops client ev c = Ret c'" and "bench_inv m s n c"
  shows "bench_inv m s n c' \<and> report_frame c' = report_frame c \<and> length (fst c') = length (fst c) \<and>
    config_rank m c' + (if is_step ev then 1 else 0) \<le> config_rank m c"
proof (cases ev)
  case (Step i ch)
  obtain ts b where c: "c = (ts, b)" by (cases c)
  have inv: "inv_pcs m s (ts, b)" "inv_count m (ts, b)" "inv_hist m s n (ts, b)" "inv_group (ts, b)"
    using assms(2) by (simp_all add: c bench_inv_def)
  obtain pc' b' where mv: "i < length ts" "client_move m s (ts ! i) b pc' b'" "c' = (ts[i := pc'], b')"
    using exec1_step [of i ch ts b c'] assms(1) inv(1) by (auto simp: c Step)
  note pcs = move_inv_pcs [OF mv(1,2) inv(1)]
  have "config_rank m c' < config_rank m c"
    unfolding c mv(3) using mv(1) client_move_rank [OF mv(2) pcs(1)] by (rule config_rank_update)
  then show ?thesis
    using pcs move_inv_count [OF mv(1,2) inv(1,2)] move_inv_hist [OF mv(1,2) inv(1,3)]
      move_inv_group [OF mv(1,2) inv(1,4)] client_move_report [OF mv(2)]
    by (simp add: c mv(3) bench_inv_def Step)
next
  case (Cancel cause)
  then show ?thesis using assms
    by (cases c) (auto simp: bench_inv_def inv_pcs_def inv_count_def inv_hist_def inv_group_def
        pool_ok_def config_rank_def)
next
  case (Env k)
  then show ?thesis using assms
    by (cases c) (auto simp: bench_inv_def inv_pcs_def inv_count_def inv_hist_def inv_group_def
        pool_ok_def config_rank_def)
qed

lemma exec_inv:
  "bench_exec ops client evs c = Ret c' \<Longrightarrow> bench_inv m s n c \<Longrightarrow>
   bench_inv m s n c' \<and> report_frame c' = report_frame c \<and> length (fst c') = length (fst c) \<and>
   config_rank m c' + length (filter is_step evs) \<le> config_rank m c"
proof (induction evs arbitrary: c)
  case (Cons ev evs)
  obtain c1 where c1: "bench_exec1 ops client ev c = Ret c1" "bench_exec ops client evs c1 = Ret c'"
    using Cons.prems(1) by (auto simp: go_bind_Ret_iff)
  have one: "bench_inv m s n c1 \<and> report_frame c1 = report_frame c \<and> length (fst c1) = length (fst c) \<and>
    config_rank m c1 + (if is_step ev then 1 else 0) \<le> config_rank m c"
    using exec1_inv [OF c1(1) Cons.prems(2)] .
  then have "bench_inv m s n c1" by blast
  from Cons.IH [OF c1(2) this] one show ?case by auto
qed simp

lemma bounded:
  assumes "\<forall>buf \<in> set pool. length buf = 64"
    and "bench_exec ops client evs (bench_init ctx_Err pool net numClients m report) = Ret c"
  shows "length (filter is_step evs) \<le> nat numClients * (6 * nat m + 4)"
  using exec_inv [OF assms(2) bench_init_inv [OF assms(1)]] unfolding bench_init_rank by linarith

lemma totals:
  assumes pool: "\<forall>buf \<in> set pool. length buf = 64"
    and run: "bench_run ops client evs duration memory
      (bench_init ctx_Err pool net numClients m report) = Ret (None, report', b)"
  shows "SuccessMessages report' = wrap64 (max 0 numClients * max 0 m)" "FailedMessages report' = 0"
    "TotalMessages report' = wrap64 (numClients * m)" "TotalClients report' = numClients"
    "MessagesPerClient report' = m" "TotalDuration report' = duration" "sorted (LatencyHistogram report')"
    "int (length (LatencyHistogram report')) \<le>
       int (length (LatencyHistogram report)) + max 0 numClients * samples_below s (max 0 m)"
    "0 < numClients \<Longrightarrow> 0 < m \<Longrightarrow> LatencyHistogram report' \<noteq> []"
proof -
  obtain ts where ex: "bench_exec ops client evs (bench_init ctx_Err pool net numClients m report) =
      Ret (ts, b)" and exd: "all_exited ts" and fin: "bench_finish duration memory b = Ret (None, report')"
    using run by (auto simp: bench_run_def go_bind_Ret_iff split: if_splits)
  note inv = exec_inv [OF ex bench_init_inv [OF pool]]
  have none: "b_group_err b = None" using fin by (cases "b_group_err b") (auto simp: bench_finish_def)
  then have clean: "\<forall>e. Exited (Some e) \<notin> set ts" using inv by (simp add: bench_inv_def inv_group_def)
  have ts: "ts = replicate (nat numClients) (Exited None)"
    and fz: "Finalize memory ((b_report b)\<lparr>SuccessMessages := b_success b,
              FailedMessages := b_failed b, TotalMessages := wrap64 (b_success b + b_failed b),
              TotalDuration := duration\<rparr>) = Ret report'"
    using all_exited_clean [OF exd clean] inv fin none
    by (auto simp: bench_finish_def go_bind_Ret_iff bench_init_def)
  have sums: "(\<Sum>t\<leftarrow>ts. pc_count m t) = max 0 numClients * max 0 m"
    "(\<Sum>t\<leftarrow>ts. pc_samples m s t) = max 0 numClients * samples_below s (max 0 m)"
    by (simp_all add: ts sum_list_replicate)
  have ne: "no_error ts" by (simp add: ts no_error_def)
  have cnt: "b_failed b = 0" "b_success b = wrap64 (max 0 numClients * max 0 m)"
    "int (length (histogram b)) \<le> int (length (LatencyHistogram report)) +
       max 0 numClients * samples_below s (max 0 m)"
    "0 < max 0 numClients * samples_below s (max 0 m) \<Longrightarrow> histogram b \<noteq> []"
    using inv ne unfolding bench_inv_def inv_count_def inv_hist_def fst_conv snd_conv sums by auto
  have "report_frame (ts, b) = report_frame (bench_init ctx_Err pool net numClients m report)"
    using inv by blast
  from arg_cong [OF this, of TotalClients] arg_cong [OF this, of MessagesPerClient]
  have frame: "TotalClients (b_report b) = numClients" "MessagesPerClient (b_report b) = m"
    by (simp_all add: bench_init_def)
  note fr = Finalize_frame [OF fz]
  show "SuccessMessages report' = wrap64 (max 0 numClients * max 0 m)" "FailedMessages report' = 0"
    "TotalMessages report' = wrap64 (numClients * m)" "TotalClients report' = numClients"
    "MessagesPerClient report' = m" "TotalDuration report' = duration" "sorted (LatencyHistogram report')"
    "int (length (LatencyHistogram report')) \<le>
       int (length (LatencyHistogram report)) + max 0 numClients * samples_below s (max 0 m)"
    using fr cnt frame by simp_all
  assume pos: "0 < numClients" "0 < m"
  then have "0 < max 0 numClients * samples_below s (max 0 m)"
    by (cases "s = 0") (auto simp: samples_below_def intro!: mult_pos_pos add_nonneg_pos pos_imp_zdiv_nonneg_iff [THEN iffD2])
  moreover have "LatencyHistogram report' = sort (histogram b)" using fr(7) by simp
  ultimately show "LatencyHistogram report' \<noteq> []" using cnt(4) by (metis length_0_conv length_sort)
qed

lemma run_pool:
  assumes "\<forall>buf \<in> set pool. length buf = 64"
    and "bench_run ops client evs duration memory
      (bench_init ctx_Err pool net numClients m report) = Ret (r, report', b)"
  shows "pool_ok b"
proof -
  obtain ts where "bench_exec ops client evs (bench_init ctx_Err pool net numClients m report) = Ret (ts, b)"
    using assms(2) by (auto simp: bench_run_def go_bind_Ret_iff split: if_splits)
  from exec_inv [OF this bench_init_inv [OF assms(1)]] show ?thesis
    by (simp add: bench_inv_def inv_pcs_def)
qed

lemma first_error:
  assumes pool: "\<forall>buf \<in> set pool. length buf = 64"
    and run: "bench_run ops client evs duration memory
      (bench_init ctx_Err pool net numClients m report) = Ret (Some e, report', b)"
  shows "\<exists>ts. bench_exec ops client evs (bench_init ctx_Err pool net numClients m report) = Ret (ts, b) \<and>
      all_exited ts \<and> Exited (Some e) \<in> set ts"
    and "report'\<lparr>LatencyHistogram := []\<rparr> =
      report\<lparr>TotalClients := numClients, MessagesPerClient := m, LatencyHistogram := []\<rparr>"
proof -
  obtain ts where ex: "bench_exec ops client evs (bench_init ctx_Err pool net numClients m report) =
      Ret (ts, b)" and exd: "all_exited ts" and fin: "bench_finish duration memory b = Ret (Some e, report')"
    using run by (auto simp: bench_run_def go_bind_Ret_iff split: if_splits)
  note inv = exec_inv [OF ex bench_init_inv [OF pool]]
  have e: "b_group_err b = Some e" "report' = b_report b"
    using fin by (cases "b_group_err b"; simp add: bench_finish_def go_bind_Ret_iff)+
  then have "Exited (Some e) \<in> set ts" using inv by (simp add: bench_inv_def inv_group_def)
  then show "\<exists>ts. bench_exec ops client evs (bench_init ctx_Err pool net numClients m report) = Ret (ts, b) \<and>
      all_exited ts \<and> Exited (Some e) \<in> set ts" using ex exd by blast
  have "report_frame (ts, b) = report_frame (bench_init ctx_Err pool net numClients m report)"
    using inv by blast
  then show "report'\<lparr>LatencyHistogram := []\<rparr> =
      report\<lparr>TotalClients := numClients, MessagesPerClient := m, LatencyHistogram := []\<rparr>"
    by (simp add: e bench_init_def)
qed

lemma completes_from:
  assumes "\<And>i pc b. pc_ok m s pc \<Longrightarrow> pool_ok b \<Longrightarrow> \<forall>r. pc \<noteq> Exited r \<Longrightarrow> returns (client ch i pc b)"
  shows "bench_inv m s n c \<Longrightarrow> \<exists>evs c'. bench_exec ops client evs c = Ret c' \<and> all_exited (fst c')"
proof (induction "config_rank m c" arbitrary: c rule: less_induct)
  case less
  obtain ts b where c: "c = (ts, b)" by (cases c)
  show ?case
  proof (cases "all_exited ts")
    case True
    then have "bench_exec ops client [] c = Ret c \<and> all_exited (fst c)" by (simp add: c)
    then show ?thesis by blast
  next
    case False
    then obtain i where i: "i < length ts" "\<forall>r. ts ! i \<noteq> Exited r"
      by (metis all_exited_iff in_set_conv_nth)
    have "pc_ok m s (ts ! i)" "pool_ok b" using less.prems i(1) by (auto simp: c bench_inv_def inv_pcs_def)
    from assms [OF this i(2)] obtain pc' b' where "client ch i (ts ! i) b = Ret (pc', b')"
      by (metis returns_iff surj_pair)
    then have one: "bench_exec1 ops client (Step i ch) c = Ret (ts[i := pc'], b')"
      using i(1) by (simp add: c)
    have "bench_inv m s n (ts[i := pc'], b')" "config_rank m (ts[i := pc'], b') < config_rank m c"
      using exec1_inv [OF one less.prems] by auto
    from less.hyps [OF this(2,1)] obtain evs c' where
      "bench_exec ops client evs (ts[i := pc'], b') = Ret c'" "all_exited (fst c')" by blast
    then have "bench_exec ops client (Step i ch # evs) c = Ret c' \<and> all_exited (fst c')"
      using one by simp
    then show ?thesis by blast
  qed
qed

lemma completes:
  assumes "\<And>i pc b. pc_ok m s pc \<Longrightarrow> pool_ok b \<Longrightarrow> \<forall>r. pc \<noteq> Exited r \<Longrightarrow> returns (client ch i pc b)"
    and "\<forall>buf \<in> set pool. length buf = 64"
    and "bench_exec ops client evs (bench_init ctx_Err pool net numClients m report) = Ret c"
  shows "\<exists>evs' c'. bench_exec ops client (evs @ evs') (bench_init ctx_Err pool net numClients m report) =
    Ret c' \<and> all_exited (fst c')"
proof -
  have "bench_inv m s (int (length (LatencyHistogram report))) c"
    using exec_inv [OF assms(3) bench_init_inv [OF assms(2)]] by blast
  from completes_from [OF assms(1) this] obtain evs' c' where
    "bench_exec ops client evs' c = Ret c'" "all_exited (fst c')" by blast
  then have "bench_exec ops client (evs @ evs') (bench_init ctx_Err pool net numClients m report) =
    Ret c' \<and> all_exited (fst c')" by (simp add: bench_exec_append assms(3))
  then show ?thesis by blast
qed

end

end
