(* ===== verification/Benchmark_Suites.thy ===== *)
theory Benchmark_Suites
  imports Suite_Base Fdb
begin

text \<open>
  The five load generators, \<^verbatim>\<open>src/benchmark/tcp.go\<close>, \<^verbatim>\<open>udp.go\<close>, \<^verbatim>\<open>uds.go\<close>, \<^verbatim>\<open>dummy.go\<close> and
  \<^verbatim>\<open>quic.go\<close>: how a suite wires and starts its server, acquires a client, and what the goroutine
  of a client does, step by step. Each goroutine is shown to be a \<open>load_generator\<close>.
\<close>

section \<open>Suites\<close>

text \<open>
  The struct of a suite. All suites have the same fields; the instance they hold is passed
  along, and the pointer to the server is the type under which the transport manager holds it.
\<close>

record Suite =
  st_server :: "TransportType option"
  st_pool :: "bytes list"
  st_latencySampling :: int

text \<open>The address of a transport, as the interface's method \<open>Addr\<close> gives it.\<close>

fun Transport_Addr :: "('e, 't, 'g, 'c, 'l) AnyTransport \<Rightarrow> string" where
  "Transport_Addr (TrDummy s) = Dummy_Addr s"
| "Transport_Addr (TrQuic s) = Quic_Addr s"
| "Transport_Addr (TrUds s) = Uds_Addr s"
| "Transport_Addr (TrTcp s) = Tcp_Addr s"
| "Transport_Addr (TrUdp s) = Udp_Addr s"

text \<open>\<^verbatim>\<open>ts.server.Addr()\<close>; the pointer is nil before a start.\<close>

definition server_Addr :: "('e, 't, 'g, 'c, 'l) FDB \<Rightarrow> Suite \<Rightarrow> string go" where
  "server_Addr fdb ts =
     (case Option.bind (st_server ts) (tm_contents (fdb_tm fdb)) of
        None \<Rightarrow> Panic ''invalid memory address or nil pointer dereference''
      | Some server \<Rightarrow> Ret (Transport_Addr server))"

text \<open>\<^verbatim>\<open>if ts.server != nil { ts.server.Stop() }\<close>\<close>

definition server_Stop ::
    "('g, 'l) stop_env \<Rightarrow> ('e, 't, 'g, 'c, 'l) FDB \<Rightarrow> Suite \<Rightarrow>
     (error option \<times> ('e, 't, 'g, 'c, 'l) FDB) go" where
  "server_Stop sp fdb ts =
     (case st_server ts of
        None \<Rightarrow> Ret (None, fdb)
      | Some ty \<Rightarrow>
         (case tm_contents (fdb_tm fdb) ty of
            None \<Rightarrow> Panic ''invalid memory address or nil pointer dereference''
          | Some server \<Rightarrow>
              go_bind (Transport_Stop sp server) (\<lambda>(r, server).
                case r of
                  Some err \<Rightarrow> Ret (Some err, set_transport fdb ty server)
                | None \<Rightarrow> Ret (None, set_transport fdb ty server))))"

text \<open>Resolving the server's address and dialing it, as four of the suites do.\<close>

definition resolve_and_dial ::
    "'k netops \<Rightarrow> string \<Rightarrow> nat \<Rightarrow> 'k \<Rightarrow> error option \<times> 'k" where
  "resolve_and_dial ops addr i net =
     (case net_Resolve ops addr of
        Some err \<Rightarrow> (Some (Wrapped ''failed to resolve server address'' err), net)
      | None \<Rightarrow>
         (case net_Dial ops i addr net of
            (Some err, net) \<Rightarrow> (Some (Wrapped ''failed to connect to server'' err), net)
          | (None, net) \<Rightarrow> (None, net)))"

text \<open>The first bytes of a response buffer of size \<open>n\<close>, zeroed before the read.\<close>

definition response_buf :: "nat \<Rightarrow> bytes \<Rightarrow> bytes" where
  "response_buf n bs = take n (bs @ replicate n 0)"

section \<open>TCP\<close>

definition NewTcpSuite :: "int \<Rightarrow> Suite" where
  "NewTcpSuite latencySampling =
     \<lparr>st_server = None, st_pool = [], st_latencySampling = latencySampling\<rparr>"

definition TcpSuite_Start ::
    "('c, 'l) start_env \<Rightarrow> ('e, 't, 'g, 'c, 'l) FDB \<Rightarrow> Suite \<Rightarrow>
     (error option \<times> ('e, 't, 'g, 'c, 'l) FDB \<times> Suite) go" where
  "TcpSuite_Start se fdb ts =
     (case GetTransportByType fdb TCPTransportType of
        Inl err \<Rightarrow> Ret (Some (Wrapped ''failed to retrieve TCP transport'' err), fdb, ts)
      | Inr (TrTcp server) \<Rightarrow>
         (case GetDb (fdb_dbManager fdb) ''benchmark'' of
            Inl err \<Rightarrow> Ret (Some (Wrapped ''failed to retrieve benchmark database'' err), fdb, ts)
          | Inr bDb \<Rightarrow>
              go_bind (NewBatchWriter 512 500000000 15) (\<lambda>batchWriter.
                let q = length (fdb_writers fdb);
                    fdb = fdb\<lparr>fdb_writers := fdb_writers fdb @ [batchWriter]\<rparr>;
                    server = Tcp_RegisterHandler server WriteHandlerType
                      (TCPWriteHandler_HandleMessage (NewTCPWriteHandler q));
                    server = Tcp_RegisterHandler server ReadHandlerType TCPReadHandler_HandleMessage
                in go_bind (Tcp_Start server (se_outcome se TCPTransportType)) (\<lambda>(sErr, server).
                     Ret (None, set_transport fdb TCPTransportType (TrTcp server),
                          ts\<lparr>st_server := Some TCPTransportType\<rparr>))))
      | Inr _ \<Rightarrow> Ret (Some (Errorf ''failed to cast transport to TcpServer''), fdb, ts))"

definition TcpSuite_Stop ::
    "('g, 'l) stop_env \<Rightarrow> ('e, 't, 'g, 'c, 'l) FDB \<Rightarrow> Suite \<Rightarrow>
     (error option \<times> ('e, 't, 'g, 'c, 'l) FDB) go" where
  "TcpSuite_Stop sp fdb ts = server_Stop sp fdb ts"

definition TcpSuite_AcquireClient ::
    "'k netops \<Rightarrow> ('e, 't, 'g, 'c, 'l) FDB \<Rightarrow> Suite \<Rightarrow> nat \<Rightarrow> 'k \<Rightarrow> (error option \<times> 'k) go" where
  "TcpSuite_AcquireClient ops fdb ts i net =
     go_bind (server_Addr fdb ts) (\<lambda>addr. Ret (resolve_and_dial ops addr i net))"

text \<open>
  The goroutine of a client. In a write benchmark every message is written and answered; in a
  read benchmark a message is only a read of the response.
\<close>

fun TcpSuite_client ::
    "'k netops \<Rightarrow> ('e, 't, 'g, 'c, 'l) FDB \<Rightarrow> Suite \<Rightarrow> int \<Rightarrow> bool \<Rightarrow> 'k client" where
  "TcpSuite_client ops fdb ts m isWrite ch i AtAcquire b =
     go_bind (TcpSuite_AcquireClient ops fdb ts i (b_net b)) (\<lambda>(r, net).
       Ret (case r of Some err \<Rightarrow> AtExit (Some err) | None \<Rightarrow> AtSelect 0, b\<lparr>b_net := net\<rparr>))"
| "TcpSuite_client ops fdb ts m isWrite ch i (AtSelect j) b =
     (if \<not> j < m then Ret (AtReturn None, b)
      else case b_ctx_Err b of
             Some err \<Rightarrow> Ret (AtReturn (Some err), b)
           | None \<Rightarrow>
               let (buf, b) = pool_Get (ch_buf ch) b
               in if isWrite
                  then case EncodeWithBuffer (createWriteMessage (ch_key ch)) buf of
                         (Inl err, buf) \<Rightarrow>
                           Ret (AtReturn (Some (Wrapped ''failed to encode message'' err)), pool_Put buf b)
                       | (Inr encodedMessage, buf) \<Rightarrow> Ret (AtWrite j buf encodedMessage, b)
                  else Ret (AtRead j buf 1024, b))"
| "TcpSuite_client ops fdb ts m isWrite ch i (AtWrite j buf encodedMessage) b =
     go_bind (net_Write ops i encodedMessage (b_net b)) (\<lambda>(r, net).
       Ret (case r of
              Some err \<Rightarrow> bench_fail buf (Wrapped ''failed to write TCP message'' err) (b\<lparr>b_net := net\<rparr>)
            | None \<Rightarrow> (AtRead j buf (length encodedMessage), b\<lparr>b_net := net\<rparr>)))"
| "TcpSuite_client ops fdb ts m isWrite ch i (AtRead j buf n) b =
     go_bind (net_Read ops i n (b_net b)) (\<lambda>(r, net).
       Ret (case r of
              Inl err \<Rightarrow> bench_fail buf (Wrapped ''failed to read TCP response'' err) (b\<lparr>b_net := net\<rparr>)
            | Inr bs \<Rightarrow> (AtCount j buf, b\<lparr>b_net := net\<rparr>)))"
| "TcpSuite_client ops fdb ts m isWrite ch i (AtCount j buf) b =
     bench_count (st_latencySampling ts) (ch_latency ch) j buf b"
| "TcpSuite_client ops fdb ts m isWrite ch i (AtAppend j buf latency) b = Ret (bench_append j buf latency b)"
| "TcpSuite_client ops fdb ts m isWrite ch i (AtStore j buf latency loaded) b =
     Ret (bench_store j buf latency loaded b)"
| "TcpSuite_client ops fdb ts m isWrite ch i (AtReturn r) b = Ret (bench_close ops i r b)"
| "TcpSuite_client ops fdb ts m isWrite ch i (AtExit r) b = Ret (group_exit r b)"
| "TcpSuite_client ops fdb ts m isWrite ch i (Exited r) b = Blocked"

section \<open>UDP\<close>

definition NewUdpSuite :: "int \<Rightarrow> Suite" where
  "NewUdpSuite latencySampling =
     \<lparr>st_server = None, st_pool = [], st_latencySampling = latencySampling\<rparr>"

definition UdpSuite_Start ::
    "('c, 'l) start_env \<Rightarrow> ('e, 't, 'g, 'c, 'l) FDB \<Rightarrow> Suite \<Rightarrow>
     (error option \<times> ('e, 't, 'g, 'c, 'l) FDB \<times> Suite) go" where
  "UdpSuite_Start se fdb us =
     (case GetTransportByType fdb UDPTransportType of
        Inl err \<Rightarrow> Ret (Some (Wrapped ''failed to retrieve UDP transport'' err), fdb, us)
      | Inr (TrUdp server) \<Rightarrow>
         (case GetDb (fdb_dbManager fdb) ''benchmark'' of
            Inl err \<Rightarrow> Ret (Some (Wrapped ''failed to retrieve benchmark database'' err), fdb, us)
          | Inr bDb \<Rightarrow>
              go_bind (NewBatchWriter 512 500000000 15) (\<lambda>batchWriter.
                let q = length (fdb_writers fdb);
                    fdb = fdb\<lparr>fdb_writers := fdb_writers fdb @ [batchWriter]\<rparr>;
                    server = Udp_RegisterHandler server WriteHandlerType
                      (UDPWriteHandler_HandleMessage (NewUDPWriteHandler q));
                    server = Udp_RegisterHandler server ReadHandlerType UDPReadHandler_HandleMessage
                in go_bind (Udp_Start server (se_outcome se UDPTransportType)) (\<lambda>(sErr, server).
                     Ret (None, set_transport fdb UDPTransportType (TrUdp server),
                          us\<lparr>st_server := Some UDPTransportType\<rparr>))))
      | Inr _ \<Rightarrow> Ret (Some (Errorf ''failed to cast transport to UdpServer''), fdb, us))"

definition UdpSuite_Stop ::
    "('g, 'l) stop_env \<Rightarrow> ('e, 't, 'g, 'c, 'l) FDB \<Rightarrow> Suite \<Rightarrow>
     (error option \<times> ('e, 't, 'g, 'c, 'l) FDB) go" where
  "UdpSuite_Stop sp fdb us = server_Stop sp fdb us"

definition UdpSuite_AcquireClient ::
    "'k netops \<Rightarrow> ('e, 't, 'g, 'c, 'l) FDB \<Rightarrow> Suite \<Rightarrow> nat \<Rightarrow> 'k \<Rightarrow> (error option \<times> 'k) go" where
  "UdpSuite_AcquireClient ops fdb us i net =
     go_bind (server_Addr fdb us) (\<lambda>addr. Ret (resolve_and_dial ops addr i net))"

fun UdpSuite_client ::
    "'k netops \<Rightarrow> ('e, 't, 'g, 'c, 'l) FDB \<Rightarrow> Suite \<Rightarrow> int \<Rightarrow> bool \<Rightarrow> 'k client" where
  "UdpSuite_client ops fdb us m isWrite ch i AtAcquire b =
     go_bind (UdpSuite_AcquireClient ops fdb us i (b_net b)) (\<lambda>(r, net).
       Ret (case r of Some err \<Rightarrow> AtExit (Some err) | None \<Rightarrow> AtSelect 0, b\<lparr>b_net := net\<rparr>))"
| "UdpSuite_client ops fdb us m isWrite ch i (AtSelect j) b =
     (if \<not> j < m then Ret (AtReturn None, b)
      else case b_ctx_Err b of
             Some err \<Rightarrow> Ret (AtReturn (Some err), b)
           | None \<Rightarrow>
               let (buf, b) = pool_Get (ch_buf ch) b
               in if isWrite
                  then case EncodeWithBuffer (createWriteMessage (ch_key ch)) buf of
                         (Inl err, buf) \<Rightarrow>
                           Ret (AtReturn (Some (Wrapped ''failed to encode message'' err)), pool_Put buf b)
                       | (Inr encodedMessage, buf) \<Rightarrow> Ret (AtWrite j buf encodedMessage, b)
                  else Ret (AtRead j buf 1024, b))"
| "UdpSuite_client ops fdb us m isWrite ch i (AtWrite j buf encodedMessage) b =
     go_bind (net_Write ops i encodedMessage (b_net b)) (\<lambda>(r, net).
       Ret (case r of
              Some err \<Rightarrow> bench_fail buf (Wrapped ''failed to write UDP message'' err) (b\<lparr>b_net := net\<rparr>)
            | None \<Rightarrow> (AtRead j buf (length encodedMessage), b\<lparr>b_net := net\<rparr>)))"
| "UdpSuite_client ops fdb us m isWrite ch i (AtRead j buf n) b =
     go_bind (net_Read ops i n (b_net b)) (\<lambda>(r, net).
       Ret (case r of
              Inl err \<Rightarrow> bench_fail buf (Wrapped ''failed to read UDP response'' err) (b\<lparr>b_net := net\<rparr>)
            | Inr bs \<Rightarrow> (AtCount j buf, b\<lparr>b_net := net\<rparr>)))"
| "UdpSuite_client ops fdb us m isWrite ch i (AtCount j buf) b =
     bench_count (st_latencySampling us) (ch_latency ch) j buf b"
| "UdpSuite_client ops fdb us m isWrite ch i (AtAppend j buf latency) b = Ret (bench_append j buf latency b)"
| "UdpSuite_client ops fdb us m isWrite ch i (AtStore j buf latency loaded) b =
     Ret (bench_store j buf latency loaded b)"
| "UdpSuite_client ops fdb us m isWrite ch i (AtReturn r) b = Ret (bench_close ops i r b)"
| "UdpSuite_client ops fdb us m isWrite ch i (AtExit r) b = Ret (group_exit r b)"
| "UdpSuite_client ops fdb us m isWrite ch i (Exited r) b = Blocked"

section \<open>Unix domain sockets\<close>

definition NewUdsSuite :: "int \<Rightarrow> Suite" where
  "NewUdsSuite latencySampling =
     \<lparr>st_server = None, st_pool = [], st_latencySampling = latencySampling\<rparr>"

definition UdsSuite_Start ::
    "('c, 'l) start_env \<Rightarrow> ('e, 't, 'g, 'c, 'l) FDB \<Rightarrow> Suite \<Rightarrow>
     (error option \<times> ('e, 't, 'g, 'c, 'l) FDB \<times> Suite) go" where
  "UdsSuite_Start se fdb us =
     (case GetTransportByType fdb UDSTransportType of
        Inl err \<Rightarrow> Ret (Some (Wrapped ''failed to retrieve UDS transport'' err), fdb, us)
      | Inr (TrUds server) \<Rightarrow>
         (case GetDb (fdb_dbManager fdb) ''benchmark'' of
            Inl err \<Rightarrow> Ret (Some (Wrapped ''failed to retrieve benchmark database'' err), fdb, us)
          | Inr bDb \<Rightarrow>
              go_bind (NewBatchWriter 512 500000000 15) (\<lambda>batchWriter.
                let q = length (fdb_writers fdb);
                    fdb = fdb\<lparr>fdb_writers := fdb_writers fdb @ [batchWriter]\<rparr>;
                    server = Uds_RegisterHandler server WriteHandlerType
                      (UDSWriteHandler_HandleMessage (NewUDSWriteHandler q));
                    server = Uds_RegisterHandler server ReadHandlerType UDSReadHandler_HandleMessage
                in go_bind (Uds_Start server (se_outcome se UDSTransportType)) (\<lambda>(sErr, server).
                     Ret (None, set_transport fdb UDSTransportType (TrUds server),
                          us\<lparr>st_server := Some UDSTransportType\<rparr>))))
      | Inr _ \<Rightarrow> Ret (Some (Errorf ''failed to cast transport to UdsServer''), fdb, us))"

definition UdsSuite_Stop ::
    "('g, 'l) stop_env \<Rightarrow> ('e, 't, 'g, 'c, 'l) FDB \<Rightarrow> Suite \<Rightarrow>
     (error option \<times> ('e, 't, 'g, 'c, 'l) FDB) go" where
  "UdsSuite_Stop sp fdb us = server_Stop sp fdb us"

definition UdsSuite_AcquireClient ::
    "'k netops \<Rightarrow> ('e, 't, 'g, 'c, 'l) FDB \<Rightarrow> Suite \<Rightarrow> nat \<Rightarrow> 'k \<Rightarrow> (error option \<times> 'k) go" where
  "UdsSuite_AcquireClient ops fdb us i net =
     go_bind (server_Addr fdb us) (\<lambda>addr. Ret (resolve_and_dial ops addr i net))"

text \<open>Only this suite looks at the response: in a write benchmark its one byte has to be zero.\<close>

fun UdsSuite_client ::
    "'k netops \<Rightarrow> ('e, 't, 'g, 'c, 'l) FDB \<Rightarrow> Suite \<Rightarrow> int \<Rightarrow> bool \<Rightarrow> 'k client" where
  "UdsSuite_client ops fdb us m isWrite ch i AtAcquire b =
     go_bind (UdsSuite_AcquireClient ops fdb us i (b_net b)) (\<lambda>(r, net).
       Ret (case r of Some err \<Rightarrow> AtExit (Some err) | None \<Rightarrow> AtSelect 0, b\<lparr>b_net := net\<rparr>))"
| "UdsSuite_client ops fdb us m isWrite ch i (AtSelect j) b =
     (if \<not> j < m then Ret (AtReturn None, b)
      else case b_ctx_Err b of
             Some err \<Rightarrow> Ret (AtReturn (Some err), b)
           | None \<Rightarrow>
               let (buf, b) = pool_Get (ch_buf ch) b
               in if isWrite
                  then case EncodeWithBuffer (createWriteMessage (ch_key ch)) buf of
                         (Inl err, buf) \<Rightarrow>
                           Ret (AtReturn (Some (Wrapped ''failed to encode message'' err)), pool_Put buf b)
                       | (Inr encodedMessage, buf) \<Rightarrow> Ret (AtWrite j buf encodedMessage, b)
                  else Ret (AtRead j buf 1024, b))"
| "UdsSuite_client ops fdb us m isWrite ch i (AtWrite j buf encodedMessage) b =
     go_bind (net_Write ops i encodedMessage (b_net b)) (\<lambda>(r, net).
       Ret (case r of
              Some err \<Rightarrow> bench_fail buf (Wrapped ''failed to write UDS message'' err) (b\<lparr>b_net := net\<rparr>)
            | None \<Rightarrow> (AtRead j buf (1), b\<lparr>b_net := net\<rparr>)))"
| "UdsSuite_client ops fdb us m isWrite ch i (AtRead j buf n) b =
     go_bind (net_Read ops i n (b_net b)) (\<lambda>(r, net).
       Ret (case r of
              Inl err \<Rightarrow> bench_fail buf (Wrapped ''failed to read UDS response'' err) (b\<lparr>b_net := net\<rparr>)
            | Inr bs \<Rightarrow> if isWrite \<and> response_buf n bs ! 0 \<noteq> 0x00
                 then bench_fail buf (Errorf ''received error response from UDS server'') (b\<lparr>b_net := net\<rparr>)
                 else (AtCount j buf, b\<lparr>b_net := net\<rparr>)))"
| "UdsSuite_client ops fdb us m isWrite ch i (AtCount j buf) b =
     bench_count (st_latencySampling us) (ch_latency ch) j buf b"
| "UdsSuite_client ops fdb us m isWrite ch i (AtAppend j buf latency) b = Ret (bench_append j buf latency b)"
| "UdsSuite_client ops fdb us m isWrite ch i (AtStore j buf latency loaded) b =
     Ret (bench_store j buf latency loaded b)"
| "UdsSuite_client ops fdb us m isWrite ch i (AtReturn r) b = Ret (bench_close ops i r b)"
| "UdsSuite_client ops fdb us m isWrite ch i (AtExit r) b = Ret (group_exit r b)"
| "UdsSuite_client ops fdb us m isWrite ch i (Exited r) b = Blocked"

section \<open>Dummy\<close>

definition NewDummySuite :: "int \<Rightarrow> Suite" where
  "NewDummySuite latencySampling =
     \<lparr>st_server = None, st_pool = [], st_latencySampling = latencySampling\<rparr>"

definition DummySuite_Start ::
    "('c, 'l) start_env \<Rightarrow> ('e, 't, 'g, 'c, 'l) FDB \<Rightarrow> Suite \<Rightarrow>
     (error option \<times> ('e, 't, 'g, 'c, 'l) FDB \<times> Suite) go" where
  "DummySuite_Start se fdb ds =
     (case GetTransportByType fdb DummyTransportType of
        Inl err \<Rightarrow> Ret (Some (Wrapped ''failed to retrieve dummy transport'' err), fdb, ds)
      | Inr (TrDummy server) \<Rightarrow>
         (case GetDb (fdb_dbManager fdb) ''benchmark'' of
            Inl err \<Rightarrow> Ret (Some (Wrapped ''failed to retrieve benchmark database'' err), fdb, ds)
          | Inr db \<Rightarrow>
              let server = Dummy_RegisterHandler server WriteHandlerType DummyWriteHandler_HandleMessage;
                  server = Dummy_RegisterHandler server ReadHandlerType DummyReadHandler_HandleMessage
              in go_bind (Dummy_Start server (se_outcome se DummyTransportType)) (\<lambda>(sErr, server).
                   Ret (None, set_transport fdb DummyTransportType (TrDummy server),
                        ds\<lparr>st_server := Some DummyTransportType\<rparr>)))
      | Inr _ \<Rightarrow> Ret (Some (Errorf ''failed to cast transport to DummyServer''), fdb, ds))"

definition DummySuite_Stop ::
    "('g, 'l) stop_env \<Rightarrow> ('e, 't, 'g, 'c, 'l) FDB \<Rightarrow> Suite \<Rightarrow>
     (error option \<times> ('e, 't, 'g, 'c, 'l) FDB) go" where
  "DummySuite_Stop sp fdb ds = server_Stop sp fdb ds"

definition DummySuite_AcquireClient ::
    "'k netops \<Rightarrow> ('e, 't, 'g, 'c, 'l) FDB \<Rightarrow> Suite \<Rightarrow> nat \<Rightarrow> 'k \<Rightarrow> (error option \<times> 'k) go" where
  "DummySuite_AcquireClient ops fdb ds i net =
     go_bind (server_Addr fdb ds) (\<lambda>addr. Ret (resolve_and_dial ops addr i net))"

text \<open>
  The result of \<open>Write\<close> is assigned to a variable declared inside the branch, so the test after
  it sees the outer one, which is nil. The goroutine never waits for a response; the equation for
  \<^const>\<open>AtRead\<close>, which it does not reach, falls through.
\<close>

fun DummySuite_client ::
    "'k netops \<Rightarrow> ('e, 't, 'g, 'c, 'l) FDB \<Rightarrow> Suite \<Rightarrow> int \<Rightarrow> bool \<Rightarrow> 'k client" where
  "DummySuite_client ops fdb ds m isWrite ch i AtAcquire b =
     go_bind (DummySuite_AcquireClient ops fdb ds i (b_net b)) (\<lambda>(r, net).
       Ret (case r of Some err \<Rightarrow> AtExit (Some err) | None \<Rightarrow> AtSelect 0, b\<lparr>b_net := net\<rparr>))"
| "DummySuite_client ops fdb ds m isWrite ch i (AtSelect j) b =
     (if \<not> j < m then Ret (AtReturn None, b)
      else case b_ctx_Err b of
             Some err \<Rightarrow> Ret (AtReturn (Some err), b)
           | None \<Rightarrow>
               let (buf, b) = pool_Get (ch_buf ch) b
               in case EncodeWithBuffer (if isWrite then createWriteMessage (ch_key ch)
                      else createReadMessage (replicate 32 0)) buf of
                    (Inl err, buf) \<Rightarrow>
                      Ret (AtReturn (Some (Wrapped ''failed to encode message'' err)), pool_Put buf b)
                  | (Inr encodedMessage, buf) \<Rightarrow> Ret (AtWrite j buf encodedMessage, b))"
| "DummySuite_client ops fdb ds m isWrite ch i (AtWrite j buf encodedMessage) b =
     go_bind (net_Write ops i encodedMessage (b_net b)) (\<lambda>(_, net).
       Ret (AtCount j buf, b\<lparr>b_net := net\<rparr>))"
| "DummySuite_client ops fdb ds m isWrite ch i (AtRead j buf n) b = Ret (AtCount j buf, b)"
| "DummySuite_client ops fdb ds m isWrite ch i (AtCount j buf) b =
     bench_count (st_latencySampling ds) (ch_latency ch) j buf b"
| "DummySuite_client ops fdb ds m isWrite ch i (AtAppend j buf latency) b = Ret (bench_append j buf latency b)"
| "DummySuite_client ops fdb ds m isWrite ch i (AtStore j buf latency loaded) b =
     Ret (bench_store j buf latency loaded b)"
| "DummySuite_client ops fdb ds m isWrite ch i (AtReturn r) b = Ret (bench_close ops i r b)"
| "DummySuite_client ops fdb ds m isWrite ch i (AtExit r) b = Ret (group_exit r b)"
| "DummySuite_client ops fdb ds m isWrite ch i (Exited r) b = Blocked"

section \<open>QUIC\<close>

definition NewQuicSuite :: "int \<Rightarrow> Suite" where
  "NewQuicSuite latencySampling =
     \<lparr>st_server = None, st_pool = [], st_latencySampling = latencySampling\<rparr>"

definition QuicSuite_Start ::
    "('c, 'l) start_env \<Rightarrow> ('e, 't, 'g, 'c, 'l) FDB \<Rightarrow> Suite \<Rightarrow>
     (error option \<times> ('e, 't, 'g, 'c, 'l) FDB \<times> Suite) go" where
  "QuicSuite_Start se fdb qs =
     (case GetTransportByType fdb QUICTransportType of
        Inl err \<Rightarrow> Ret (Some (Wrapped ''failed to retrieve QUIC transport'' err), fdb, qs)
      | Inr (TrQuic server) \<Rightarrow>
         (case GetDb (fdb_dbManager fdb) ''benchmark'' of
            Inl err \<Rightarrow> Ret (Some (Wrapped ''failed to retrieve benchmark database'' err), fdb, qs)
          | Inr bDb \<Rightarrow>
              go_bind (NewBatchWriter 512 500000000 15) (\<lambda>batchWriter.
                let q = length (fdb_writers fdb);
                    fdb = fdb\<lparr>fdb_writers := fdb_writers fdb @ [batchWriter]\<rparr>;
                    server = Quic_RegisterHandler server WriteHandlerType
                      (QuicWriteHandler_HandleMessage (NewQuicWriteHandler q));
                    server = Quic_RegisterHandler server ReadHandlerType QuicReadHandler_HandleMessage
                in go_bind (Quic_Start (se_ListenAddr se) server) (\<lambda>(r, server).
                     let fdb = set_transport fdb QUICTransportType (TrQuic server)
                     in Ret (case r of
                               Some err \<Rightarrow> (Some (Wrapped ''failed to start QUIC server'' err), fdb, qs)
                             | None \<Rightarrow> (None, fdb, qs\<lparr>st_server := Some QUICTransportType\<rparr>)))))
      | Inr _ \<Rightarrow> Ret (Some (Errorf ''failed to cast transport to QuicServer''), fdb, qs))"

definition QuicSuite_Stop ::
    "('g, 'l) stop_env \<Rightarrow> ('e, 't, 'g, 'c, 'l) FDB \<Rightarrow> Suite \<Rightarrow>
     (error option \<times> ('e, 't, 'g, 'c, 'l) FDB) go" where
  "QuicSuite_Stop sp fdb qs = server_Stop sp fdb qs"

definition QuicSuite_AcquireClient ::
    "'k netops \<Rightarrow> ('e, 't, 'g, 'c, 'l) FDB \<Rightarrow> Suite \<Rightarrow> nat \<Rightarrow> 'k \<Rightarrow> (error option \<times> 'k) go" where
  "QuicSuite_AcquireClient ops fdb qs i net =
     go_bind (server_Addr fdb qs) (\<lambda>serverAddr.
       Ret (case net_Dial ops i serverAddr net of
              (Some err, net) \<Rightarrow> (Some (Wrapped ''failed to dial QUIC server'' err), net)
            | (None, net) \<Rightarrow>
               (case net_OpenStream ops i net of
                  (Some err, net) \<Rightarrow> (Some (Wrapped ''failed to open stream'' err), net)
                | (None, net) \<Rightarrow> (None, net))))"

text \<open>In a read benchmark a message is nothing at all.\<close>

fun QuicSuite_client ::
    "'k netops \<Rightarrow> ('e, 't, 'g, 'c, 'l) FDB \<Rightarrow> Suite \<Rightarrow> int \<Rightarrow> bool \<Rightarrow> 'k client" where
  "QuicSuite_client ops fdb qs m isWrite ch i AtAcquire b =
     go_bind (QuicSuite_AcquireClient ops fdb qs i (b_net b)) (\<lambda>(r, net).
       Ret (case r of Some err \<Rightarrow> AtExit (Some err) | None \<Rightarrow> AtSelect 0, b\<lparr>b_net := net\<rparr>))"
| "QuicSuite_client ops fdb qs m isWrite ch i (AtSelect j) b =
     (if \<not> j < m then Ret (AtReturn None, b)
      else case b_ctx_Err b of
             Some err \<Rightarrow> Ret (AtReturn (Some err), b)
           | None \<Rightarrow>
               let (buf, b) = pool_Get (ch_buf ch) b
               in if isWrite
                  then case EncodeWithBuffer (createWriteMessage (ch_key ch)) buf of
                         (Inl err, buf) \<Rightarrow>
                           Ret (AtReturn (Some (Wrapped ''failed to encode message'' err)), pool_Put buf b)
                       | (Inr encodedMessage, buf) \<Rightarrow> Ret (AtWrite j buf encodedMessage, b)
                  else Ret (AtCount j buf, b))"
| "QuicSuite_client ops fdb qs m isWrite ch i (AtWrite j buf encodedMessage) b =
     go_bind (net_Write ops i encodedMessage (b_net b)) (\<lambda>(r, net).
       Ret (case r of
              Some err \<Rightarrow> bench_fail buf (Wrapped ''failed to write QUIC message'' err) (b\<lparr>b_net := net\<rparr>)
            | None \<Rightarrow> (AtRead j buf (length encodedMessage), b\<lparr>b_net := net\<rparr>)))"
| "QuicSuite_client ops fdb qs m isWrite ch i (AtRead j buf n) b =
     go_bind (net_Read ops i n (b_net b)) (\<lambda>(r, net).
       Ret (case r of
              Inl err \<Rightarrow> bench_fail buf (Wrapped ''failed to read QUIC response'' err) (b\<lparr>b_net := net\<rparr>)
            | Inr bs \<Rightarrow> (AtCount j buf, b\<lparr>b_net := net\<rparr>)))"
| "QuicSuite_client ops fdb qs m isWrite ch i (AtCount j buf) b =
     bench_count (st_latencySampling qs) (ch_latency ch) j buf b"
| "QuicSuite_client ops fdb qs m isWrite ch i (AtAppend j buf latency) b = Ret (bench_append j buf latency b)"
| "QuicSuite_client ops fdb qs m isWrite ch i (AtStore j buf latency loaded) b =
     Ret (bench_store j buf latency loaded b)"
| "QuicSuite_client ops fdb qs m isWrite ch i (AtReturn r) b = Ret (bench_close ops i r b)"
| "QuicSuite_client ops fdb qs m isWrite ch i (AtExit r) b = Ret (group_exit r b)"
| "QuicSuite_client ops fdb qs m isWrite ch i (Exited r) b = Blocked"

section \<open>Running a benchmark\<close>

text \<open>
  What a run takes from outside: the schedule of its goroutines, the elapsed time, the memory in
  use, and the error of the caller's context if it was cancelled before.
\<close>

record run_env =
  rn_schedule :: "bench_event list"
  rn_duration :: int
  rn_memory :: "64 word"
  rn_ctx_Err :: "error option"

text \<open>
  The common frame of the suites' \<open>runBenchmark\<close>; the pool outlives the run. The result is the
  returned error, the report, the suite and the network.
\<close>

definition run_suite ::
    "'k netops \<Rightarrow> 'k client \<Rightarrow> run_env \<Rightarrow> Suite \<Rightarrow> 'k \<Rightarrow> int \<Rightarrow> int \<Rightarrow> Report \<Rightarrow>
     (error option \<times> Report \<times> Suite \<times> 'k) go" where
  "run_suite ops client rn suite net numClients numMessagesPerClient report =
     go_bind (bench_run ops client (rn_schedule rn) (rn_duration rn) (rn_memory rn)
         (bench_init (rn_ctx_Err rn) (st_pool suite) net numClients numMessagesPerClient report))
       (\<lambda>(r, report, b). Ret (r, report, suite\<lparr>st_pool := b_pool b\<rparr>, b_net b))"

definition TcpSuite_runBenchmark ::
    "'k netops \<Rightarrow> ('e, 't, 'g, 'c, 'l) FDB \<Rightarrow> Suite \<Rightarrow> run_env \<Rightarrow> 'k \<Rightarrow> int \<Rightarrow> int \<Rightarrow> Report \<Rightarrow> bool \<Rightarrow>
     (error option \<times> Report \<times> Suite \<times> 'k) go" where
  "TcpSuite_runBenchmark ops fdb ts rn net numClients numMessagesPerClient report isWrite =
     run_suite ops (TcpSuite_client ops fdb ts numMessagesPerClient isWrite) rn ts net
       numClients numMessagesPerClient report"

definition TcpSuite_RunWriteBenchmark ::
    "'k netops \<Rightarrow> ('e, 't, 'g, 'c, 'l) FDB \<Rightarrow> Suite \<Rightarrow> run_env \<Rightarrow> 'k \<Rightarrow> int \<Rightarrow> int \<Rightarrow> Report \<Rightarrow>
     (error option \<times> Report \<times> Suite \<times> 'k) go" where
  "TcpSuite_RunWriteBenchmark ops fdb ts rn net numClients numMessagesPerClient report =
     TcpSuite_runBenchmark ops fdb ts rn net numClients numMessagesPerClient report True"

definition TcpSuite_RunReadBenchmark ::
    "'k netops \<Rightarrow> ('e, 't, 'g, 'c, 'l) FDB \<Rightarrow> Suite \<Rightarrow> run_env \<Rightarrow> 'k \<Rightarrow> int \<Rightarrow> int \<Rightarrow> Report \<Rightarrow>
     (error option \<times> Report \<times> Suite \<times> 'k) go" where
  "TcpSuite_RunReadBenchmark ops fdb ts rn net numClients numMessagesPerClient report =
     TcpSuite_runBenchmark ops fdb ts rn net numClients numMessagesPerClient report False"

definition UdpSuite_runBenchmark ::
    "'k netops \<Rightarrow> ('e, 't, 'g, 'c, 'l) FDB \<Rightarrow> Suite \<Rightarrow> run_env \<Rightarrow> 'k \<Rightarrow> int \<Rightarrow> int \<Rightarrow> Report \<Rightarrow> bool \<Rightarrow>
     (error option \<times> Report \<times> Suite \<times> 'k) go" where
  "UdpSuite_runBenchmark ops fdb us rn net numClients numMessagesPerClient report isWrite =
     run_suite ops (UdpSuite_client ops fdb us numMessagesPerClient isWrite) rn us net
       numClients numMessagesPerClient report"

definition UdpSuite_RunWriteBenchmark ::
    "'k netops \<Rightarrow> ('e, 't, 'g, 'c, 'l) FDB \<Rightarrow> Suite \<Rightarrow> run_env \<Rightarrow> 'k \<Rightarrow> int \<Rightarrow> int \<Rightarrow> Report \<Rightarrow>
     (error option \<times> Report \<times> Suite \<times> 'k) go" where
  "UdpSuite_RunWriteBenchmark ops fdb us rn net numClients numMessagesPerClient report =
     UdpSuite_runBenchmark ops fdb us rn net numClients numMessagesPerClient report True"

definition UdpSuite_RunReadBenchmark ::
    "'k netops \<Rightarrow> ('e, 't, 'g, 'c, 'l) FDB \<Rightarrow> Suite \<Rightarrow> run_env \<Rightarrow> 'k \<Rightarrow> int \<Rightarrow> int \<Rightarrow> Report \<Rightarrow>
     (error option \<times> Report \<times> Suite \<times> 'k) go" where
  "UdpSuite_RunReadBenchmark ops fdb us rn net numClients numMessagesPerClient report =
     UdpSuite_runBenchmark ops fdb us rn net numClients numMessagesPerClient report False"

definition UdsSuite_runBenchmark ::
    "'k netops \<Rightarrow> ('e, 't, 'g, 'c, 'l) FDB \<Rightarrow> Suite \<Rightarrow> run_env \<Rightarrow> 'k \<Rightarrow> int \<Rightarrow> int \<Rightarrow> Report \<Rightarrow> bool \<Rightarrow>
     (error option \<times> Report \<times> Suite \<times> 'k) go" where
  "UdsSuite_runBenchmark ops fdb us rn net numClients numMessagesPerClient report isWrite =
     run_suite ops (UdsSuite_client ops fdb us numMessagesPerClient isWrite) rn us net
       numClients numMessagesPerClient report"

definition UdsSuite_RunWriteBenchmark ::
    "'k netops \<Rightarrow> ('e, 't, 'g, 'c, 'l) FDB \<Rightarrow> Suite \<Rightarrow> run_env \<Rightarrow> 'k \<Rightarrow> int \<Rightarrow> int \<Rightarrow> Report \<Rightarrow>
     (error option \<times> Report \<times> Suite \<times> 'k) go" where
  "UdsSuite_RunWriteBenchmark ops fdb us rn net numClients numMessagesPerClient report =
     UdsSuite_runBenchmark ops fdb us rn net numClients numMessagesPerClient report True"

definition UdsSuite_RunReadBenchmark ::
    "'k netops \<Rightarrow> ('e, 't, 'g, 'c, 'l) FDB \<Rightarrow> Suite \<Rightarrow> run_env \<Rightarrow> 'k \<Rightarrow> int \<Rightarrow> int \<Rightarrow> Report \<Rightarrow>
     (error option \<times> Report \<times> Suite \<times> 'k) go" where
  "UdsSuite_RunReadBenchmark ops fdb us rn net numClients numMessagesPerClient report =
     UdsSuite_runBenchmark ops fdb us rn net numClients numMessagesPerClient report False"

definition DummySuite_runBenchmark ::
    "'k netops \<Rightarrow> ('e, 't, 'g, 'c, 'l) FDB \<Rightarrow> Suite \<Rightarrow> run_env \<Rightarrow> 'k \<Rightarrow> int \<Rightarrow> int \<Rightarrow> Report \<Rightarrow> bool \<Rightarrow>
     (error option \<times> Report \<times> Suite \<times> 'k) go" where
  "DummySuite_runBenchmark ops fdb ds rn net numClients numMessagesPerClient report isWrite =
     run_suite ops (DummySuite_client ops fdb ds numMessagesPerClient isWrite) rn ds net
       numClients numMessagesPerClient report"

definition DummySuite_RunWriteBenchmark ::
    "'k netops \<Rightarrow> ('e, 't, 'g, 'c, 'l) FDB \<Rightarrow> Suite \<Rightarrow> run_env \<Rightarrow> 'k \<Rightarrow> int \<Rightarrow> int \<Rightarrow> Report \<Rightarrow>
     (error option \<times> Report \<times> Suite \<times> 'k) go" where
  "DummySuite_RunWriteBenchmark ops fdb ds rn net numClients numMessagesPerClient report =
     DummySuite_runBenchmark ops fdb ds rn net numClients numMessagesPerClient report True"

definition DummySuite_RunReadBenchmark ::
    "'k netops \<Rightarrow> ('e, 't, 'g, 'c, 'l) FDB \<Rightarrow> Suite \<Rightarrow> run_env \<Rightarrow> 'k \<Rightarrow> int \<Rightarrow> int \<Rightarrow> Report \<Rightarrow>
     (error option \<times> Report \<times> Suite \<times> 'k) go" where
  "DummySuite_RunReadBenchmark ops fdb ds rn net numClients numMessagesPerClient report =
     DummySuite_runBenchmark ops fdb ds rn net numClients numMessagesPerClient report False"

definition QuicSuite_runBenchmark ::
    "'k netops \<Rightarrow> ('e, 't, 'g, 'c, 'l) FDB \<Rightarrow> Suite \<Rightarrow> run_env \<Rightarrow> 'k \<Rightarrow> int \<Rightarrow> int \<Rightarrow> Report \<Rightarrow> bool \<Rightarrow>
     (error option \<times> Report \<times> Suite \<times> 'k) go" where
  "QuicSuite_runBenchmark ops fdb qs rn net numClients numMessagesPerClient report isWrite =
     run_suite ops (QuicSuite_client ops fdb qs numMessagesPerClient isWrite) rn qs net
       numClients numMessagesPerClient report"

definition QuicSuite_RunWriteBenchmark ::
    "'k netops \<Rightarrow> ('e, 't, 'g, 'c, 'l) FDB \<Rightarrow> Suite \<Rightarrow> run_env \<Rightarrow> 'k \<Rightarrow> int \<Rightarrow> int \<Rightarrow> Report \<Rightarrow>
     (error option \<times> Report \<times> Suite \<times> 'k) go" where
  "QuicSuite_RunWriteBenchmark ops fdb qs rn net numClients numMessagesPerClient report =
     QuicSuite_runBenchmark ops fdb qs rn net numClients numMessagesPerClient report True"

definition QuicSuite_RunReadBenchmark ::
    "'k netops \<Rightarrow> ('e, 't, 'g, 'c, 'l) FDB \<Rightarrow> Suite \<Rightarrow> run_env \<Rightarrow> 'k \<Rightarrow> int \<Rightarrow> int \<Rightarrow> Report \<Rightarrow>
     (error option \<times> Report \<times> Suite \<times> 'k) go" where
  "QuicSuite_RunReadBenchmark ops fdb qs rn net numClients numMessagesPerClient report =
     QuicSuite_runBenchmark ops fdb qs rn net numClients numMessagesPerClient report False"

section \<open>The suites are load generators\<close>

lemma encode_pooled:
  assumes "length buf = 64"
  obtains enc buf' where "EncodeWithBuffer (createWriteMessage key) buf = (Inr enc, buf')" "length buf' = 64"
  using assms by (auto simp: EncodeWithBuffer_def createWriteMessage_def bytes_of_string_def Let_def)

lemma encode_pooled_read:
  assumes "length buf = 64"
  obtains enc buf' where "EncodeWithBuffer (createReadMessage key) buf = (Inr enc, buf')" "length buf' = 64"
  using assms by (auto simp: EncodeWithBuffer_def createReadMessage_def Let_def)

lemma pool_Get_ok:
  assumes "pool_ok b"
  obtains buf b' where "pool_Get n b = (buf, b')" "length buf = 64" "quiet b b'"
  using assms
  by (cases "n < length (b_pool b)")
     (auto simp: pool_Get_def pool_ok_def quiet_def dest: in_set_takeD in_set_dropD)

lemma quiet_net: "pool_ok b \<Longrightarrow> quiet b (b\<lparr>b_net := net\<rparr>)"
  by (simp add: quiet_def pool_ok_def)

lemma quiet_put: "quiet b b' \<Longrightarrow> length buf = 64 \<Longrightarrow> quiet b (pool_Put buf b')"
  by (simp add: quiet_def pool_ok_def pool_Put_def)

lemma fail_move:
  assumes "pc \<in> {AtWrite j buf enc, AtRead j buf n}" and "length buf = 64" and "pool_ok b"
  shows "client_move m s pc b (fst (bench_fail buf err (b\<lparr>b_net := net\<rparr>)))
    (snd (bench_fail buf err (b\<lparr>b_net := net\<rparr>)))"
  unfolding bench_fail_def fst_conv snd_conv using assms(1)
  by (rule failed) (use assms(2,3) in \<open>simp add: quiet_def pool_ok_def pool_Put_def\<close>)

text \<open>The part of the loop that the five suites have in common.\<close>

lemma common_moves:
  assumes "pool_ok b"
  shows "length buf = 64 \<Longrightarrow> bench_count s latency j buf b = Ret (pc', b') \<Longrightarrow>
      client_move m s (AtCount j buf) b pc' b'"
    and "bench_append j buf latency b = (pc', b') \<Longrightarrow>
      client_move m s (AtAppend j buf latency) b pc' b'"
    and "length buf = 64 \<Longrightarrow> bench_store j buf latency loaded b = (pc', b') \<Longrightarrow>
      client_move m s (AtStore j buf latency loaded) b pc' b'"
    and "bench_close ops i r b = (pc', b') \<Longrightarrow> client_move m s (AtReturn r) b pc' b'"
    and "group_exit r b = (pc', b') \<Longrightarrow> client_move m s (AtExit r) b pc' b'"
proof -
  let ?c = "b\<lparr>b_success := wrap64 (b_success b + 1)\<rparr>"
  assume buf: "length buf = 64" and c: "bench_count s latency j buf b = Ret (pc', b')"
  have "s \<noteq> 0" "quiet ?c b'" "pc' = (if j smod s = 0 then AtAppend j buf latency else AtSelect (j + 1))"
    using c buf assms
    by (auto simp: bench_count_def Let_def quiet_def pool_ok_def pool_Put_def split: if_splits)
  then show "client_move m s (AtCount j buf) b pc' b'" using counted [of s b b' m j buf latency] by simp
next
  show "bench_append j buf latency b = (pc', b') \<Longrightarrow>
      client_move m s (AtAppend j buf latency) b pc' b'"
    using loaded by (auto simp: bench_append_def)
next
  assume "length buf = 64" and "bench_store j buf latency loaded b = (pc', b')"
  then show "client_move m s (AtStore j buf latency loaded) b pc' b'" using assms
    by (auto simp: bench_store_def quiet_def pool_ok_def pool_Put_def intro!: stored)
next
  show "bench_close ops i r b = (pc', b') \<Longrightarrow> client_move m s (AtReturn r) b pc' b'"
    using quiet_net [OF assms] by (auto simp: bench_close_def intro!: closed)
next
  show "group_exit r b = (pc', b') \<Longrightarrow> client_move m s (AtExit r) b pc' b'"
    using exited [of m s r b] by (auto simp: group_exit_def)
qed

lemma acquire_move:
  assumes "pool_ok b" and "go_bind x (\<lambda>(r, net).
       Ret (case r of Some err \<Rightarrow> AtExit (Some err) | None \<Rightarrow> AtSelect 0, b\<lparr>b_net := net\<rparr>)) = Ret (pc', b')"
  shows "client_move m s AtAcquire b pc' b'"
proof -
  obtain r net where x: "x = Ret (r, net)" using assms(2) by (auto simp: go_bind_Ret_iff)
  show ?thesis
    using assms(2) acquired [OF quiet_net [OF assms(1)]] refused [OF quiet_net [OF assms(1)]]
    by (cases r) (auto simp: x)
qed

lemma select_move:
  assumes ok: "pool_ok b"
    and step: "(if \<not> j < m then Ret (AtReturn None, b)
      else case b_ctx_Err b of
             Some err \<Rightarrow> Ret (AtReturn (Some err), b)
           | None \<Rightarrow> let (buf, b) = pool_Get n b in K buf b) = Ret (pc', b')"
    and K: "\<And>buf b1. length buf = 64 \<Longrightarrow> K buf b1 = Ret (pc', b') \<Longrightarrow>
      b' = b1 \<and> (\<exists>buf enc n. length buf = 64 \<and> pc' \<in> {AtWrite j buf enc, AtRead j buf n, AtCount j buf})"
  shows "client_move m s (AtSelect j) b pc' b'"
proof (cases "j < m \<and> b_ctx_Err b = None")
  case True
  obtain buf b1 where g: "pool_Get n b = (buf, b1)" "length buf = 64" "quiet b b1"
    using pool_Get_ok [OF ok] .
  then have "K buf b1 = Ret (pc', b')" using step True by simp
  from K [OF g(2) this] obtain buf' enc n where
    "b' = b1" "length buf' = 64" "pc' \<in> {AtWrite j buf' enc, AtRead j buf' n, AtCount j buf'}" by blast
  then show ?thesis using True g(3) by (intro begun) auto
next
  case False
  then show ?thesis using step by (auto split: if_splits option.splits intro: ended cancelled)
qed

lemma write_move:
  assumes "pool_ok b" and "length buf = 64" and "go_bind x (\<lambda>(r, net).
       Ret (case r of Some err \<Rightarrow> bench_fail buf (E err) (b\<lparr>b_net := net\<rparr>)
            | None \<Rightarrow> (AtRead j buf n, b\<lparr>b_net := net\<rparr>))) = Ret (pc', b')"
  shows "client_move m s (AtWrite j buf enc) b pc' b'"
proof -
  obtain r net where x: "x = Ret (r, net)" using assms(3) by (auto simp: go_bind_Ret_iff)
  show ?thesis
  proof (cases r)
    case None
    then show ?thesis using assms(3) quiet_net [OF assms(1), of net] by (auto simp: x intro: sent)
  next
    case (Some err)
    then have "(pc', b') = bench_fail buf (E err) (b\<lparr>b_net := net\<rparr>)" using assms(3) by (simp add: x)
    then show ?thesis
      using fail_move [of "AtWrite j buf enc" j buf enc 0 b m s, OF _ assms(2,1)] by (metis fst_conv insertI1 snd_conv)
  qed
qed

lemma read_check_move:
  assumes "pool_ok b" and "length buf = 64" and "go_bind x (\<lambda>(r, net).
       Ret (case r of Inl err \<Rightarrow> bench_fail buf (E err) (b\<lparr>b_net := net\<rparr>)
            | Inr bs \<Rightarrow> if P bs then bench_fail buf E' (b\<lparr>b_net := net\<rparr>)
                else (AtCount j buf, b\<lparr>b_net := net\<rparr>))) = Ret (pc', b')"
  shows "client_move m s (AtRead j buf n) b pc' b'"
proof -
  obtain r net where x: "x = Ret (r, net)" using assms(3) by (auto simp: go_bind_Ret_iff)
  have "(\<exists>err. (pc', b') = bench_fail buf err (b\<lparr>b_net := net\<rparr>)) \<or>
      pc' = AtCount j buf \<and> b' = b\<lparr>b_net := net\<rparr>"
  proof (cases r)
    case (Inl err)
    then have "(pc', b') = bench_fail buf (E err) (b\<lparr>b_net := net\<rparr>)" using assms(3) by (simp add: x)
    then show ?thesis by blast
  next
    case (Inr bs)
    then show ?thesis using assms(3) by (cases "P bs") (auto simp: x intro: sym)
  qed
  then show ?thesis
  proof
    assume "\<exists>err. (pc', b') = bench_fail buf err (b\<lparr>b_net := net\<rparr>)"
    then show ?thesis
      using fail_move [of "AtRead j buf n" j buf "[]" n b m s, OF _ assms(2,1)]
      by (metis fst_conv insertI1 insertI2 snd_conv)
  next
    assume "pc' = AtCount j buf \<and> b' = b\<lparr>b_net := net\<rparr>"
    then show ?thesis using quiet_net [OF assms(1), of net] by (auto intro: answered)
  qed
qed

lemmas read_move = read_check_move [where P = "\<lambda>_. False", unfolded if_False]

lemma begun_write:
  assumes "(case EncodeWithBuffer (createWriteMessage key) buf of
      (Inl err, buf) \<Rightarrow> Ret (AtReturn (Some (Wrapped ''failed to encode message'' err)), pool_Put buf b)
    | (Inr enc, buf) \<Rightarrow> Ret (AtWrite j buf enc, b)) = Ret (pc', b')" and "length buf = 64"
  shows "b' = b \<and> (\<exists>buf enc n. length buf = 64 \<and> pc' \<in> {AtWrite j buf enc, AtRead j buf n, AtCount j buf})"
  by (rule encode_pooled [OF assms(2), of key]) (use assms(1) in auto)

lemma begun_read:
  assumes "(case EncodeWithBuffer (createReadMessage key) buf of
      (Inl err, buf) \<Rightarrow> Ret (AtReturn (Some (Wrapped ''failed to encode message'' err)), pool_Put buf b)
    | (Inr enc, buf) \<Rightarrow> Ret (AtWrite j buf enc, b)) = Ret (pc', b')" and "length buf = 64"
  shows "b' = b \<and> (\<exists>buf enc n. length buf = 64 \<and> pc' \<in> {AtWrite j buf enc, AtRead j buf n, AtCount j buf})"
  by (rule encode_pooled_read [OF assms(2), of key]) (use assms(1) in auto)

lemma TcpSuite_moves:
  assumes "pc_ok m (st_latencySampling ts) pc" and "pool_ok b"
    and "TcpSuite_client ops fdb ts m isWrite ch i pc b = Ret (pc', b')"
  shows "client_move m (st_latencySampling ts) pc b pc' b'"
proof (cases pc)
  case AtAcquire
  show ?thesis
    unfolding AtAcquire by (rule acquire_move [OF assms(2) assms(3) [unfolded AtAcquire TcpSuite_client.simps]])
next
  case (AtSelect j)
  show ?thesis
    unfolding AtSelect by (rule select_move [OF assms(2) assms(3) [unfolded AtSelect TcpSuite_client.simps]])
      (auto split: if_split_asm dest!: begun_write)
next
  case (AtWrite j buf enc)
  show ?thesis
    unfolding AtWrite by (rule write_move [OF assms(2) _ assms(3) [unfolded AtWrite TcpSuite_client.simps]])
      (use assms(1) in \<open>simp add: AtWrite\<close>)
next
  case (AtRead j buf n)
  show ?thesis
    unfolding AtRead by (rule read_move [OF assms(2) _ assms(3) [unfolded AtRead TcpSuite_client.simps]])
      (use assms(1) in \<open>simp add: AtRead\<close>)
qed (use assms common_moves [OF assms(2)] in auto)

interpretation tcpg: load_generator ops "TcpSuite_client ops fdb ts m isWrite" m "st_latencySampling ts"
  for ops fdb ts m isWrite
  by unfold_locales (rule TcpSuite_moves)

lemma UdpSuite_moves:
  assumes "pc_ok m (st_latencySampling us) pc" and "pool_ok b"
    and "UdpSuite_client ops fdb us m isWrite ch i pc b = Ret (pc', b')"
  shows "client_move m (st_latencySampling us) pc b pc' b'"
proof (cases pc)
  case AtAcquire
  show ?thesis
    unfolding AtAcquire by (rule acquire_move [OF assms(2) assms(3) [unfolded AtAcquire UdpSuite_client.simps]])
next
  case (AtSelect j)
  show ?thesis
    unfolding AtSelect by (rule select_move [OF assms(2) assms(3) [unfolded AtSelect UdpSuite_client.simps]])
      (auto split: if_split_asm dest!: begun_write)
next
  case (AtWrite j buf enc)
  show ?thesis
    unfolding AtWrite by (rule write_move [OF assms(2) _ assms(3) [unfolded AtWrite UdpSuite_client.simps]])
      (use assms(1) in \<open>simp add: AtWrite\<close>)
next
  case (AtRead j buf n)
  show ?thesis
    unfolding AtRead by (rule read_move [OF assms(2) _ assms(3) [unfolded AtRead UdpSuite_client.simps]])
      (use assms(1) in \<open>simp add: AtRead\<close>)
qed (use assms common_moves [OF assms(2)] in auto)

interpretation udpg: load_generator ops "UdpSuite_client ops fdb us m isWrite" m "st_latencySampling us"
  for ops fdb us m isWrite
  by unfold_locales (rule UdpSuite_moves)

lemma UdsSuite_moves:
  assumes "pc_ok m (st_latencySampling us) pc" and "pool_ok b"
    and "UdsSuite_client ops fdb us m isWrite ch i pc b = Ret (pc', b')"
  shows "client_move m (st_latencySampling us) pc b pc' b'"
proof (cases pc)
  case AtAcquire
  show ?thesis
    unfolding AtAcquire by (rule acquire_move [OF assms(2) assms(3) [unfolded AtAcquire UdsSuite_client.simps]])
next
  case (AtSelect j)
  show ?thesis
    unfolding AtSelect by (rule select_move [OF assms(2) assms(3) [unfolded AtSelect UdsSuite_client.simps]])
      (auto split: if_split_asm dest!: begun_write)
next
  case (AtWrite j buf enc)
  show ?thesis
    unfolding AtWrite by (rule write_move [OF assms(2) _ assms(3) [unfolded AtWrite UdsSuite_client.simps]])
      (use assms(1) in \<open>simp add: AtWrite\<close>)
next
  case (AtRead j buf n)
  show ?thesis
    unfolding AtRead by (rule read_check_move [OF assms(2) _ assms(3) [unfolded AtRead UdsSuite_client.simps]])
      (use assms(1) in \<open>simp add: AtRead\<close>)
qed (use assms common_moves [OF assms(2)] in auto)

interpretation udsg: load_generator ops "UdsSuite_client ops fdb us m isWrite" m "st_latencySampling us"
  for ops fdb us m isWrite
  by unfold_locales (rule UdsSuite_moves)

lemma DummySuite_moves:
  assumes "pc_ok m (st_latencySampling ds) pc" and "pool_ok b"
    and "DummySuite_client ops fdb ds m isWrite ch i pc b = Ret (pc', b')"
  shows "client_move m (st_latencySampling ds) pc b pc' b'"
proof (cases pc)
  case AtAcquire
  show ?thesis
    unfolding AtAcquire by (rule acquire_move [OF assms(2) assms(3) [unfolded AtAcquire DummySuite_client.simps]])
next
  case (AtSelect j)
  show ?thesis
    unfolding AtSelect by (rule select_move [OF assms(2) assms(3) [unfolded AtSelect DummySuite_client.simps]])
      (auto split: if_split_asm dest!: begun_write begun_read)
next
  case (AtWrite j buf enc)
  then show ?thesis
    using assms(3) quiet_net [OF assms(2)] by (auto simp: go_bind_Ret_iff intro: sent)
next
  case (AtRead j buf n)
  then show ?thesis using assms(2,3) by (auto simp: quiet_def intro: answered)
qed (use assms common_moves [OF assms(2)] in auto)

interpretation dmyg: load_generator ops "DummySuite_client ops fdb ds m isWrite" m "st_latencySampling ds"
  for ops fdb ds m isWrite
  by unfold_locales (rule DummySuite_moves)

lemma QuicSuite_moves:
  assumes "pc_ok m (st_latencySampling qs) pc" and "pool_ok b"
    and "QuicSuite_client ops fdb qs m isWrite ch i pc b = Ret (pc', b')"
  shows "client_move m (st_latencySampling qs) pc b pc' b'"
proof (cases pc)
  case AtAcquire
  show ?thesis
    unfolding AtAcquire by (rule acquire_move [OF assms(2) assms(3) [unfolded AtAcquire QuicSuite_client.simps]])
next
  case (AtSelect j)
  show ?thesis
    unfolding AtSelect by (rule select_move [OF assms(2) assms(3) [unfolded AtSelect QuicSuite_client.simps]])
      (auto split: if_split_asm dest!: begun_write)
next
  case (AtWrite j buf enc)
  show ?thesis
    unfolding AtWrite by (rule write_move [OF assms(2) _ assms(3) [unfolded AtWrite QuicSuite_client.simps]])
      (use assms(1) in \<open>simp add: AtWrite\<close>)
next
  case (AtRead j buf n)
  show ?thesis
    unfolding AtRead by (rule read_move [OF assms(2) _ assms(3) [unfolded AtRead QuicSuite_client.simps]])
      (use assms(1) in \<open>simp add: AtRead\<close>)
qed (use assms common_moves [OF assms(2)] in auto)

interpretation quicg: load_generator ops "QuicSuite_client ops fdb qs m isWrite" m "st_latencySampling qs"
  for ops fdb qs m isWrite
  by unfold_locales (rule QuicSuite_moves)


end
