(* ===== verification/Suite_Manager.thy ===== *)
theory Suite_Manager
  imports Benchmark_Suites
begin

text \<open>
  The suite manager, \<^verbatim>\<open>src/benchmark/manager.go\<close> and \<^verbatim>\<open>type.go\<close>, and what a benchmark run through
  it reports, whichever suite it uses and however its goroutines are interleaved.
\<close>

section \<open>Suite types\<close>

type_synonym SuiteType = string

definition QUICSuite :: SuiteType where "QUICSuite = ''quic''"

definition UDSSuiteType :: SuiteType where "UDSSuiteType = ''uds''"

definition TCPSuiteType :: SuiteType where "TCPSuiteType = ''tcp''"

definition UDPSuiteType :: SuiteType where "UDPSuiteType = ''udp''"

definition DummySuiteType :: SuiteType where "DummySuiteType = ''dummy''"

lemmas suite_types [go_simps] =
  QUICSuite_def UDSSuiteType_def TCPSuiteType_def UDPSuiteType_def DummySuiteType_def

text \<open>The values of the interface \<open>TransportSuite\<close>, by dynamic type, and its four methods.\<close>

datatype TransportSuite = SuQuic Suite | SuDummy Suite | SuUds Suite | SuTcp Suite | SuUdp Suite

fun Suite_Start ::
    "('c, 'l) start_env \<Rightarrow> ('e, 't, 'g, 'c, 'l) FDB \<Rightarrow> TransportSuite \<Rightarrow>
     (error option \<times> ('e, 't, 'g, 'c, 'l) FDB \<times> TransportSuite) go" where
  "Suite_Start se fdb (SuQuic s) = go_bind (QuicSuite_Start se fdb s) (\<lambda>(r, fdb, s). Ret (r, fdb, SuQuic s))"
| "Suite_Start se fdb (SuDummy s) = go_bind (DummySuite_Start se fdb s) (\<lambda>(r, fdb, s). Ret (r, fdb, SuDummy s))"
| "Suite_Start se fdb (SuUds s) = go_bind (UdsSuite_Start se fdb s) (\<lambda>(r, fdb, s). Ret (r, fdb, SuUds s))"
| "Suite_Start se fdb (SuTcp s) = go_bind (TcpSuite_Start se fdb s) (\<lambda>(r, fdb, s). Ret (r, fdb, SuTcp s))"
| "Suite_Start se fdb (SuUdp s) = go_bind (UdpSuite_Start se fdb s) (\<lambda>(r, fdb, s). Ret (r, fdb, SuUdp s))"

fun Suite_Stop ::
    "('g, 'l) stop_env \<Rightarrow> ('e, 't, 'g, 'c, 'l) FDB \<Rightarrow> TransportSuite \<Rightarrow>
     (error option \<times> ('e, 't, 'g, 'c, 'l) FDB) go" where
  "Suite_Stop sp fdb (SuQuic s) = QuicSuite_Stop sp fdb s"
| "Suite_Stop sp fdb (SuDummy s) = DummySuite_Stop sp fdb s"
| "Suite_Stop sp fdb (SuUds s) = UdsSuite_Stop sp fdb s"
| "Suite_Stop sp fdb (SuTcp s) = TcpSuite_Stop sp fdb s"
| "Suite_Stop sp fdb (SuUdp s) = UdpSuite_Stop sp fdb s"

fun Suite_RunWriteBenchmark ::
    "'k netops \<Rightarrow> ('e, 't, 'g, 'c, 'l) FDB \<Rightarrow> TransportSuite \<Rightarrow> run_env \<Rightarrow> 'k \<Rightarrow> int \<Rightarrow> int \<Rightarrow> Report \<Rightarrow>
     (error option \<times> Report \<times> TransportSuite \<times> 'k) go" where
  "Suite_RunWriteBenchmark ops fdb (SuQuic s) rn net n m report =
     go_bind (QuicSuite_RunWriteBenchmark ops fdb s rn net n m report) (\<lambda>(r, report, s, net). Ret (r, report, SuQuic s, net))"
| "Suite_RunWriteBenchmark ops fdb (SuDummy s) rn net n m report =
     go_bind (DummySuite_RunWriteBenchmark ops fdb s rn net n m report) (\<lambda>(r, report, s, net). Ret (r, report, SuDummy s, net))"
| "Suite_RunWriteBenchmark ops fdb (SuUds s) rn net n m report =
     go_bind (UdsSuite_RunWriteBenchmark ops fdb s rn net n m report) (\<lambda>(r, report, s, net). Ret (r, report, SuUds s, net))"
| "Suite_RunWriteBenchmark ops fdb (SuTcp s) rn net n m report =
     go_bind (TcpSuite_RunWriteBenchmark ops fdb s rn net n m report) (\<lambda>(r, report, s, net). Ret (r, report, SuTcp s, net))"
| "Suite_RunWriteBenchmark ops fdb (SuUdp s) rn net n m report =
     go_bind (UdpSuite_RunWriteBenchmark ops fdb s rn net n m report) (\<lambda>(r, report, s, net). Ret (r, report, SuUdp s, net))"

fun Suite_RunReadBenchmark ::
    "'k netops \<Rightarrow> ('e, 't, 'g, 'c, 'l) FDB \<Rightarrow> TransportSuite \<Rightarrow> run_env \<Rightarrow> 'k \<Rightarrow> int \<Rightarrow> int \<Rightarrow> Report \<Rightarrow>
     (error option \<times> Report \<times> TransportSuite \<times> 'k) go" where
  "Suite_RunReadBenchmark ops fdb (SuQuic s) rn net n m report =
     go_bind (QuicSuite_RunReadBenchmark ops fdb s rn net n m report) (\<lambda>(r, report, s, net). Ret (r, report, SuQuic s, net))"
| "Suite_RunReadBenchmark ops fdb (SuDummy s) rn net n m report =
     go_bind (DummySuite_RunReadBenchmark ops fdb s rn net n m report) (\<lambda>(r, report, s, net). Ret (r, report, SuDummy s, net))"
| "Suite_RunReadBenchmark ops fdb (SuUds s) rn net n m report =
     go_bind (UdsSuite_RunReadBenchmark ops fdb s rn net n m report) (\<lambda>(r, report, s, net). Ret (r, report, SuUds s, net))"
| "Suite_RunReadBenchmark ops fdb (SuTcp s) rn net n m report =
     go_bind (TcpSuite_RunReadBenchmark ops fdb s rn net n m report) (\<lambda>(r, report, s, net). Ret (r, report, SuTcp s, net))"
| "Suite_RunReadBenchmark ops fdb (SuUdp s) rn net n m report =
     go_bind (UdpSuite_RunReadBenchmark ops fdb s rn net n m report) (\<lambda>(r, report, s, net). Ret (r, report, SuUdp s, net))"

section \<open>The manager\<close>

text \<open>The map of suites; the instance the manager holds is passed along.\<close>

record SuiteManager =
  sm_Suites :: "(SuiteType \<times> TransportSuite) list"

definition RegisterSuite :: "SuiteManager \<Rightarrow> SuiteType \<Rightarrow> TransportSuite \<Rightarrow> SuiteManager" where
  "RegisterSuite sm suiteType suite = sm\<lparr>sm_Suites := AList.update suiteType suite (sm_Suites sm)\<rparr>"

definition NewSuiteManager :: SuiteManager where
  "NewSuiteManager =
     (let manager = \<lparr>sm_Suites = []\<rparr>;
          manager = RegisterSuite manager QUICSuite (SuQuic (NewQuicSuite 500));
          manager = RegisterSuite manager DummySuiteType (SuDummy (NewDummySuite 500));
          manager = RegisterSuite manager UDSSuiteType (SuUds (NewUdsSuite 500));
          manager = RegisterSuite manager TCPSuiteType (SuTcp (NewTcpSuite 500));
          manager = RegisterSuite manager UDPSuiteType (SuUdp (NewUdpSuite 500))
      in manager)"

definition SuiteManager_Start ::
    "('c, 'l) start_env \<Rightarrow> ('e, 't, 'g, 'c, 'l) FDB \<Rightarrow> SuiteManager \<Rightarrow> SuiteType \<Rightarrow>
     (error option \<times> ('e, 't, 'g, 'c, 'l) FDB \<times> SuiteManager) go" where
  "SuiteManager_Start se fdb sm suiteType =
     (case map_of (sm_Suites sm) suiteType of
        None \<Rightarrow> Ret (Some (Errorf (''suite type '' @ suiteType @ '' not found'')), fdb, sm)
      | Some suite \<Rightarrow>
          go_bind (Suite_Start se fdb suite) (\<lambda>(r, fdb, suite).
            Ret (r, fdb, RegisterSuite sm suiteType suite)))"

definition SuiteManager_Stop ::
    "('g, 'l) stop_env \<Rightarrow> ('e, 't, 'g, 'c, 'l) FDB \<Rightarrow> SuiteManager \<Rightarrow> SuiteType \<Rightarrow>
     (error option \<times> ('e, 't, 'g, 'c, 'l) FDB) go" where
  "SuiteManager_Stop sp fdb sm suiteType =
     (case map_of (sm_Suites sm) suiteType of
        Some suite \<Rightarrow>
          go_bind (Suite_Stop sp fdb suite) (\<lambda>(r, fdb).
            case r of Some err \<Rightarrow> Ret (Some err, fdb) | None \<Rightarrow> Ret (None, fdb))
      | None \<Rightarrow> Ret (None, fdb))"

definition SuiteManager_RunWriteBenchmark ::
    "'k netops \<Rightarrow> ('e, 't, 'g, 'c, 'l) FDB \<Rightarrow> SuiteManager \<Rightarrow> SuiteType \<Rightarrow> run_env \<Rightarrow> 'k \<Rightarrow> int \<Rightarrow> int \<Rightarrow>
     Report \<Rightarrow> (error option \<times> Report \<times> SuiteManager \<times> 'k) go" where
  "SuiteManager_RunWriteBenchmark ops fdb sm suiteType rn net numClients numMessagesPerClient report =
     (case map_of (sm_Suites sm) suiteType of
        None \<Rightarrow> Ret (Some (Errorf (''suite type '' @ suiteType @ '' not found'')), report, sm, net)
      | Some suite \<Rightarrow>
          go_bind (Suite_RunWriteBenchmark ops fdb suite rn net numClients numMessagesPerClient report)
            (\<lambda>(r, report, suite, net). Ret (r, report, RegisterSuite sm suiteType suite, net)))"

definition SuiteManager_RunReadBenchmark ::
    "'k netops \<Rightarrow> ('e, 't, 'g, 'c, 'l) FDB \<Rightarrow> SuiteManager \<Rightarrow> SuiteType \<Rightarrow> run_env \<Rightarrow> 'k \<Rightarrow> int \<Rightarrow> int \<Rightarrow>
     Report \<Rightarrow> (error option \<times> Report \<times> SuiteManager \<times> 'k) go" where
  "SuiteManager_RunReadBenchmark ops fdb sm suiteType rn net numClients numMessagesPerClient report =
     (case map_of (sm_Suites sm) suiteType of
        None \<Rightarrow> Ret (Some (Errorf (''suite type '' @ suiteType @ '' not found'')), report, sm, net)
      | Some suite \<Rightarrow>
          go_bind (Suite_RunReadBenchmark ops fdb suite rn net numClients numMessagesPerClient report)
            (\<lambda>(r, report, suite, net). Ret (r, report, RegisterSuite sm suiteType suite, net)))"

section \<open>Runs through the manager\<close>

fun suite_base :: "TransportSuite \<Rightarrow> Suite" where
  "suite_base (SuQuic s) = s"
| "suite_base (SuDummy s) = s"
| "suite_base (SuUds s) = s"
| "suite_base (SuTcp s) = s"
| "suite_base (SuUdp s) = s"

fun suite_client ::
    "'k netops \<Rightarrow> ('e, 't, 'g, 'c, 'l) FDB \<Rightarrow> TransportSuite \<Rightarrow> int \<Rightarrow> bool \<Rightarrow> 'k client" where
  "suite_client ops fdb (SuQuic s) m isWrite = QuicSuite_client ops fdb s m isWrite"
| "suite_client ops fdb (SuDummy s) m isWrite = DummySuite_client ops fdb s m isWrite"
| "suite_client ops fdb (SuUds s) m isWrite = UdsSuite_client ops fdb s m isWrite"
| "suite_client ops fdb (SuTcp s) m isWrite = TcpSuite_client ops fdb s m isWrite"
| "suite_client ops fdb (SuUdp s) m isWrite = UdpSuite_client ops fdb s m isWrite"

interpretation suiteg: load_generator ops "suite_client ops fdb su m isWrite" m "st_latencySampling (suite_base su)"
  for ops fdb su m isWrite
  by unfold_locales
     (cases su; simp add: QuicSuite_moves DummySuite_moves UdsSuite_moves TcpSuite_moves UdpSuite_moves)

text \<open>The start of a run and the run itself, for a suite of the manager.\<close>

definition suite_init :: "TransportSuite \<Rightarrow> run_env \<Rightarrow> 'k \<Rightarrow> int \<Rightarrow> int \<Rightarrow> Report \<Rightarrow> 'k config" where
  "suite_init su rn net n m report = bench_init (rn_ctx_Err rn) (st_pool (suite_base su)) net n m report"

definition suite_run ::
    "'k netops \<Rightarrow> ('e, 't, 'g, 'c, 'l) FDB \<Rightarrow> TransportSuite \<Rightarrow> run_env \<Rightarrow> 'k \<Rightarrow> int \<Rightarrow> int \<Rightarrow> Report \<Rightarrow> bool \<Rightarrow>
     (error option \<times> Report \<times> 'k bench) go" where
  "suite_run ops fdb su rn net n m report isWrite =
     bench_run ops (suite_client ops fdb su m isWrite) (rn_schedule rn) (rn_duration rn) (rn_memory rn)
       (suite_init su rn net n m report)"

lemmas run_defs = run_suite_def suite_run_def suite_init_def go_bind_Ret_iff
  QuicSuite_RunWriteBenchmark_def QuicSuite_RunReadBenchmark_def QuicSuite_runBenchmark_def
  DummySuite_RunWriteBenchmark_def DummySuite_RunReadBenchmark_def DummySuite_runBenchmark_def
  UdsSuite_RunWriteBenchmark_def UdsSuite_RunReadBenchmark_def UdsSuite_runBenchmark_def
  TcpSuite_RunWriteBenchmark_def TcpSuite_RunReadBenchmark_def TcpSuite_runBenchmark_def
  UdpSuite_RunWriteBenchmark_def UdpSuite_RunReadBenchmark_def UdpSuite_runBenchmark_def

lemma Suite_run_Ret:
  "Suite_RunWriteBenchmark ops fdb su rn net n m report = Ret (r, report', su', net') \<Longrightarrow>
   \<exists>b. suite_run ops fdb su rn net n m report True = Ret (r, report', b) \<and> net' = b_net b \<and>
     suite_base su' = (suite_base su)\<lparr>st_pool := b_pool b\<rparr>"
  "Suite_RunReadBenchmark ops fdb su rn net n m report = Ret (r, report', su', net') \<Longrightarrow>
   \<exists>b. suite_run ops fdb su rn net n m report False = Ret (r, report', b) \<and> net' = b_net b \<and>
     suite_base su' = (suite_base su)\<lparr>st_pool := b_pool b\<rparr>"
  by (cases su; force simp: run_defs)+

definition suite_ok :: "TransportSuite \<Rightarrow> bool" where
  "suite_ok su \<longleftrightarrow> (\<forall>buf \<in> set (st_pool (suite_base su)). length buf = 64)"

definition sm_ok :: "SuiteManager \<Rightarrow> bool" where
  "sm_ok sm \<longleftrightarrow> (\<forall>su \<in> ran (map_of (sm_Suites sm)). suite_ok su)"

definition sm_run ::
    "bool \<Rightarrow> 'k netops \<Rightarrow> ('e, 't, 'g, 'c, 'l) FDB \<Rightarrow> SuiteManager \<Rightarrow> SuiteType \<Rightarrow> run_env \<Rightarrow> 'k \<Rightarrow> int \<Rightarrow> int \<Rightarrow>
     Report \<Rightarrow> (error option \<times> Report \<times> SuiteManager \<times> 'k) go" where
  "sm_run isWrite = (if isWrite then SuiteManager_RunWriteBenchmark else SuiteManager_RunReadBenchmark)"

lemma sm_run_Ret:
  assumes "sm_run isWrite ops fdb sm ty rn net n m report = Ret (r, report', sm', net')"
    and "map_of (sm_Suites sm) ty = Some su"
  obtains b su' where "suite_run ops fdb su rn net n m report isWrite = Ret (r, report', b)" "net' = b_net b"
    "suite_base su' = (suite_base su)\<lparr>st_pool := b_pool b\<rparr>" "sm' = RegisterSuite sm ty su'"
proof -
  obtain su' where su': "(if isWrite then Suite_RunWriteBenchmark ops fdb su rn net n m report
      else Suite_RunReadBenchmark ops fdb su rn net n m report) = Ret (r, report', su', net')"
    and sm': "sm' = RegisterSuite sm ty su'"
    using assms
    by (auto simp: sm_run_def SuiteManager_RunWriteBenchmark_def SuiteManager_RunReadBenchmark_def
        go_bind_Ret_iff split: if_splits)
  show thesis
  proof (cases isWrite)
    case True
    then show thesis using Suite_run_Ret(1) [of ops fdb su rn net n m report] su' sm' that by auto
  next
    case False
    then show thesis using Suite_run_Ret(2) [of ops fdb su rn net n m report] su' sm' that by auto
  qed
qed

lemma sm_run_unknown:
  "map_of (sm_Suites sm) ty = None \<Longrightarrow> sm_run isWrite ops fdb sm ty rn net n m report =
     Ret (Some (Errorf (''suite type '' @ ty @ '' not found'')), report, sm, net)"
  by (simp add: sm_run_def SuiteManager_RunWriteBenchmark_def SuiteManager_RunReadBenchmark_def)

lemma sm_okD: "sm_ok sm \<Longrightarrow> map_of (sm_Suites sm) ty = Some su \<Longrightarrow> suite_ok su"
  by (auto simp: sm_ok_def ranI)

lemma sm_ok_RegisterSuite: "sm_ok sm \<Longrightarrow> suite_ok su \<Longrightarrow> sm_ok (RegisterSuite sm ty su)"
  by (auto simp: sm_ok_def RegisterSuite_def ran_def split: if_splits)

lemma sm_run_ok:
  assumes "sm_ok sm" and "map_of (sm_Suites sm) ty = Some su"
    and "sm_run isWrite ops fdb sm ty rn net n m report = Ret (r, report', sm', net')"
  obtains b where "suite_run ops fdb su rn net n m report isWrite = Ret (r, report', b)" "net' = b_net b" "sm_ok sm'"
proof -
  obtain b su' where run: "suite_run ops fdb su rn net n m report isWrite = Ret (r, report', b)" "net' = b_net b"
    and su': "suite_base su' = (suite_base su)\<lparr>st_pool := b_pool b\<rparr>" "sm' = RegisterSuite sm ty su'"
    using sm_run_Ret [OF assms(3,2)] .
  have "pool_ok b"
    using suiteg.run_pool [of "st_pool (suite_base su)"] run(1) sm_okD [OF assms(1,2)]
    by (auto simp: suite_run_def suite_init_def suite_ok_def)
  then have "suite_ok su'" by (simp add: suite_ok_def su'(1) pool_ok_def)
  then show thesis using that run sm_ok_RegisterSuite [OF assms(1)] su'(2) by blast
qed

lemma wrap64_id: "0 \<le> i \<Longrightarrow> i < 2 ^ 63 \<Longrightarrow> wrap64 i = i"
  by (simp add: wrap64_def signed_take_bit_int_eq_self)

lemma returns_go_bind: "returns x \<Longrightarrow> (\<And>a. returns (f a)) \<Longrightarrow> returns (go_bind x f)"
  by (cases x) auto

lemma returns_bench_count: "s \<noteq> 0 \<Longrightarrow> returns (bench_count s l j buf b)"
  by (simp add: bench_count_def Let_def)

lemma suite_client_returns:
  assumes "\<forall>i bs k. returns (net_Write ops i bs k)" and "\<forall>i n k. returns (net_Read ops i n k)"
    and "returns (server_Addr fdb (suite_base su))" and "st_latencySampling (suite_base su) \<noteq> 0"
    and "\<forall>r. pc \<noteq> Exited r"
  shows "returns (suite_client ops fdb su m isWrite ch i pc b)"
proof -
  note simps = returns_bench_count returns_go_bind Let_def
  note acquire = QuicSuite_AcquireClient_def DummySuite_AcquireClient_def UdsSuite_AcquireClient_def
    TcpSuite_AcquireClient_def UdpSuite_AcquireClient_def
  show ?thesis
  proof (cases pc)
    case AtAcquire
    then show ?thesis using assms(3) by (cases su) (auto simp: acquire intro!: returns_go_bind)
  next
    case (AtSelect j)
    then show ?thesis
      by (cases su) (auto simp: Let_def split: option.split prod.split sum.split)
  next
    case (AtWrite j buf enc)
    then show ?thesis using assms(1) by (cases su) (auto intro!: returns_go_bind)
  next
    case (AtRead j buf n)
    then show ?thesis using assms(2) by (cases su) (auto intro!: returns_go_bind)
  qed (use assms(4,5) in \<open>cases su; simp add: returns_bench_count\<close>)+
qed

section \<open>Two concrete runs\<close>

text \<open>A network that answers every request with a zero byte, and a manager with a started suite.\<close>

definition sample_ops :: "unit netops" where
  "sample_ops = \<lparr>net_Resolve = (\<lambda>_. None), net_Dial = (\<lambda>_ _ k. (None, k)),
     net_OpenStream = (\<lambda>_ k. (None, k)), net_Write = (\<lambda>_ _ k. Ret (None, k)),
     net_Read = (\<lambda>_ _ k. Ret (Inr [0], k)), net_Close = (\<lambda>_ k. k), net_Env = (\<lambda>_ k. k)\<rparr>"

definition sample_choice :: choice where
  "sample_choice = \<lparr>ch_key = replicate 32 7, ch_buf = 9, ch_latency = 5\<rparr>"

definition sample_suite :: TransportSuite where
  "sample_suite = SuTcp ((NewTcpSuite 500)\<lparr>st_server := Some TCPTransportType\<rparr>)"

definition sample_sm :: SuiteManager where
  "sample_sm = RegisterSuite NewSuiteManager TCPSuiteType sample_suite"

definition sample_run_env :: "bench_event list \<Rightarrow> run_env" where
  "sample_run_env evs = \<lparr>rn_schedule = evs, rn_duration = 9, rn_memory = 0, rn_ctx_Err = None\<rparr>"

text \<open>One client after the other, and two clients that load the histogram at the same time.\<close>

definition sequential :: "bench_event list" where
  "sequential = replicate 10 (Step 0 sample_choice) @ replicate 10 (Step 1 sample_choice)"

definition racing :: "bench_event list" where
  "racing = replicate 6 (Step 0 sample_choice) @ replicate 6 (Step 1 sample_choice) @
     replicate 4 (Step 0 sample_choice) @ replicate 4 (Step 1 sample_choice)"

definition sample_encoding :: "bytes \<times> bytes" where
  "sample_encoding =
     (case EncodeWithBuffer (createWriteMessage (replicate 32 7)) (replicate 64 0) of
        (Inl err, buf) \<Rightarrow> ([], buf) | (Inr enc, buf) \<Rightarrow> (enc, buf))"

lemma sample_select:
  assumes "j < m" and "b_ctx_Err b = None" and "length (b_pool b) \<le> 9"
  shows "suite_client sample_ops fdb sample_suite m True sample_choice i (AtSelect j) b =
    Ret (AtWrite j (snd sample_encoding) (fst sample_encoding), b)"
proof -
  obtain enc buf where e:
    "EncodeWithBuffer (createWriteMessage (replicate 32 7)) (replicate 64 0) = (Inr enc, buf)"
    by (rule encode_pooled [of "replicate 64 0" "replicate 32 7"]) simp_all
  then show ?thesis
    using assms by (simp add: sample_suite_def Let_def pool_Get_def sample_choice_def sample_encoding_def)
qed

lemma sample_steps:
  "server_Addr fdb (suite_base sample_suite) = Ret addr \<Longrightarrow>
     suite_client sample_ops fdb sample_suite m True sample_choice i AtAcquire b = Ret (AtSelect 0, b)"
    "\<not> j < m \<Longrightarrow> suite_client sample_ops fdb sample_suite m True sample_choice i (AtSelect j) b = Ret (AtReturn None, b)"
    "suite_client sample_ops fdb sample_suite m True sample_choice i (AtWrite j buf enc) b = Ret (AtRead j buf (length enc), b)"
    "suite_client sample_ops fdb sample_suite m True sample_choice i (AtRead j buf k) b = Ret (AtCount j buf, b)"
    "suite_client sample_ops fdb sample_suite m True sample_choice i (AtCount j buf) b = bench_count 500 5 j buf b"
    "suite_client sample_ops fdb sample_suite m True sample_choice i (AtAppend j buf l) b = Ret (bench_append j buf l b)"
    "suite_client sample_ops fdb sample_suite m True sample_choice i (AtStore j buf l h) b = Ret (bench_store j buf l h b)"
    "suite_client sample_ops fdb sample_suite m True sample_choice i (AtReturn r) b = Ret (AtExit r, b)"
    "suite_client sample_ops fdb sample_suite m True sample_choice i (AtExit r) b = Ret (group_exit r b)"
  by (simp_all add: sample_suite_def sample_ops_def TcpSuite_AcquireClient_def resolve_and_dial_def
    bench_close_def NewTcpSuite_def sample_choice_def go_simps)

lemma wrap64_small: "wrap64 1 = 1" "wrap64 2 = 2" "wrap64 5 = 5" "wrap64 10 = 10" "wrap64 0 = 0"
  by (simp_all add: wrap64_id)

lemma sample_exec:
  assumes "(evs, h) \<in> {(racing, [5]), (sequential, [5, 5])}"
    and addr: "server_Addr fdb (suite_base sample_suite) = Ret addr"
  shows "\<exists>b. bench_exec sample_ops (suite_client sample_ops fdb sample_suite 1 True) evs
     (suite_init sample_suite (sample_run_env evs) () 2 1 NewReport) = Ret ([Exited None, Exited None], b) \<and>
   b_success b = 2 \<and> b_failed b = 0 \<and> b_group_err b = None \<and> histogram b = h"
proof -
  have ev: "racing = map (\<lambda>i. Step i sample_choice) [0, 0, 0, 0, 0, 0, 1, 1, 1, 1, 1, 1, 0, 0, 0, 0, 1, 1, 1, 1]"
     "sequential = map (\<lambda>i. Step i sample_choice) [0, 0, 0, 0, 0, 0, 0, 0, 0, 0, 1, 1, 1, 1, 1, 1, 1, 1, 1, 1]"
    by (simp_all add: racing_def sequential_def numeral_eq_Suc)
  have h0: "LatencyHistogram NewReport = []" by (simp add: NewReport_def)
  have init: "suite_init sample_suite (sample_run_env evs) () 2 1 NewReport = bench_init None [] () 2 1 NewReport" for evs
    by (simp add: suite_init_def sample_run_env_def sample_suite_def NewTcpSuite_def)
  note simps = h0 init bench_init_def sample_select sample_steps(1) [OF addr] sample_steps(2-) bench_count_def bench_append_def bench_store_def group_exit_def
     pool_Put_def wrap64_small
  show ?thesis using assms(1)
    by (auto simp: ev simps Let_def numeral_2_eq_2)
qed

lemma NewSuiteManager_ok: "sm_ok NewSuiteManager"
proof -
  have new: "suite_ok (SuQuic (NewQuicSuite k))" "suite_ok (SuDummy (NewDummySuite k))"
    "suite_ok (SuUds (NewUdsSuite k))" "suite_ok (SuTcp (NewTcpSuite k))" "suite_ok (SuUdp (NewUdpSuite k))" for k
    by (simp_all add: suite_ok_def NewQuicSuite_def NewDummySuite_def NewUdsSuite_def NewTcpSuite_def NewUdpSuite_def)
  have "sm_ok \<lparr>sm_Suites = []\<rparr>" by (simp add: sm_ok_def)
  then show ?thesis unfolding NewSuiteManager_def Let_def by (intro sm_ok_RegisterSuite new)
qed

lemma sample_sm_ok: "sm_ok sample_sm"
  unfolding sample_sm_def
  by (rule sm_ok_RegisterSuite [OF NewSuiteManager_ok]) (simp add: suite_ok_def sample_suite_def NewTcpSuite_def)

lemma sample_sm_run:
  assumes "(evs, h) \<in> {(racing, [5]), (sequential, [5, 5])}"
    and "server_Addr fdb (suite_base sample_suite) = Ret addr"
  shows "\<exists>report' sm'. sm_run True sample_ops fdb sample_sm TCPSuiteType (sample_run_env evs) () 2 1
      NewReport = Ret (None, report', sm', ()) \<and> SuccessMessages report' = 2 \<and> LatencyHistogram report' = h"
proof -
  obtain b where b: "bench_exec sample_ops (suite_client sample_ops fdb sample_suite 1 True) evs
      (suite_init sample_suite (sample_run_env evs) () 2 1 NewReport) = Ret ([Exited None, Exited None], b)"
    "b_success b = 2" "b_group_err b = None" "histogram b = h"
    using sample_exec [OF assms] by blast
  let ?r = "(b_report b)\<lparr>SuccessMessages := b_success b, FailedMessages := b_failed b,
      TotalMessages := wrap64 (b_success b + b_failed b), TotalDuration := 9\<rparr>"
  have h: "h \<noteq> []" "length h < 2 ^ 53" "sort h = h" using assms(1) by auto
  have hr: "LatencyHistogram ?r = h" by (simp add: b(4))
  obtain report' where fz: "Finalize 0 ?r = Ret report'"
    using Finalize_returns [of ?r 0] unfolding hr using h(1,2) by blast
  have "SuccessMessages report' = 2" "LatencyHistogram report' = h"
    using Finalize_frame(4,7) [OF fz] unfolding hr by (simp_all add: b(2) h(3))
  moreover have "map_of (sm_Suites sample_sm) TCPSuiteType = Some sample_suite"
    by (simp add: sample_sm_def RegisterSuite_def)
  ultimately show ?thesis
    using b(1,3) fz
    by (simp add: sm_run_def SuiteManager_RunWriteBenchmark_def sample_suite_def run_defs bench_run_def
        bench_finish_def all_exited_def sample_run_env_def)
qed

lemma sample_addr:
  "server_Addr sample_fdb (suite_base sample_suite) = Ret (Transport_Addr (snd (hd (tm_transports (fdb_tm sample_fdb)))))"
  by (simp add: server_Addr_def sample_suite_def sample_fdb_def tm_contents_def)

section \<open>Properties\<close>

text \<open>
  C23. A benchmark run that returns no error has counted every message of every client, exactly
  once: whatever the interleaving of the goroutines, the report of a run of \<open>n\<close> clients with \<open>m\<close>
  messages each says \<open>n * m\<close> successes, no failure and \<open>n * m\<close> messages in all. The histogram
  is sorted and holds at most the samples of the goroutines, and at least one.
\<close>

theorem benchmark_totals:
  assumes "sm_ok sm" and "0 \<le> n" and "0 \<le> m" and "n * m < 2 ^ 63"
    and "sm_run isWrite ops fdb sm ty rn net n m report = Ret (None, report', sm', net')"
  shows "\<exists>su. map_of (sm_Suites sm) ty = Some su \<and> sm_ok sm' \<and>
    SuccessMessages report' = n * m \<and> FailedMessages report' = 0 \<and> TotalMessages report' = n * m \<and>
    TotalClients report' = n \<and> MessagesPerClient report' = m \<and> sorted (LatencyHistogram report') \<and>
    int (length (LatencyHistogram report')) \<le> int (length (LatencyHistogram report)) +
      n * samples_below (st_latencySampling (suite_base su)) m \<and>
    (0 < n * m \<longrightarrow> LatencyHistogram report' \<noteq> [])"
proof -
  obtain su where su: "map_of (sm_Suites sm) ty = Some su"
    using assms(5) by (cases "map_of (sm_Suites sm) ty") (auto simp: sm_run_unknown)
  obtain b where run: "suite_run ops fdb su rn net n m report isWrite = Ret (None, report', b)" and ok: "sm_ok sm'"
    using sm_run_ok [OF assms(1) su assms(5)] .
  have pool: "\<forall>buf \<in> set (st_pool (suite_base su)). length buf = 64"
    using sm_okD [OF assms(1) su] by (simp add: suite_ok_def)
  have eqs: "max 0 n = n" "max 0 m = m" using assms(2,3) by simp_all
  have w: "wrap64 (n * m) = n * m" using assms(2-4) by (simp add: wrap64_id)
  have pos: "0 < n \<and> 0 < m" if "0 < n * m" using that assms(2,3) by (simp add: zero_less_mult_iff)
  note tot = suiteg.totals [OF pool run [unfolded suite_run_def suite_init_def], unfolded eqs w]
  show ?thesis
    by (intro exI [of _ su] conjI impI) (use su ok tot(1-8) in simp_all, use tot(9) pos in blast)
qed

theorem benchmark_totals_witness:
  "\<exists>report' sm' net'. sm_run True sample_ops sample_fdb sample_sm TCPSuiteType (sample_run_env racing) () 2 1
      NewReport = Ret (None, report', sm', net') \<and> SuccessMessages report' = 2 \<and> FailedMessages report' = 0"
proof -
  obtain report' sm' where run: "sm_run True sample_ops sample_fdb sample_sm TCPSuiteType
      (sample_run_env racing) () 2 1 NewReport = Ret (None, report', sm', ())"
    using sample_sm_run [OF _ sample_addr, of racing "[5]"] by auto
  show ?thesis using benchmark_totals [OF sample_sm_ok _ _ _ run] run by auto
qed

text \<open>
  C24. A benchmark ends: under every schedule the goroutines take at most \<open>n * (6 * m + 4)\<close> steps
  in all, and if reads and writes are answered, the server was started and the sampling rate is
  not zero, every schedule can be continued to one after which all goroutines have returned.
\<close>

theorem benchmark_terminates:
  assumes "suite_ok su"
    and "bench_exec ops (suite_client ops fdb su m isWrite) evs (suite_init su rn net n m report) = Ret c"
  shows "length (filter is_step evs) \<le> nat n * (6 * nat m + 4) \<and>
    ((\<forall>i bs k. returns (net_Write ops i bs k)) \<and> (\<forall>i n k. returns (net_Read ops i n k)) \<and>
     returns (server_Addr fdb (suite_base su)) \<and> st_latencySampling (suite_base su) \<noteq> 0 \<longrightarrow>
     (\<exists>evs' c'. bench_exec ops (suite_client ops fdb su m isWrite) (evs @ evs')
        (suite_init su rn net n m report) = Ret c' \<and> all_exited (fst c')))"
proof -
  note pool = assms(1) [unfolded suite_ok_def] and ex = assms(2) [unfolded suite_init_def]
  show ?thesis
    unfolding suite_init_def
    using suiteg.bounded [OF pool ex] suiteg.completes [OF suite_client_returns pool ex] by blast
qed

theorem benchmark_terminates_witness:
  "length (filter is_step racing) \<le> nat 2 * (6 * nat 1 + 4) \<and>
   (\<exists>evs' c'. bench_exec sample_ops (suite_client sample_ops sample_fdb sample_suite 1 True) (racing @ evs')
      (suite_init sample_suite (sample_run_env racing) () 2 1 NewReport) = Ret c' \<and> all_exited (fst c'))"
proof -
  obtain c where c: "bench_exec sample_ops (suite_client sample_ops sample_fdb sample_suite 1 True) racing
      (suite_init sample_suite (sample_run_env racing) () 2 1 NewReport) = Ret c"
    using sample_exec [OF _ sample_addr, of racing "[5]"] by auto
  have ok: "suite_ok sample_suite" by (simp add: suite_ok_def sample_suite_def NewTcpSuite_def)
  have "returns (server_Addr sample_fdb (suite_base sample_suite))" by (simp add: sample_addr)
  moreover have "st_latencySampling (suite_base sample_suite) \<noteq> 0"
    by (simp add: sample_suite_def NewTcpSuite_def)
  moreover have "\<forall>i bs k. returns (net_Write sample_ops i bs k)" "\<forall>i n k. returns (net_Read sample_ops i n k)"
    by (simp_all add: sample_ops_def)
  ultimately show ?thesis using benchmark_terminates [OF ok c] by simp
qed


end
