(* ===== verification/Benchmark_Loopback.thy ===== *)
theory Benchmark_Loopback
  imports Suite_Manager
begin

text \<open>
  Load generators against servers: the network of a suite is instantiated by a connection to the
  TCP, UDP or Unix socket server of this development, and the goroutines of the clients, the server's callback, the
  write handler and the batch writer run together. Also two runs that do not measure what they
  are meant to: a read benchmark that never asks, and a dummy benchmark whose writes fail.
\<close>

section \<open>Invariants of schedules\<close>

lemma bench_exec_invariant:
  assumes "\<And>ev c c'. ev \<in> set evs \<Longrightarrow> I c \<Longrightarrow> bench_exec1 ops client ev c = Ret c' \<Longrightarrow> I c'"
    and "bench_exec ops client evs c = Ret c'" and "I c"
  shows "I c'"
  using assms
proof (induction evs arbitrary: c)
  case (Cons ev evs)
  obtain c1 where c1: "bench_exec1 ops client ev c = Ret c1" "bench_exec ops client evs c1 = Ret c'"
    using Cons.prems(2) by (auto simp: go_bind_Ret_iff)
  have "I c1" using Cons.prems(1) [OF _ Cons.prems(3) c1(1)] by simp
  moreover have "\<And>ev c c'. ev \<in> set evs \<Longrightarrow> I c \<Longrightarrow> bench_exec1 ops client ev c = Ret c' \<Longrightarrow> I c'"
    using Cons.prems(1) by (meson list.set_intros(2))
  ultimately show ?case using Cons.IH c1(2) by blast
qed simp

lemma bench_exec1_Step:
  assumes "bench_exec1 ops client (Step i ch) (ts, b) = Ret c'"
  obtains pc' b' where "i < length ts" "client ch i (ts ! i) b = Ret (pc', b')" "c' = (ts[i := pc'], b')"
  using assms by (auto simp: go_bind_Ret_iff split: if_splits)

section \<open>A connection to a server\<close>

text \<open>
  The state of the connections: the server's world, the bytes that wait for each client, and the
  frames the server was given, in order. A write hands the frame to the server and queues its
  replies; a read takes what is queued and waits when there is nothing. The server's workers move
  by \<open>env\<close>.
\<close>

record ('e, 't) loop =
  lp_world :: "('e, 't) hworld"
  lp_inbox :: "nat \<Rightarrow> bytes"
  lp_frames :: "bytes list"

definition loop_ops ::
    "(('e, 't) hworld \<Rightarrow> bytes \<Rightarrow> (('e, 't) hworld \<times> bytes list \<times> Action) go) \<Rightarrow>
     (nat \<Rightarrow> ('e, 't) hworld \<Rightarrow> ('e, 't) hworld) \<Rightarrow> ('e, 't) loop netops" where
  "loop_ops srv env =
     \<lparr>net_Resolve = (\<lambda>_. None), net_Dial = (\<lambda>_ _ k. (None, k)), net_OpenStream = (\<lambda>_ k. (None, k)),
      net_Write = (\<lambda>i bs k. go_bind (srv (lp_world k) bs) (\<lambda>(w, rs, _).
        Ret (None, k\<lparr>lp_world := w, lp_inbox := (lp_inbox k)(i := lp_inbox k i @ concat rs),
          lp_frames := lp_frames k @ [bs]\<rparr>))),
      net_Read = (\<lambda>i n k. if lp_inbox k i = [] then Blocked
        else Ret (Inr (take n (lp_inbox k i)), k\<lparr>lp_inbox := (lp_inbox k)(i := drop n (lp_inbox k i))\<rparr>)),
      net_Close = (\<lambda>_ k. k), net_Env = (\<lambda>n k. k\<lparr>lp_world := env n (lp_world k)\<rparr>)\<rparr>"

definition loop_start :: "('e, 't) hworld \<Rightarrow> ('e, 't) loop" where
  "loop_start w = \<lparr>lp_world = w, lp_inbox = (\<lambda>_. []), lp_frames = []\<rparr>"

text \<open>The contents after a sequence of frames, as the write handler reads them.\<close>

definition stored_frames :: "(bytes \<rightharpoonup> bytes) \<Rightarrow> bytes list \<Rightarrow> bytes \<rightharpoonup> bytes" where
  "stored_frames view fs = foldl (\<lambda>v f. v(take 32 (drop 1 f) \<mapsto> drop 33 f)) view fs"

text \<open>The frames of a write benchmark.\<close>

definition bench_frame :: "bytes \<Rightarrow> bool" where
  "bench_frame f \<longleftrightarrow> (\<exists>key. is_key key \<and> Encode (createWriteMessage key) = Inr f)"

lemma bench_message: "is_key key \<Longrightarrow> wf_Message (createWriteMessage key)"
  by (simp add: wf_Message_def createWriteMessage_def bytes_of_string_def)

lemma bench_frame_shape:
  assumes "bench_frame f"
  shows "length f = 56" and "f = WriteHandlerType # tl f" and "\<not> length f < 34"
proof -
  obtain key where key: "is_key key" "Encode (createWriteMessage key) = Inr f"
    using assms by (auto simp: bench_frame_def)
  then have f: "f = wire (createWriteMessage key)" using Encode_wire [OF bench_message] by simp
  have data: "length (msg_Data (createWriteMessage key)) = 19"
    by (simp add: createWriteMessage_def bytes_of_string_def)
  show len: "length f = 56" using length_wire [OF bench_message [OF key(1)]] data by (simp add: f)
  then show "\<not> length f < 34" by simp
  show "f = WriteHandlerType # tl f" by (simp add: f wire_def createWriteMessage_def)
qed

lemma bench_frame_encoded:
  assumes "is_key key" and "length buf = 64" and "EncodeWithBuffer (createWriteMessage key) buf = (Inr enc, buf')"
  shows "bench_frame enc"
  using benchmark_messages_fit(1) [OF assms(1,2)] assms by (auto simp: bench_frame_def)

text \<open>What a server does with such a frame when its write handler is registered.\<close>

definition serves_frames ::
    "(('e, 't) hworld \<Rightarrow> bytes \<Rightarrow> (('e, 't) hworld \<times> bytes list \<times> Action) go) \<Rightarrow> nat \<Rightarrow> bool" where
  "serves_frames srv p \<longleftrightarrow> (\<forall>w f w' rs a. world_ok w \<longrightarrow> p < length (w_writers w) \<longrightarrow> bench_frame f \<longrightarrow>
     srv w f = Ret (w', rs, a) \<longrightarrow> world_ok w' \<and> p < length (w_writers w') \<and> concat rs = [0] \<and>
     world_view p w' = (world_view p w)(take 32 (drop 1 f) \<mapsto> drop 33 f))"

context kv_server
begin

lemma serves_bench_frames:
  assumes "lookup s WriteHandlerType = Some (wh p)"
  shows "serves_frames (serve s) p"
  unfolding serves_frames_def
proof (intro allI impI)
  fix w f w' rs a
  assume w: "world_ok w" "p < length (w_writers w)" and fr: "bench_frame f" and srv: "serve s w f = Ret (w', rs, a)"
  note shape = bench_frame_shape [OF fr]
  have "serve s w (WriteHandlerType # tl f) = Ret (w', rs, a)" using srv shape(2) by simp
  from serve_write [OF assms w this] have "wh p w f = Ret (w', rs)" using shape(2) by simp
  from wh_effect [OF w this] show "world_ok w' \<and> p < length (w_writers w') \<and> concat rs = [0] \<and>
      world_view p w' = (world_view p w)(take 32 (drop 1 f) \<mapsto> drop 33 f)"
    using shape(3) w(2) by simp
qed

end

section \<open>A write benchmark against a server of frames\<close>

text \<open>The messages a goroutine has sent, and what waits for it.\<close>

fun pc_sent :: "int \<Rightarrow> pc \<Rightarrow> int" where
  "pc_sent m (AtRead j buf n) = j + 1"
| "pc_sent m (AtCount j buf) = j + 1"
| "pc_sent m pc = pc_count m pc"

fun thread_ok :: "pc \<Rightarrow> bytes \<Rightarrow> bool" where
  "thread_ok (AtWrite j buf enc) inbox = (bench_frame enc \<and> inbox = [])"
| "thread_ok (AtRead j buf n) inbox = (0 < n \<and> inbox = [0])"
| "thread_ok pc inbox = (inbox = [])"

definition loop_inv ::
    "nat \<Rightarrow> (bytes \<rightharpoonup> bytes) \<Rightarrow> int \<Rightarrow> int \<Rightarrow> ('e, 't) loop config \<Rightarrow> bool" where
  "loop_inv p view m s c \<longleftrightarrow> inv_pcs m s c \<and>
     (let k = b_net (snd c) in
        world_ok (lp_world k) \<and> p < length (w_writers (lp_world k)) \<and>
        world_view p (lp_world k) = stored_frames view (lp_frames k) \<and>
        (\<forall>f \<in> set (lp_frames k). bench_frame f) \<and>
        (\<forall>i < length (fst c). thread_ok (fst c ! i) (lp_inbox k i)) \<and>
        (no_error (fst c) \<longrightarrow> int (length (lp_frames k)) = (\<Sum>t\<leftarrow>fst c. pc_sent m t)))"

text \<open>
  The workers of the server move on their own; they keep the contents the writer represents, as
  the batch writer's steps do.
\<close>

definition workers_ok :: "nat \<Rightarrow> (nat \<Rightarrow> ('e, 't) hworld \<Rightarrow> ('e, 't) hworld) \<Rightarrow> bool" where
  "workers_ok p env \<longleftrightarrow> (\<forall>n w. world_ok w \<longrightarrow> p < length (w_writers w) \<longrightarrow>
     world_ok (env n w) \<and> p < length (w_writers (env n w)) \<and> world_view p (env n w) = world_view p w)"

text \<open>What one step of one client does to its connection and to the server.\<close>

definition loop_move ::
    "nat \<Rightarrow> int \<Rightarrow> nat \<Rightarrow> pc \<Rightarrow> ('e, 't) loop bench \<Rightarrow> pc \<Rightarrow> ('e, 't) loop bench \<Rightarrow> bool" where
  "loop_move p m i pc b pc' b' \<longleftrightarrow>
     thread_ok pc' (lp_inbox (b_net b') i) \<and>
     (\<forall>i'. i' \<noteq> i \<longrightarrow> lp_inbox (b_net b') i' = lp_inbox (b_net b) i') \<and>
     world_ok (lp_world (b_net b')) \<and> p < length (w_writers (lp_world (b_net b'))) \<and>
     (\<not> pc_error pc' \<longrightarrow> pc_sent m pc' = pc_sent m pc +
        int (length (lp_frames (b_net b')) - length (lp_frames (b_net b)))) \<and>
     (lp_frames (b_net b') = lp_frames (b_net b) \<and> lp_world (b_net b') = lp_world (b_net b) \<or>
      (\<exists>f. bench_frame f \<and> lp_frames (b_net b') = lp_frames (b_net b) @ [f] \<and>
         world_view p (lp_world (b_net b')) =
           (world_view p (lp_world (b_net b)))(take 32 (drop 1 f) \<mapsto> drop 33 f)))"

text \<open>A state in which a client can take a step.\<close>

definition loop_ready :: "nat \<Rightarrow> int \<Rightarrow> int \<Rightarrow> nat \<Rightarrow> pc \<Rightarrow> ('e, 't) loop bench \<Rightarrow> bool" where
  "loop_ready p m s i pc b \<longleftrightarrow> pc_ok m s pc \<and> pool_ok b \<and> world_ok (lp_world (b_net b)) \<and>
     p < length (w_writers (lp_world (b_net b))) \<and> thread_ok pc (lp_inbox (b_net b) i)"

text \<open>A step that leaves the network alone.\<close>

lemma loop_quiet:
  assumes "loop_ready p m s i pc b" and "b_net b' = b_net b" and "thread_ok pc' (lp_inbox (b_net b) i)"
    and "\<not> pc_error pc' \<Longrightarrow> pc_sent m pc' = pc_sent m pc"
  shows "loop_move p m i pc b pc' b'"
  using assms by (simp add: loop_move_def loop_ready_def)

lemma loop_select:
  assumes "loop_ready p m s i (AtSelect j) b" and "is_key (ch_key ch)"
    and "(if \<not> j < m then Ret (AtReturn None, b)
      else case b_ctx_Err b of
             Some err \<Rightarrow> Ret (AtReturn (Some err), b)
           | None \<Rightarrow>
               let (buf, b) = pool_Get (ch_buf ch) b
               in case EncodeWithBuffer (createWriteMessage (ch_key ch)) buf of
                    (Inl err, buf) \<Rightarrow>
                      Ret (AtReturn (Some (Wrapped ''failed to encode message'' err)), pool_Put buf b)
                  | (Inr encodedMessage, buf) \<Rightarrow> Ret (AtWrite j buf encodedMessage, b)) = Ret (pc', b')"
  shows "loop_move p m i (AtSelect j) b pc' b'"
proof (cases "j < m \<and> b_ctx_Err b = None")
  case True
  obtain buf b1 where g: "pool_Get (ch_buf ch) b = (buf, b1)" "length buf = 64" "quiet b b1"
    using pool_Get_ok [of b "ch_buf ch"] assms(1) by (auto simp: loop_ready_def)
  have net: "b_net b1 = b_net b" using g(1) by (auto simp: pool_Get_def split: if_splits)
  obtain enc buf' where e: "EncodeWithBuffer (createWriteMessage (ch_key ch)) buf = (Inr enc, buf')"
    using encode_pooled [OF g(2)] by blast
  have "pc' = AtWrite j buf' enc" "b' = b1" using assms(3) True by (auto simp: g(1) e)
  then show ?thesis using bench_frame_encoded [OF assms(2) g(2) e] assms(1)
    by (intro loop_quiet [OF assms(1)]) (simp_all add: net loop_ready_def)
next
  case False
  then show ?thesis using assms(1,3)
    by (intro loop_quiet [OF assms(1)]) (auto simp: loop_ready_def split: if_splits option.splits)
qed

lemma loop_acquire:
  assumes "loop_ready p m s i AtAcquire b"
    and "go_bind (go_bind addr (\<lambda>addr. Ret (resolve_and_dial (loop_ops srv env) addr i (b_net b)))) (\<lambda>(r, net).
       Ret (case r of Some err \<Rightarrow> AtExit (Some err) | None \<Rightarrow> AtSelect 0, b\<lparr>b_net := net\<rparr>)) = Ret (pc', b')"
  shows "loop_move p m i AtAcquire b pc' b'"
  using assms by (intro loop_quiet [OF assms(1)])
    (auto simp: resolve_and_dial_def loop_ops_def go_bind_Ret_iff loop_ready_def)

text \<open>A write hands the frame to the server, whose success code is then waiting to be read.\<close>

lemma loop_write:
  assumes "serves_frames srv p" and "loop_ready p m s i (AtWrite j buf enc) b" and "0 < n"
    and "go_bind (net_Write (loop_ops srv env) i enc (b_net b)) (\<lambda>(r, net).
       Ret (case r of
              Some err \<Rightarrow> bench_fail buf (failed err) (b\<lparr>b_net := net\<rparr>)
            | None \<Rightarrow> (AtRead j buf n, b\<lparr>b_net := net\<rparr>))) = Ret (pc', b')"
  shows "loop_move p m i (AtWrite j buf enc) b pc' b'"
proof -
  have fr: "bench_frame enc" "lp_inbox (b_net b) i = []" and w: "world_ok (lp_world (b_net b))"
    "p < length (w_writers (lp_world (b_net b)))" using assms(2) by (simp_all add: loop_ready_def)
  obtain w' rs a where srv: "srv (lp_world (b_net b)) enc = Ret (w', rs, a)"
    using assms(4) by (auto simp: loop_ops_def go_bind_Ret_iff)
  note eff = assms(1) [unfolded serves_frames_def, rule_format, OF w fr(1) srv]
  have "pc' = AtRead j buf n" "b_net b' = (b_net b)\<lparr>lp_world := w',
      lp_inbox := (lp_inbox (b_net b))(i := [0]), lp_frames := lp_frames (b_net b) @ [enc]\<rparr>"
    using assms(4) eff fr(2) by (auto simp: loop_ops_def srv)
  then show ?thesis using eff fr(1) assms(3) by (auto simp: loop_move_def)
qed

text \<open>A read takes the success code; a suite may look at it.\<close>

lemma loop_read:
  assumes "loop_ready p m s i (AtRead j buf n) b" and "\<not> bad [0]"
    and "go_bind (net_Read (loop_ops srv env) i n (b_net b)) (\<lambda>(r, net).
       Ret (case r of
              Inl err \<Rightarrow> bench_fail buf (failed err) (b\<lparr>b_net := net\<rparr>)
            | Inr bs \<Rightarrow> if bad bs then bench_fail buf refused (b\<lparr>b_net := net\<rparr>)
                 else (AtCount j buf, b\<lparr>b_net := net\<rparr>))) = Ret (pc', b')"
  shows "loop_move p m i (AtRead j buf n) b pc' b'"
  using assms by (auto simp: loop_ops_def loop_ready_def loop_move_def)

lemma loop_read_any:
  assumes "loop_ready p m s i (AtRead j buf n) b"
    and "go_bind (net_Read (loop_ops srv env) i n (b_net b)) (\<lambda>(r, net).
       Ret (case r of
              Inl err \<Rightarrow> bench_fail buf (failed err) (b\<lparr>b_net := net\<rparr>)
            | Inr _ \<Rightarrow> (AtCount j buf, b\<lparr>b_net := net\<rparr>))) = Ret (pc', b')"
  shows "loop_move p m i (AtRead j buf n) b pc' b'"
  using assms by (auto simp: loop_ops_def loop_ready_def loop_move_def)

text \<open>The steps that all suites share.\<close>

lemma loop_common:
  assumes "loop_ready p m s i pc b"
  shows "pc = AtCount j buf \<Longrightarrow> bench_count s l j buf b = Ret (pc', b') \<Longrightarrow> loop_move p m i pc b pc' b'"
    and "pc = AtAppend j buf lat \<Longrightarrow> bench_append j buf lat b = (pc', b') \<Longrightarrow> loop_move p m i pc b pc' b'"
    and "pc = AtStore j buf lat loaded \<Longrightarrow> bench_store j buf lat loaded b = (pc', b') \<Longrightarrow> loop_move p m i pc b pc' b'"
    and "pc = AtReturn r \<Longrightarrow> bench_close (loop_ops srv env) i r b = (pc', b') \<Longrightarrow> loop_move p m i pc b pc' b'"
    and "pc = AtExit r \<Longrightarrow> group_exit r b = (pc', b') \<Longrightarrow> loop_move p m i pc b pc' b'"
  using assms
  by (auto simp: loop_ready_def loop_move_def bench_count_def bench_append_def bench_store_def bench_close_def
      group_exit_def cancel_def pool_Put_def loop_ops_def Let_def split: option.splits if_splits)

lemma stored_frames_snoc:
  "stored_frames view (fs @ [f]) = (stored_frames view fs)(take 32 (drop 1 f) \<mapsto> drop 33 f)"
  by (simp add: stored_frames_def)

text \<open>
  The interface: a load generator whose network is a connection to a server. Once the server is
  \<open>wired\<close> to a writer, every step of a client is such a move.
\<close>

locale loop_generator = load_generator "loop_ops srv env" client m s
  for srv :: "('e, 't) hworld \<Rightarrow> bytes \<Rightarrow> (('e, 't) hworld \<times> bytes list \<times> Action) go"
    and env and client :: "('e, 't) loop client" and m s :: int +
  fixes wired :: bool and p :: nat
  assumes loop_step: "wired \<Longrightarrow> loop_ready p m s i pc b \<Longrightarrow> is_key (ch_key ch) \<Longrightarrow>
      client ch i pc b = Ret (pc', b') \<Longrightarrow> loop_move p m i pc b pc' b'"
begin

lemma loop_inv_step:
  assumes wired and key: "is_key (ch_key ch)" and inv: "loop_inv p view m s (ts, b)"
    and i: "i < length ts" and st: "client ch i (ts ! i) b = Ret (pc', b')"
  shows "loop_inv p view m s (ts[i := pc'], b')"
proof -
  let ?k = "b_net b" and ?k' = "b_net b'"
  have pcs: "inv_pcs m s (ts, b)" using inv by (simp add: loop_inv_def)
  have ok: "pc_ok m s (ts ! i)" "pool_ok b" using pcs i by (auto simp: inv_pcs_def)
  have old: "world_ok (lp_world ?k)" "p < length (w_writers (lp_world ?k))"
    "world_view p (lp_world ?k) = stored_frames view (lp_frames ?k)" "\<forall>f \<in> set (lp_frames ?k). bench_frame f"
    "\<forall>i < length ts. thread_ok (ts ! i) (lp_inbox ?k i)"
    "no_error ts \<Longrightarrow> int (length (lp_frames ?k)) = (\<Sum>t\<leftarrow>ts. pc_sent m t)"
    using inv by (simp_all add: loop_inv_def Let_def)
  have mv: "client_move m s (ts ! i) b pc' b'" using client_moves [OF ok st] .
  have "loop_ready p m s i (ts ! i) b" using ok old(1,2,5) i by (simp add: loop_ready_def)
  note new = loop_step [OF \<open>wired\<close> this key st, unfolded loop_move_def]
  have "inv_pcs m s (ts[i := pc'], b')" using move_inv_pcs(2) [OF i mv pcs] .
  moreover have "world_ok (lp_world ?k') \<and> p < length (w_writers (lp_world ?k'))" using new by blast
  moreover have "world_view p (lp_world ?k') = stored_frames view (lp_frames ?k') \<and>
      (\<forall>f \<in> set (lp_frames ?k'). bench_frame f)"
    using new old(3,4) by (auto simp: stored_frames_snoc)
  moreover have "\<forall>i' < length (ts[i := pc']). thread_ok (ts[i := pc'] ! i') (lp_inbox ?k' i')"
    using new old(5) i by (auto simp: nth_list_update)
  moreover have "int (length (lp_frames ?k')) = (\<Sum>t\<leftarrow>ts[i := pc']. pc_sent m t)" if "no_error (ts[i := pc'])"
  proof -
    note ne = no_error_update [OF that i client_move_error [OF mv]]
    have "length (lp_frames ?k) \<le> length (lp_frames ?k')" using new by auto
    then show ?thesis
      using new ne(2) old(6) [OF ne(1)] sum_list_map_update [OF i, of "pc_sent m" pc'] by simp
  qed
  ultimately show ?thesis by (simp add: loop_inv_def Let_def)
qed

lemma loop_inv_exec1:
  assumes wired and "workers_ok p env" and "\<forall>i ch. Step i ch \<in> set evs \<longrightarrow> is_key (ch_key ch)"
    and "ev \<in> set evs" and "loop_inv p view m s c" and "bench_exec1 (loop_ops srv env) client ev c = Ret c'"
  shows "loop_inv p view m s c'"
proof (cases ev)
  case (Step i ch)
  obtain ts b where c: "c = (ts, b)" by (cases c)
  obtain pc' b' where "i < length ts" "c' = (ts[i := pc'], b')" "client ch i (ts ! i) b = Ret (pc', b')"
    using bench_exec1_Step assms(6) unfolding Step c by blast
  moreover have "is_key (ch_key ch)" using assms(3,4) Step by blast
  ultimately show ?thesis using loop_inv_step [OF assms(1)] assms(5) unfolding c by blast
next
  case (Cancel cause)
  then show ?thesis using assms(5,6) by (cases c) (auto simp: loop_inv_def inv_pcs_def pool_ok_def)
next
  case (Env n)
  then show ?thesis using assms(2,5,6)
    by (cases c) (auto simp: loop_inv_def inv_pcs_def pool_ok_def Let_def loop_ops_def workers_ok_def)
qed

text \<open>What a run that returns no error has given the server, and what the server has stored.\<close>

lemma run_stores:
  assumes wired and "workers_ok p env" and "\<forall>i ch. Step i ch \<in> set evs \<longrightarrow> is_key (ch_key ch)"
    and "world_ok w" and "p < length (w_writers w)" and pool: "\<forall>buf \<in> set pool. length buf = 64"
    and "0 \<le> n" and "0 \<le> m"
    and "bench_run (loop_ops srv env) client evs duration memory (bench_init ctx_Err pool (loop_start w) n m report) =
      Ret (None, report', b)"
  shows "int (length (lp_frames (b_net b))) = n * m \<and> (\<forall>f \<in> set (lp_frames (b_net b)). bench_frame f) \<and>
    world_ok (lp_world (b_net b)) \<and>
    world_view p (lp_world (b_net b)) = stored_frames (world_view p w) (lp_frames (b_net b))"
proof -
  let ?c0 = "bench_init ctx_Err pool (loop_start w) n m report"
  obtain tl where ex: "bench_exec (loop_ops srv env) client evs ?c0 = Ret (tl, b)"
    and exd: "all_exited tl" and fin: "b_group_err b = None"
    using assms(9) by (auto simp: bench_run_def bench_finish_def go_bind_Ret_iff split: if_splits option.splits)
  note inv = exec_inv [OF ex bench_init_inv [OF pool]]
  have "\<forall>e. Exited (Some e) \<notin> set tl" using inv fin by (simp add: bench_inv_def inv_group_def)
  from all_exited_clean [OF exd this] have tl: "tl = replicate (nat n) (Exited None)"
    using inv by (simp add: bench_init_def)
  have inv0: "loop_inv p (world_view p w) m s ?c0"
    using pool assms(4,5)
    by (simp add: loop_inv_def inv_pcs_def bench_init_def loop_start_def pool_ok_def stored_frames_def
        sum_list_replicate)
  have "loop_inv p (world_view p w) m s (tl, b)"
    by (rule bench_exec_invariant [where I = "loop_inv p (world_view p w) m s", OF _ ex inv0])
      (rule loop_inv_exec1 [OF assms(1-3)])
  moreover have "no_error tl" by (simp add: tl no_error_def)
  moreover have "(\<Sum>t\<leftarrow>tl. pc_sent m t) = n * m" using assms(7,8) by (simp add: tl sum_list_replicate)
  ultimately show ?thesis by (simp add: loop_inv_def Let_def)
qed

end

section \<open>The three suites of gnet servers\<close>

abbreviation tcp_loop where
  "tcp_loop s env \<equiv> loop_ops (\<lambda>w f. Tcp_OnTraffic s w (Inr f)) env"

abbreviation tcp_wired where
  "tcp_wired s p \<equiv> Tcp_handler s WriteHandlerType = Some (TCPWriteHandler_HandleMessage (NewTCPWriteHandler p))"

lemma TcpSuite_loop:
  assumes "tcp_wired s p" and rd: "loop_ready p m (st_latencySampling ts) i pc b" and "is_key (ch_key ch)"
    and st: "TcpSuite_client (tcp_loop s env) fdb ts m True ch i pc b = Ret (pc', b')"
  shows "loop_move p m i pc b pc' b'"
proof (cases pc)
  case AtAcquire
  show ?thesis
    unfolding AtAcquire
    by (rule loop_acquire [OF rd [unfolded AtAcquire] st [unfolded AtAcquire TcpSuite_client.simps TcpSuite_AcquireClient_def]])
next
  case (AtSelect j)
  show ?thesis
    unfolding AtSelect
    by (rule loop_select [OF rd [unfolded AtSelect] assms(3) st [unfolded AtSelect TcpSuite_client.simps if_True]])
next
  case (AtWrite j buf enc)
  have "bench_frame enc" using rd by (simp add: loop_ready_def AtWrite)
  then have "0 < length enc" using bench_frame_shape(1) by simp
  then show ?thesis
    unfolding AtWrite
    by (rule loop_write [OF tcpkv.serves_bench_frames [OF assms(1)] rd [unfolded AtWrite] _
          st [unfolded AtWrite TcpSuite_client.simps]])
next
  case (AtRead j buf n)
  show ?thesis
    unfolding AtRead
    by (rule loop_read_any [OF rd [unfolded AtRead] st [unfolded AtRead TcpSuite_client.simps]])
qed (use st loop_common [OF rd] in auto)

interpretation tcpl: loop_generator "(\<lambda>w f. Tcp_OnTraffic s w (Inr f))" env "TcpSuite_client (tcp_loop s env) fdb ts m True" m
  "st_latencySampling ts" "tcp_wired s p" p
  for s env fdb ts m p
  by unfold_locales (rule TcpSuite_loop)

abbreviation udp_loop where
  "udp_loop s env \<equiv> loop_ops (Udp_serve s) env"

abbreviation udp_wired where
  "udp_wired s p \<equiv> Udp_handler s WriteHandlerType = Some (UDPWriteHandler_HandleMessage (NewUDPWriteHandler p))"

lemma UdpSuite_loop:
  assumes "udp_wired s p" and rd: "loop_ready p m (st_latencySampling ts) i pc b" and "is_key (ch_key ch)"
    and st: "UdpSuite_client (udp_loop s env) fdb ts m True ch i pc b = Ret (pc', b')"
  shows "loop_move p m i pc b pc' b'"
proof (cases pc)
  case AtAcquire
  show ?thesis
    unfolding AtAcquire
    by (rule loop_acquire [OF rd [unfolded AtAcquire] st [unfolded AtAcquire UdpSuite_client.simps UdpSuite_AcquireClient_def]])
next
  case (AtSelect j)
  show ?thesis
    unfolding AtSelect
    by (rule loop_select [OF rd [unfolded AtSelect] assms(3) st [unfolded AtSelect UdpSuite_client.simps if_True]])
next
  case (AtWrite j buf enc)
  have "bench_frame enc" using rd by (simp add: loop_ready_def AtWrite)
  then have "0 < length enc" using bench_frame_shape(1) by simp
  then show ?thesis
    unfolding AtWrite
    by (rule loop_write [OF udpkv.serves_bench_frames [OF assms(1)] rd [unfolded AtWrite] _
          st [unfolded AtWrite UdpSuite_client.simps]])
next
  case (AtRead j buf n)
  show ?thesis
    unfolding AtRead
    by (rule loop_read_any [OF rd [unfolded AtRead] st [unfolded AtRead UdpSuite_client.simps]])
qed (use st loop_common [OF rd] in auto)

interpretation udpl: loop_generator "(Udp_serve s)" env "UdpSuite_client (udp_loop s env) fdb ts m True" m
  "st_latencySampling ts" "udp_wired s p" p
  for s env fdb ts m p
  by unfold_locales (rule UdpSuite_loop)

abbreviation uds_loop where
  "uds_loop s env \<equiv> loop_ops (Uds_serve s) env"

abbreviation uds_wired where
  "uds_wired s p \<equiv> Uds_handler s WriteHandlerType = Some (UDSWriteHandler_HandleMessage (NewUDSWriteHandler p))"

lemma UdsSuite_loop:
  assumes "uds_wired s p" and rd: "loop_ready p m (st_latencySampling ts) i pc b" and "is_key (ch_key ch)"
    and st: "UdsSuite_client (uds_loop s env) fdb ts m True ch i pc b = Ret (pc', b')"
  shows "loop_move p m i pc b pc' b'"
proof (cases pc)
  case AtAcquire
  show ?thesis
    unfolding AtAcquire
    by (rule loop_acquire [OF rd [unfolded AtAcquire] st [unfolded AtAcquire UdsSuite_client.simps UdsSuite_AcquireClient_def]])
next
  case (AtSelect j)
  show ?thesis
    unfolding AtSelect
    by (rule loop_select [OF rd [unfolded AtSelect] assms(3) st [unfolded AtSelect UdsSuite_client.simps if_True]])
next
  case (AtWrite j buf enc)
  show ?thesis
    unfolding AtWrite
    by (rule loop_write [OF udskv.serves_bench_frames [OF assms(1)] rd [unfolded AtWrite] _
          st [unfolded AtWrite UdsSuite_client.simps]]) simp
next
  case (AtRead j buf n)
  have "response_buf n [0] ! 0 = 0" using rd by (simp add: AtRead response_buf_def loop_ready_def)
  then show ?thesis
    unfolding AtRead
    by (intro loop_read [OF rd [unfolded AtRead] _ st [unfolded AtRead UdsSuite_client.simps]]) simp
qed (use st loop_common [OF rd] in auto)

interpretation udsl: loop_generator "(Uds_serve s)" env "UdsSuite_client (uds_loop s env) fdb ts m True" m
  "st_latencySampling ts" "uds_wired s p" p
  for s env fdb ts m p
  by unfold_locales (rule UdsSuite_loop)

section \<open>Properties\<close>


text \<open>The same for the benchmarks over UDP and over Unix domain sockets.\<close>

theorem udp_benchmark_stores:
  assumes "udp_wired s p"
    and "workers_ok p env" and "\<forall>i ch. Step i ch \<in> set (rn_schedule rn) \<longrightarrow> is_key (ch_key ch)"
    and "world_ok w" and "p < length (w_writers w)" and "suite_ok (SuUdp ts)" and "0 \<le> n" and "0 \<le> m"
    and "UdpSuite_RunWriteBenchmark (udp_loop s env) fdb ts rn (loop_start w) n m report =
      Ret (None, report', ts', net')"
  shows "int (length (lp_frames net')) = n * m \<and> (\<forall>f \<in> set (lp_frames net'). bench_frame f) \<and>
    world_ok (lp_world net') \<and>
    world_view p (lp_world net') = stored_frames (world_view p w) (lp_frames net')"
proof -
  have pool: "\<forall>buf \<in> set (st_pool ts). length buf = 64" using assms(6) by (simp add: suite_ok_def)
  obtain b where "bench_run (udp_loop s env) (UdpSuite_client (udp_loop s env) fdb ts m True) (rn_schedule rn)
      (rn_duration rn) (rn_memory rn) (bench_init (rn_ctx_Err rn) (st_pool ts) (loop_start w) n m report) =
      Ret (None, report', b)" "net' = b_net b"
    using assms(9) by (auto simp: run_defs)
  then show ?thesis using udpl.run_stores [OF assms(1-5) pool assms(7,8)] by simp
qed

theorem uds_benchmark_stores:
  assumes "uds_wired s p"
    and "workers_ok p env" and "\<forall>i ch. Step i ch \<in> set (rn_schedule rn) \<longrightarrow> is_key (ch_key ch)"
    and "world_ok w" and "p < length (w_writers w)" and "suite_ok (SuUds ts)" and "0 \<le> n" and "0 \<le> m"
    and "UdsSuite_RunWriteBenchmark (uds_loop s env) fdb ts rn (loop_start w) n m report =
      Ret (None, report', ts', net')"
  shows "int (length (lp_frames net')) = n * m \<and> (\<forall>f \<in> set (lp_frames net'). bench_frame f) \<and>
    world_ok (lp_world net') \<and>
    world_view p (lp_world net') = stored_frames (world_view p w) (lp_frames net')"
proof -
  have pool: "\<forall>buf \<in> set (st_pool ts). length buf = 64" using assms(6) by (simp add: suite_ok_def)
  obtain b where "bench_run (uds_loop s env) (UdsSuite_client (uds_loop s env) fdb ts m True) (rn_schedule rn)
      (rn_duration rn) (rn_memory rn) (bench_init (rn_ctx_Err rn) (st_pool ts) (loop_start w) n m report) =
      Ret (None, report', b)" "net' = b_net b"
    using assms(9) by (auto simp: run_defs)
  then show ?thesis using udsl.run_stores [OF assms(1-5) pool assms(7,8)] by simp
qed

text \<open>Worker steps without a failed flush are such moves of the environment.\<close>

lemma workers_ok_steps:
  assumes "\<And>n w. world_ok w \<Longrightarrow> p < length (w_writers w) \<Longrightarrow> \<exists>evs bw db.
      bw_run (w_writers w ! p, w_db w) evs [] (bw, db) \<and> (\<forall>k v. EWrite k v \<notin> set evs) \<and>
      env n w = w\<lparr>w_db := db, w_writers := (w_writers w)[p := bw]\<rparr>"
  shows "workers_ok p env"
  unfolding workers_ok_def
proof (intro allI impI)
  fix n and w :: "('a, 'b) hworld"
  assume w: "world_ok w" "p < length (w_writers w)"
  obtain evs bw db where run: "bw_run (w_writers w ! p, w_db w) evs [] (bw, db)"
    and no: "\<forall>k v. EWrite k v \<notin> set evs" and env: "env n w = w\<lparr>w_db := db, w_writers := (w_writers w)[p := bw]\<rparr>"
    using assms [OF w] by blast
  have inv: "bw_inv (w_writers w ! p)" "db_ok (w_db w)" using world_okD [OF w(1)] w(2) by simp_all
  have "foldl spec_step m evs = m" for m
    using no
  proof (induction evs arbitrary: m)
    case (Cons ev evs)
    have "spec_step m ev = m" using Cons.prems by (cases ev) auto
    then show ?case using Cons by simp
  qed simp
  then have "bw_view bw db = bw_view (w_writers w ! p) (w_db w)" using bw_run_refines [OF run] inv by simp
  moreover have "bw_inv bw" "db_ok db" using bw_run_inv [OF run] bw_run_db_ok [OF run] inv by simp_all
  ultimately show "world_ok (env n w) \<and> p < length (w_writers (env n w)) \<and>
      world_view p (env n w) = world_view p w"
    using w set_update_subset_insert [of "w_writers w" p bw]
    by (auto simp: env world_ok_def world_view_def)
qed

definition loop_choice :: choice where
  "loop_choice = \<lparr>ch_key = sample_key, ch_buf = 0, ch_latency = 5\<rparr>"

definition loop_schedule :: "bench_event list" where
  "loop_schedule = replicate 10 (Step 0 loop_choice)"

lemma sample_loop_run:
  "\<exists>report' ts' net'. TcpSuite_RunWriteBenchmark (tcp_loop sample_tcp (\<lambda>_ w. w)) sample_fdb
     (suite_base sample_suite) (sample_run_env loop_schedule) (loop_start sample_world) 1 1 NewReport =
     Ret (None, report', ts', net')"
proof -
  let ?ops = "tcp_loop sample_tcp (\<lambda>_ w. w)"
  let ?client = "TcpSuite_client ?ops sample_fdb (suite_base sample_suite) 1 True"
  define enc where "enc = wire (createWriteMessage sample_key)"
  obtain buf where e: "EncodeWithBuffer (createWriteMessage sample_key) (replicate 64 0) = (Inr enc, buf)"
    using EncodeWithBuffer_wire [OF bench_message [of sample_key], of "replicate 64 0"]
    by (simp add: is_key_def createWriteMessage_def bytes_of_string_def enc_def)
  obtain v where v: "enc = WriteHandlerType # sample_key @ v" "v \<noteq> []"
    by (simp add: enc_def wire_def createWriteMessage_def bytes_of_string_def)
  obtain w' where srv: "Tcp_OnTraffic sample_tcp sample_world (Inr enc) = Ret (w', [[0]], ActNone)"
    using sample_tcp_writes [OF v(2)] v(1) by auto
  have fr: "enc \<noteq> []" by (simp add: v(1))
  have ev: "loop_schedule = map (\<lambda>_. Step 0 loop_choice) [0::nat, 1, 2, 3, 4, 5, 6, 7, 8, 9]"
    by (simp add: loop_schedule_def numeral_eq_Suc)
  have ex: "\<exists>b. bench_exec ?ops ?client loop_schedule
      (bench_init None [] (loop_start sample_world) 1 1 NewReport) = Ret ([Exited None], b) \<and>
      b_group_err b = None \<and> histogram b = [5]"
    by (simp add: ev bench_init_def TcpSuite_AcquireClient_def resolve_and_dial_def
        server_Addr_def sample_suite_def NewTcpSuite_def sample_fdb_def tm_contents_def loop_ops_def loop_start_def
        loop_choice_def pool_Get_def e srv fr bench_count_def bench_append_def bench_store_def bench_close_def
        group_exit_def pool_Put_def Let_def NewReport_def)
  then obtain b where b: "bench_exec ?ops ?client loop_schedule
      (bench_init None [] (loop_start sample_world) 1 1 NewReport) = Ret ([Exited None], b)"
      "b_group_err b = None" "histogram b = [5]" by blast
  let ?r = "(b_report b)\<lparr>SuccessMessages := b_success b, FailedMessages := b_failed b,
      TotalMessages := wrap64 (b_success b + b_failed b), TotalDuration := 9\<rparr>"
  have "LatencyHistogram ?r = [5]" by (simp add: b(3))
  then obtain report' where "Finalize 0 ?r = Ret report'" using Finalize_returns [of ?r 0] by auto
  moreover have "st_pool (suite_base sample_suite) = []" by (simp add: sample_suite_def NewTcpSuite_def)
  ultimately show ?thesis
    using b(1,2)
    by (simp add: run_defs bench_run_def bench_finish_def all_exited_def sample_run_env_def)
qed


lemma pc_error_result:
  "pc_error (AtReturn r) = (r \<noteq> None)" "pc_error (AtExit r) = (r \<noteq> None)" "pc_error (Exited r) = (r \<noteq> None)"
  by (cases r; simp)+

lemma dummy_step_clean:
  assumes "DummySuite_client ops fdb ds m isWrite ch i pc b = Ret (pc', b')"
    and "\<forall>addr. net_Resolve ops addr = None" and "\<forall>i addr k. fst (net_Dial ops i addr k) = None"
    and "pool_ok b" and "\<not> pc_error pc" and "b_ctx_Err b = None" and "b_group_err b = None"
  shows "\<not> pc_error pc' \<and> b_ctx_Err b' = None \<and> b_group_err b' = None"
proof (cases pc)
  case AtAcquire
  obtain addr where "server_Addr fdb ds = Ret addr"
    using assms(1) by (auto simp: AtAcquire DummySuite_AcquireClient_def go_bind_Ret_iff)
  moreover obtain net where "net_Dial ops i addr (b_net b) = (None, net)"
    using assms(3) by (metis prod.collapse)
  ultimately show ?thesis
    using assms by (auto simp: AtAcquire DummySuite_AcquireClient_def resolve_and_dial_def)
next
  case (AtSelect j)
  show ?thesis
  proof (cases "j < m")
    case True
    obtain buf b1 where g: "pool_Get (ch_buf ch) b = (buf, b1)" "length buf = 64" "quiet b b1"
      using pool_Get_ok [OF assms(4)] .
    obtain enc buf' where "EncodeWithBuffer (if isWrite then createWriteMessage (ch_key ch)
        else createReadMessage (replicate 32 0)) buf = (Inr enc, buf')"
      using encode_pooled [OF g(2)] encode_pooled_read [OF g(2)] by (metis (full_types))
    then show ?thesis using assms g True by (auto simp: AtSelect quiet_def)
  qed (use assms in \<open>auto simp: AtSelect\<close>)
qed (use assms in \<open>auto simp: pc_error_result go_bind_Ret_iff bench_count_def Let_def pool_Put_def bench_append_def
      bench_store_def bench_close_def group_exit_def split: if_splits option.splits\<close>)

text \<open>
  A TCP read benchmark never sends a request: against a server that only answers what it is
  sent, a run of at least one client and one message does not return, whatever the schedule,
  unless the context is cancelled.
\<close>

theorem tcp_read_benchmark_hangs:
  fixes w :: "('e, 't) hworld"
  assumes "0 < n" and "0 < m" and "rn_ctx_Err rn = None" and "\<forall>e. Cancel e \<notin> set (rn_schedule rn)"
  shows "\<not> returns (TcpSuite_RunReadBenchmark (loop_ops srv env) fdb ts rn (loop_start w) n m report)"
proof
  let ?ops = "loop_ops srv env" and ?c0 = "bench_init None (st_pool ts) (loop_start w) n m report"
  let ?client = "TcpSuite_client ?ops fdb ts m False"
  let ?I = "\<lambda>c. length (fst c) = nat n \<and> b_ctx_Err (snd c) = None \<and> lp_inbox (b_net (snd c)) = (\<lambda>_. []) \<and>
    (\<forall>t \<in> set (fst c). t \<in> {AtAcquire, AtSelect 0} \<union> {AtRead 0 buf k | buf k. True})"
  assume "returns (TcpSuite_RunReadBenchmark ?ops fdb ts rn (loop_start w) n m report)"
  then obtain tl b where ex: "bench_exec ?ops ?client (rn_schedule rn) ?c0 = Ret (tl, b)" and exd: "all_exited tl"
    using assms(3) by (auto simp: returns_iff run_defs bench_run_def split: if_splits)
  have "?I (tl, b)"
  proof (rule bench_exec_invariant [where I = ?I, OF _ ex])
    show "?I ?c0" by (simp add: bench_init_def loop_start_def)
    fix ev and c c' :: "('e, 't) loop config"
    assume ev: "ev \<in> set (rn_schedule rn)" and I: "?I c" and st: "bench_exec1 ?ops ?client ev c = Ret c'"
    obtain ts0 b0 where c: "c = (ts0, b0)" by (cases c)
    show "?I c'"
    proof (cases ev)
      case (Step i ch)
      obtain pc' b' where i: "i < length ts0" and cl: "?client ch i (ts0 ! i) b0 = Ret (pc', b')"
        and c': "c' = (ts0[i := pc'], b')" using bench_exec1_Step st unfolding Step c by blast
      have "ts0 ! i \<in> {AtAcquire, AtSelect 0} \<union> {AtRead 0 buf k | buf k. True}"
        using I i by (metis c fst_conv nth_mem)
      then have "pc' \<in> {AtAcquire, AtSelect 0} \<union> {AtRead 0 buf k | buf k. True} \<and>
          b_ctx_Err b' = None \<and> lp_inbox (b_net b') = (\<lambda>_. [])"
        using cl I assms(2)
        by (auto simp: c TcpSuite_AcquireClient_def resolve_and_dial_def loop_ops_def go_bind_Ret_iff
            pool_Get_def Let_def split: if_splits)
      then show ?thesis using I set_update_subset_insert [of ts0 i pc'] by (auto simp: c c')
    next
      case (Cancel cause)
      then show ?thesis using ev assms(4) by simp
    next
      case (Env k)
      then show ?thesis using I st by (auto simp: c loop_ops_def)
    qed
  qed
  then obtain t where "t \<in> set tl" "\<forall>r. t \<noteq> Exited r"
    using assms(1) by (cases tl) auto
  then show False using all_exitedD [OF exd] by blast
qed

theorem tcp_read_benchmark_hangs_witness:
  "\<not> returns (TcpSuite_RunReadBenchmark (tcp_loop sample_tcp (\<lambda>_ w. w)) sample_fdb
     (suite_base sample_suite) (sample_run_env loop_schedule) (loop_start sample_world) 1 1 NewReport)"
  by (rule tcp_read_benchmark_hangs) (auto simp: sample_run_env_def loop_schedule_def)

text \<open>
  The dummy benchmark cannot fail: once the clients are connected and unless the context is
  cancelled, a run that returns reports every message as a success, also when every write of
  every client fails.
\<close>

theorem dummy_benchmark_ignores_errors:
  fixes ops :: "'k netops"
  assumes "\<forall>addr. net_Resolve ops addr = None" and "\<forall>i addr k. fst (net_Dial ops i addr k) = None"
    and "rn_ctx_Err rn = None" and "\<forall>e. Cancel e \<notin> set (rn_schedule rn)"
    and "suite_ok (SuDummy ds)" and "0 \<le> n" and "0 \<le> m" and "n * m < 2 ^ 63"
    and "DummySuite_runBenchmark ops fdb ds rn net n m report isWrite = Ret (r, report', ds', net')"
  shows "r = None \<and> SuccessMessages report' = n * m \<and> FailedMessages report' = 0"
proof -
  let ?c0 = "bench_init None (st_pool ds) net n m report" and ?client = "DummySuite_client ops fdb ds m isWrite"
  let ?I = "\<lambda>c. no_error (fst c) \<and> inv_pcs m (st_latencySampling ds) c \<and> b_ctx_Err (snd c) = None \<and>
    b_group_err (snd c) = None"
  obtain b where run: "bench_run ops ?client (rn_schedule rn) (rn_duration rn) (rn_memory rn) ?c0 =
      Ret (r, report', b)"
    using assms(3,9) by (auto simp: run_defs)
  obtain tl where ex: "bench_exec ops ?client (rn_schedule rn) ?c0 = Ret (tl, b)"
    and fin: "bench_finish (rn_duration rn) (rn_memory rn) b = Ret (r, report')"
    using run by (auto simp: bench_run_def go_bind_Ret_iff split: if_splits)
  have pool: "\<forall>buf \<in> set (st_pool ds). length buf = 64" using assms(5) by (simp add: suite_ok_def)
  have "?I (tl, b)"
  proof (rule bench_exec_invariant [where I = ?I, OF _ ex])
    show "?I ?c0" using pool by (simp add: bench_init_def no_error_def inv_pcs_def pool_ok_def)
    fix ev and c c' :: "'k config"
    assume ev: "ev \<in> set (rn_schedule rn)" and I: "?I c" and st: "bench_exec1 ops ?client ev c = Ret c'"
    obtain ts0 b0 where c: "c = (ts0, b0)" by (cases c)
    show "?I c'"
    proof (cases ev)
      case (Step i ch)
      obtain pc' b' where i: "i < length ts0" and cl: "?client ch i (ts0 ! i) b0 = Ret (pc', b')"
        and c': "c' = (ts0[i := pc'], b')" using bench_exec1_Step st unfolding Step c by blast
      have ok: "pc_ok m (st_latencySampling ds) (ts0 ! i)" "pool_ok b0" "\<not> pc_error (ts0 ! i)"
        using I i by (auto simp: c inv_pcs_def no_error_def)
      have mv: "client_move m (st_latencySampling ds) (ts0 ! i) b0 pc' b'" using DummySuite_moves [OF ok(1,2) cl] .
      have "\<not> pc_error pc'" "b_ctx_Err b' = None" "b_group_err b' = None"
        using dummy_step_clean [OF cl assms(1,2)] ok I by (simp_all add: c)
      then show ?thesis
        using I move_inv_pcs(2) [OF i mv] set_update_subset_insert [of ts0 i pc'] by (auto simp: c c' no_error_def)
    next
      case (Cancel cause)
      then show ?thesis using ev assms(4) by simp
    next
      case (Env k)
      then show ?thesis using I st by (auto simp: c inv_pcs_def pool_ok_def)
    qed
  qed
  then have none: "r = None" using fin by (auto simp: bench_finish_def go_bind_Ret_iff)
  show ?thesis using none dmyg.totals(1,2) [OF pool run [unfolded none]] assms(6-8) by (simp add: wrap64_id)
qed

text \<open>A network on which every write fails.\<close>

definition broken_ops :: "unit netops" where
  "broken_ops = sample_ops\<lparr>net_Write := (\<lambda>_ _ k. Ret (Some (Errorf ''broken pipe''), k))\<rparr>"

definition sample_dummy_fdb :: "(mem_store, mem_store, unit, unit, unit) FDB" where
  "sample_dummy_fdb = set_transport sample_fdb DummyTransportType (TrDummy (projr (NewDummyServer zero_Dummy)))"

lemma sample_dummy_run:
  "\<exists>r report' ds' net'. DummySuite_runBenchmark broken_ops sample_dummy_fdb
     ((NewDummySuite 500)\<lparr>st_server := Some DummyTransportType\<rparr>)
     (sample_run_env (replicate 9 (Step 0 loop_choice))) () 1 1 NewReport True = Ret (r, report', ds', net')"
proof -
  let ?ds = "(NewDummySuite 500)\<lparr>st_server := Some DummyTransportType\<rparr>"
  let ?client = "DummySuite_client broken_ops sample_dummy_fdb ?ds 1 True"
  obtain enc buf where e: "EncodeWithBuffer (createWriteMessage sample_key) (replicate 64 0) = (Inr enc, buf)"
    by (rule encode_pooled [of "replicate 64 0" sample_key]) simp_all
  have ev: "replicate 9 (Step 0 loop_choice) = map (\<lambda>_. Step 0 loop_choice) [0::nat, 1, 2, 3, 4, 5, 6, 7, 8]"
    by (simp add: numeral_eq_Suc)
  have "\<exists>b. bench_exec broken_ops ?client (replicate 9 (Step 0 loop_choice))
      (bench_init None [] () 1 1 NewReport) = Ret ([Exited None], b) \<and> b_group_err b = None \<and> histogram b = [5]"
    unfolding ev
    by (simp add: bench_init_def DummySuite_AcquireClient_def resolve_and_dial_def server_Addr_def
        NewDummySuite_def sample_dummy_fdb_def broken_ops_def sample_ops_def loop_choice_def pool_Get_def e
        bench_count_def bench_append_def bench_store_def bench_close_def group_exit_def pool_Put_def Let_def
        NewReport_def)
  then obtain b where b: "bench_exec broken_ops ?client (replicate 9 (Step 0 loop_choice))
      (bench_init None [] () 1 1 NewReport) = Ret ([Exited None], b)" "b_group_err b = None" "histogram b = [5]"
    by blast
  let ?r = "(b_report b)\<lparr>SuccessMessages := b_success b, FailedMessages := b_failed b,
      TotalMessages := wrap64 (b_success b + b_failed b), TotalDuration := 9\<rparr>"
  have "LatencyHistogram ?r = [5]" by (simp add: b(3))
  then obtain report' where "Finalize 0 ?r = Ret report'" using Finalize_returns [of ?r 0] by auto
  moreover have "st_pool ?ds = []" by (simp add: NewDummySuite_def)
  ultimately show ?thesis
    using b(1,2)
    by (simp add: run_defs bench_run_def bench_finish_def all_exited_def sample_run_env_def)
qed

theorem dummy_benchmark_ignores_errors_witness:
  "\<exists>report' ds' net'. DummySuite_runBenchmark broken_ops sample_dummy_fdb
     ((NewDummySuite 500)\<lparr>st_server := Some DummyTransportType\<rparr>)
     (sample_run_env (replicate 9 (Step 0 loop_choice))) () 1 1 NewReport True = Ret (None, report', ds', net') \<and>
   SuccessMessages report' = 1 \<and> FailedMessages report' = 0"
proof -
  let ?ds = "(NewDummySuite 500)\<lparr>st_server := Some DummyTransportType\<rparr>"
  let ?rn = "sample_run_env (replicate 9 (Step 0 loop_choice))"
  obtain r report' ds' net' where run: "DummySuite_runBenchmark broken_ops sample_dummy_fdb ?ds ?rn () 1 1
      NewReport True = Ret (r, report', ds', net')" using sample_dummy_run by blast
  have "r = None \<and> SuccessMessages report' = 1 * 1 \<and> FailedMessages report' = 0"
    by (rule dummy_benchmark_ignores_errors [OF _ _ _ _ _ _ _ _ run])
       (simp_all add: broken_ops_def sample_ops_def sample_run_env_def suite_ok_def NewDummySuite_def)
  then show ?thesis using run by auto
qed

end
