(* ===== verification/Report_Printing.thy ===== *)
theory Report_Printing
  imports Benchmark_Report
begin

text \<open>
  What \<open>PrintReport\<close> of \<^verbatim>\<open>src/benchmark/report.go\<close> prints: its lines, with the formatting of integers,
  of durations and of floating-point numbers that the package \<^verbatim>\<open>fmt\<close> and the type \<^verbatim>\<open>time.Duration\<close> apply.
  The grouping of digits, \<^verbatim>\<open>humanize.Comma\<close>, is a third-party function and a parameter.
\<close>

section \<open>Durations\<close>

text \<open>The last \<open>prec\<close> decimal digits of \<open>u\<close> as a fraction, without trailing zeros, and the rest of \<open>u\<close>.\<close>

fun frac_digits :: "nat \<Rightarrow> nat \<Rightarrow> string \<Rightarrow> string \<times> nat" where
  "frac_digits 0 u acc = ((if acc = '''' then '''' else ''.'' @ acc), u)"
| "frac_digits (Suc prec) u acc =
     frac_digits prec (u div 10) (if u mod 10 = 0 \<and> acc = '''' then '''' else digit (u mod 10) # acc)"

definition fmtFrac :: "nat \<Rightarrow> nat \<Rightarrow> string \<times> nat" where
  "fmtFrac u prec = frac_digits prec u ''''"

text \<open>The micro sign in UTF-8.\<close>

definition micro :: string where
  "micro = [char_of (0xC2 :: nat), char_of (0xB5 :: nat)]"

definition fmt_unit :: "nat \<Rightarrow> nat \<Rightarrow> string \<Rightarrow> string" where
  "fmt_unit u prec unit = (case fmtFrac u prec of (fr, u) \<Rightarrow> show_nat u @ fr @ unit)"

definition Duration_String :: "int \<Rightarrow> string" where
  "Duration_String d =
     (let u = nat \<bar>d\<bar>;
          s = (if u < 1000000000
               then if u = 0 then ''0s''
                    else if u < 1000 then fmt_unit u 0 ''ns''
                    else if u < 1000000 then fmt_unit u 3 (micro @ ''s'')
                    else fmt_unit u 6 ''ms''
               else case fmtFrac u 9 of
                 (fr, sec) \<Rightarrow>
                   (if 0 < sec div 60
                    then (if 0 < sec div 3600 then show_nat (sec div 3600) @ ''h'' else '''')
                         @ show_nat (sec div 60 mod 60) @ ''m''
                    else '''')
                   @ show_nat (sec mod 60) @ fr @ ''s'')
      in if d < 0 then ''-'' @ s else s)"

section \<open>Numbers\<close>

text \<open>The verb \<^verbatim>\<open>%.nf\<close> for a number that is not negative: the nearest decimal with \<open>n\<close> places.\<close>

definition fmt_fixed :: "nat \<Rightarrow> rat \<Rightarrow> string" where
  "fmt_fixed n x =
     (let k = nat (rne (x * 10 ^ n)); fr = show_nat (k mod 10 ^ n)
      in show_nat (k div 10 ^ n) @ ''.'' @ replicate (n - length fr) (digit 0) @ fr)"

text \<open>\<^verbatim>\<open>int64(f)\<close> of a number that is not negative; on overflow the result of the conversion on amd64.\<close>

definition int64_of :: "rat \<Rightarrow> int" where
  "int64_of f = (if f < 2 ^ 63 then \<lfloor>f\<rfloor> else - (2 ^ 63))"

section \<open>The report\<close>

definition PrintReport :: "(int \<Rightarrow> string) \<Rightarrow> Report \<Rightarrow> string list" where
  "PrintReport humanize_Comma r =
     (let memoryUsedMB = rnd (rnd (of_nat (unat (MemoryUsed r))) / (1024 * 1024))
      in ['''', ''--- Benchmark Report ---'',
          ''Total Clients: '' @ show_int (TotalClients r),
          ''Messages per Client: '' @ show_int (MessagesPerClient r),
          ''Total Messages: '' @ show_int (TotalMessages r),
          ''Success Messages: '' @ show_int (SuccessMessages r),
          ''Failed Messages: '' @ show_int (FailedMessages r),
          ''Total Duration: '' @ Duration_String (TotalDuration r),
          ''Average Latency: '' @ Duration_String (AvgLatency r),
          ''P50 Latency: '' @ Duration_String (P50Latency r),
          ''P90 Latency: '' @ Duration_String (P90Latency r),
          ''P99 Latency: '' @ Duration_String (P99Latency r),
          ''Throughput: '' @ humanize_Comma (int64_of (Throughput r)) @ '' messages/second'',
          ''Memory Used: '' @ fmt_fixed 2 memoryUsedMB @ '' MB'',
          ''Latency Jitter (StdDev): '' @ fmt_fixed 6 (rnd (Jitter r * 1000000)) @ micro @ ''s'',
          ''''])"

section \<open>Lemmas\<close>

lemma frac_digits_numeral [simp]:
  "frac_digits (numeral k) u acc = frac_digits (pred_numeral k) (u div 10)
     (if u mod 10 = 0 \<and> acc = [] then [] else digit (u mod 10) # acc)"
  by (simp only: numeral_eq_Suc [of k] frac_digits.simps)

text \<open>The formats of \<^verbatim>\<open>time.Duration\<close> on durations of each range.\<close>

lemma duration_examples:
  "Duration_String 0 = ''0s''" "Duration_String 999 = ''999ns''" "Duration_String 1500000 = ''1.5ms''"
  "Duration_String 2000000000 = ''2s''" "Duration_String 3723040000000 = ''1h2m3.04s''"
  "Duration_String (- 60000000000) = ''-1m0s''"
  by (simp_all add: Duration_String_def fmtFrac_def fmt_unit_def show_nat.simps digit_def char_of_def bit_0)

end
