(* ===== verification/Certs.thy ===== *)
theory Certs
  imports Prelude
begin

text \<open>
  Certificates: \<^verbatim>\<open>src/certs/generator.go\<close>, \<^verbatim>\<open>src/certs/certbot.go\<close> and the commands of
  \<^verbatim>\<open>src/cmd/certs.go\<close>. Key generation, signing and the marshalling of keys are parameters; the
  PEM encoding of the standard library is modelled down to its base64 lines.
\<close>

section \<open>PEM\<close>

text \<open>The base64 alphabet and its inverse.\<close>

definition b64_char :: "nat \<Rightarrow> char" where
  "b64_char n = char_of (if n < 26 then 65 + n else if n < 52 then 71 + n
     else if n < 62 then n - 4 else if n = 62 then 43 else 47)"

definition b64_value :: "char \<Rightarrow> nat" where
  "b64_value c = (let n = of_char c in
     if n = 43 then 62 else if n = 47 then 63
     else if n < 58 then n + 4 else if n < 91 then n - 65 else n - 71)"

fun base64 :: "bytes \<Rightarrow> string" where
  "base64 (a # b # c # r) =
     map b64_char [unat a div 4, (unat a mod 4) * 16 + unat b div 16,
       (unat b mod 16) * 4 + unat c div 64, unat c mod 64] @ base64 r"
| "base64 [a, b] =
     map b64_char [unat a div 4, (unat a mod 4) * 16 + unat b div 16, (unat b mod 16) * 4] @ ''=''"
| "base64 [a] = map b64_char [unat a div 4, (unat a mod 4) * 16] @ ''==''"
| "base64 [] = ''''"

definition newline :: char where
  "newline = char_of (10 :: nat)"

text \<open>Lines of 64 characters, each with its line break.\<close>

fun pem_lines :: "string \<Rightarrow> string" where
  "pem_lines s = (if s = [] then [] else take 64 s @ [newline] @ pem_lines (drop 64 s))"

declare pem_lines.simps [simp del]

definition pem_begin :: "string \<Rightarrow> string" where
  "pem_begin type = ''-----BEGIN '' @ type @ ''-----'' @ [newline]"

definition pem_end :: "string \<Rightarrow> string" where
  "pem_end type = ''-----END '' @ type @ ''-----'' @ [newline]"

text \<open>\<^verbatim>\<open>pem.EncodeToMemory\<close> of a block without headers.\<close>

definition EncodeToMemory :: "string \<Rightarrow> bytes \<Rightarrow> bytes" where
  "EncodeToMemory type bs =
     bytes_of_string (pem_begin type @ pem_lines (base64 bs) @ pem_end type)"

section \<open>Generating certificates\<close>

definition KeyUsageDigitalSignature :: int where "KeyUsageDigitalSignature = 1"

definition KeyUsageKeyEncipherment :: int where "KeyUsageKeyEncipherment = 4"

definition ExtKeyUsageServerAuth :: int where "ExtKeyUsageServerAuth = 1"

text \<open>The fields of a certificate template that the code sets. Times are in nanoseconds.\<close>

record Certificate =
  SerialNumber :: int
  Organization :: "string list"
  NotBefore :: int
  NotAfter :: int
  KeyUsage :: int
  ExtKeyUsage :: "int list"
  BasicConstraintsValid :: bool

text \<open>The libraries: key generation, signing (template, parent, key) and marshalling.\<close>

record 'k crypto =
  GenerateKey :: "error + 'k"
  CreateCertificate :: "Certificate \<Rightarrow> Certificate \<Rightarrow> 'k \<Rightarrow> error + bytes"
  MarshalECPrivateKey :: "'k \<Rightarrow> error + bytes"

text \<open>The template; \<open>t1\<close> and \<open>t2\<close> are what the two calls of \<^verbatim>\<open>time.Now\<close> return.\<close>

definition cert_template :: "int \<Rightarrow> int \<Rightarrow> Certificate" where
  "cert_template t1 t2 =
     \<lparr>SerialNumber = 1, Organization = [''Example Organization''],
      NotBefore = t1, NotAfter = t2 + 365 * 24 * 3600000000000,
      KeyUsage = or KeyUsageKeyEncipherment KeyUsageDigitalSignature,
      ExtKeyUsage = [ExtKeyUsageServerAuth], BasicConstraintsValid = True\<rparr>"

definition GenerateSelfSignedCert :: "'k crypto \<Rightarrow> int \<Rightarrow> int \<Rightarrow> error + bytes \<times> 'k" where
  "GenerateSelfSignedCert cr t1 t2 =
     (case GenerateKey cr of
        Inl err \<Rightarrow> Inl err
      | Inr privKey \<Rightarrow>
         (let template = cert_template t1 t2
          in case CreateCertificate cr template template privKey of
               Inl err \<Rightarrow> Inl err
             | Inr certBytes \<Rightarrow> Inr (certBytes, privKey)))"

text \<open>The unexported copy of it, used by \<open>GenerateTLSConfig\<close> only.\<close>

definition generateSelfSignedCert :: "'k crypto \<Rightarrow> int \<Rightarrow> int \<Rightarrow> error + bytes \<times> 'k" where
  "generateSelfSignedCert cr t1 t2 =
     (case GenerateKey cr of
        Inl err \<Rightarrow> Inl err
      | Inr privKey \<Rightarrow>
         (let template = cert_template t1 t2
          in case CreateCertificate cr template template privKey of
               Inl err \<Rightarrow> Inl err
             | Inr certBytes \<Rightarrow> Inr (certBytes, privKey)))"

text \<open>The configuration: the certificates, each a chain with its key, and the protocols.\<close>

record 'k gen_tls_Config =
  gt_Certificates :: "(bytes list \<times> 'k) list"
  gt_NextProtos :: "string list"

definition GenerateTLSConfig :: "'k crypto \<Rightarrow> int \<Rightarrow> int \<Rightarrow> 'k gen_tls_Config go" where
  "GenerateTLSConfig cr t1 t2 =
     (case generateSelfSignedCert cr t1 t2 of
        Inl err \<Rightarrow> Panic (Error_text err)
      | Inr (cert, privKey) \<Rightarrow>
          Ret \<lparr>gt_Certificates = [([cert], privKey)], gt_NextProtos = [''quic-example'']\<rparr>)"

definition ExportPEM :: "'k crypto \<Rightarrow> bytes \<Rightarrow> 'k \<Rightarrow> error + bytes \<times> bytes" where
  "ExportPEM cr cert privKey =
     (let certPEM = EncodeToMemory ''CERTIFICATE'' cert
      in case MarshalECPrivateKey cr privKey of
           Inl err \<Rightarrow> Inl err
         | Inr privBytes \<Rightarrow> Inr (certPEM, EncodeToMemory ''EC PRIVATE KEY'' privBytes))"

section \<open>The certs commands\<close>

text \<open>
  Files with their permission bits. \<^verbatim>\<open>os.WriteFile\<close> creates a file with the given bits but keeps
  those of a file that exists. When it fails the file is left as \<open>wf_left\<close> says.
\<close>

type_synonym files = "string \<rightharpoonup> bytes \<times> nat"

record write_env =
  wf_err :: "string \<Rightarrow> error option"
  wf_left :: "string \<Rightarrow> (bytes \<times> nat) option"

definition WriteFile :: "write_env \<Rightarrow> string \<Rightarrow> bytes \<Rightarrow> nat \<Rightarrow> files \<Rightarrow> error option \<times> files" where
  "WriteFile we path bs perm fs =
     (case wf_err we path of
        Some err \<Rightarrow> (Some err, fs(path := wf_left we path))
      | None \<Rightarrow> (None, fs(path \<mapsto> (bs, case fs path of None \<Rightarrow> perm | Some (_, p) \<Rightarrow> p))))"

text \<open>The permission bits 0644 and 0600.\<close>

definition perm_0644 :: nat where "perm_0644 = 420"

definition perm_0600 :: nat where "perm_0600 = 384"

definition certs_local ::
    "'k crypto \<Rightarrow> write_env \<Rightarrow> int \<Rightarrow> int \<Rightarrow> string \<Rightarrow> string \<Rightarrow> files \<Rightarrow> error option \<times> files" where
  "certs_local cr we t1 t2 certOutput keyOutput fs =
     (case GenerateSelfSignedCert cr t1 t2 of
        Inl err \<Rightarrow> (Some (Wrapped ''failed to generate certificate'' err), fs)
      | Inr (cert, privKey) \<Rightarrow>
         (case ExportPEM cr cert privKey of
            Inl err \<Rightarrow> (Some (Wrapped ''failed to export certificate and key'' err), fs)
          | Inr (certPEM, keyPEM) \<Rightarrow>
             (case WriteFile we certOutput certPEM perm_0644 fs of
                (Some err, fs) \<Rightarrow> (Some (Wrapped ''failed to write certificate file'' err), fs)
              | (None, fs) \<Rightarrow>
                 (case WriteFile we keyOutput keyPEM perm_0600 fs of
                    (Some err, fs) \<Rightarrow> (Some (Wrapped ''failed to write private key file'' err), fs)
                  | (None, fs) \<Rightarrow> (None, fs)))))"

text \<open>
  The certbot commands run a program with these arguments; its output and whether it failed are
  given by \<open>run\<close>. The error keeps the output, not the error of the program.
\<close>

definition CertbotCreateCertificate ::
    "(string \<Rightarrow> string list \<Rightarrow> string \<times> error option) \<Rightarrow> string \<Rightarrow> string \<Rightarrow> error option" where
  "CertbotCreateCertificate run domain email =
     (case run ''certbot'' [''certonly'', ''--non-interactive'', ''--agree-tos'', ''--email'', email, ''-d'', domain] of
        (output, Some err) \<Rightarrow> Some (Errorf (''failed to create certificate: '' @ output))
      | (output, None) \<Rightarrow> None)"

definition CertbotRenewCertificate ::
    "(string \<Rightarrow> string list \<Rightarrow> string \<times> error option) \<Rightarrow> error option" where
  "CertbotRenewCertificate run =
     (case run ''certbot'' [''renew''] of
        (output, Some err) \<Rightarrow> Some (Errorf (''failed to renew certificate: '' @ output))
      | (output, None) \<Rightarrow> None)"

text \<open>The actions of the subcommands \<open>create\<close> and \<open>renew\<close>.\<close>

definition certs_create ::
    "(string \<Rightarrow> string list \<Rightarrow> string \<times> error option) \<Rightarrow> string \<Rightarrow> string \<Rightarrow> error option" where
  "certs_create run domain email = CertbotCreateCertificate run domain email"

definition certs_renew :: "(string \<Rightarrow> string list \<Rightarrow> string \<times> error option) \<Rightarrow> error option" where
  "certs_renew run = CertbotRenewCertificate run"

section \<open>Reading PEM back\<close>

text \<open>A reference decoder.\<close>

definition b64_join :: "nat \<Rightarrow> nat \<Rightarrow> nat \<Rightarrow> nat \<Rightarrow> bytes" where
  "b64_join x y z w =
     [word_of_nat (x * 4 + y div 16), word_of_nat ((y mod 16) * 16 + z div 4),
      word_of_nat ((z mod 4) * 64 + w)]"

fun base64_decode :: "string \<Rightarrow> bytes" where
  "base64_decode (p # q # r # s # cs) =
     (let bs = b64_join (b64_value p) (b64_value q) (b64_value r) (b64_value s)
      in if r = CHR ''='' then take 1 bs else if s = CHR ''='' then take 2 bs else bs @ base64_decode cs)"
| "base64_decode _ = []"

definition pem_decode :: "string \<Rightarrow> bytes \<Rightarrow> bytes" where
  "pem_decode type pem =
     (let s = map (\<lambda>b. char_of (unat b)) pem;
          body = take (length s - length (pem_end type)) s
      in base64_decode (filter (\<lambda>c. c \<noteq> newline) (drop (length (pem_begin type)) body)))"

lemma b64_value_char: "n < 64 \<Longrightarrow> b64_value (b64_char n) = n"
  by (auto simp: b64_value_def b64_char_def Let_def)

lemma b64_char_neq:
  assumes "n < 64"
  shows "b64_char n \<noteq> CHR ''=''" and "b64_char n \<noteq> newline"
proof -
  have "of_char (b64_char n) \<noteq> (61 :: nat)" "of_char (b64_char n) \<noteq> (10 :: nat)"
    using assms by (auto simp: b64_char_def)
  then show "b64_char n \<noteq> CHR ''=''" "b64_char n \<noteq> newline" by (auto simp: newline_def)
qed

text \<open>A byte as two parts of its bits.\<close>

lemma byte_bound: "unat (a :: byte) < 256"
  using unsigned_less [of a] by simp

lemma sextets:
  fixes a b c :: byte
  shows "unat a div 4 < 64 \<and> unat a mod 4 * 16 + unat b div 16 < 64 \<and>
    unat b mod 16 * 4 + unat c div 64 < 64 \<and> unat c mod 64 < 64 \<and> unat a mod 4 * 16 < 64 \<and>
    unat b mod 16 * 4 < 64"
proof -
  have "unat b div 16 < 16" "unat c div 64 < 4" "unat a div 4 < 64"
    using byte_bound [of a] byte_bound [of b] byte_bound [of c] by (simp_all add: less_mult_imp_div_less)
  moreover have "unat a mod 4 < 4" "unat b mod 16 < 16" "unat c mod 64 < 64" by simp_all
  ultimately show ?thesis by linarith
qed

lemma join_sextets:
  fixes a b c :: byte
  shows "b64_join (unat a div 4) (unat a mod 4 * 16 + unat b div 16) (unat b mod 16 * 4 + unat c div 64)
      (unat c mod 64) = [a, b, c]"
    and "take 2 (b64_join (unat a div 4) (unat a mod 4 * 16 + unat b div 16) (unat b mod 16 * 4) w) = [a, b]"
    and "take 1 (b64_join (unat a div 4) (unat a mod 4 * 16) z w) = [a]"
proof -
  have d: "unat b div 16 < 16" "unat c div 64 < 4"
    using byte_bound [of b] byte_bound [of c] by (simp_all add: less_mult_imp_div_less)
  have "unat a div 4 * 4 + (unat a mod 4 * 16 + unat b div 16) div 16 = unat a"
    "unat a div 4 * 4 + (unat a mod 4 * 16) div 16 = unat a"
    "(unat a mod 4 * 16 + unat b div 16) mod 16 * 16 + (unat b mod 16 * 4 + unat c div 64) div 4 = unat b"
    "(unat a mod 4 * 16 + unat b div 16) mod 16 * 16 + (unat b mod 16 * 4) div 4 = unat b"
    "(unat b mod 16 * 4 + unat c div 64) mod 4 * 64 + unat c mod 64 = unat c"
    using d by simp_all
  note eqs = this
  show "b64_join (unat a div 4) (unat a mod 4 * 16 + unat b div 16) (unat b mod 16 * 4 + unat c div 64)
      (unat c mod 64) = [a, b, c]"
    unfolding b64_join_def eqs by simp
  show "take 2 (b64_join (unat a div 4) (unat a mod 4 * 16 + unat b div 16) (unat b mod 16 * 4) w) = [a, b]"
    unfolding b64_join_def eqs by (simp add: numeral_2_eq_2)
  show "take 1 (b64_join (unat a div 4) (unat a mod 4 * 16) z w) = [a]"
    unfolding b64_join_def eqs by simp
qed

lemma base64_decode_base64: "base64_decode (base64 bs) = bs"
proof (induction bs rule: base64.induct)
  case (1 a b c r)
  then show ?case
    using sextets [of a b c] by (simp add: Let_def b64_char_neq b64_value_char join_sextets)
next
  case (2 a b)
  then show ?case
    using sextets [of a b 0] by (simp add: Let_def b64_char_neq b64_value_char join_sextets)
next
  case (3 a)
  then show ?case
    using sextets [of a 0 0] join_sextets(3) by (simp add: Let_def b64_value_char del: take_Cons_numeral)
qed simp

lemma newline_neq: "newline \<noteq> CHR ''=''"
proof
  assume "newline = CHR ''=''"
  then have "of_char newline = (of_char (CHR ''='') :: nat)" by (rule arg_cong)
  then show False by (simp add: newline_def)
qed

lemma base64_no_newline: "newline \<notin> set (base64 bs)"
proof (induction bs rule: base64.induct)
  case (1 a b c r)
  then show ?case using sextets [of a b c] by (simp add: b64_char_neq b64_char_neq [THEN not_sym])
next
  case (2 a b)
  then show ?case
    using sextets [of a b 0] by (simp add: b64_char_neq [THEN not_sym] newline_neq)
next
  case (3 a)
  then show ?case
    using sextets [of a 0 0] by (simp add: b64_char_neq [THEN not_sym] newline_neq)
qed simp

lemma filter_pem_lines: "newline \<notin> set s \<Longrightarrow> filter (\<lambda>c. c \<noteq> newline) (pem_lines s) = s"
proof (induction s rule: pem_lines.induct)
  case (1 s)
  show ?case
  proof (cases "s = []")
    case True
    then show ?thesis by (simp add: pem_lines.simps)
  next
    case False
    have "newline \<notin> set (take 64 s)" "newline \<notin> set (drop 64 s)"
      using 1(2) by (auto dest: in_set_takeD in_set_dropD)
    then have "filter (\<lambda>c. c \<noteq> newline) (take 64 s) = take 64 s"
      "filter (\<lambda>c. c \<noteq> newline) (pem_lines (drop 64 s)) = drop 64 s"
      using 1(1) [OF False] by (auto intro: filter_True)
    then show ?thesis using False by (subst pem_lines.simps) simp
  qed
qed

lemma string_of_bytes: "map (\<lambda>b. char_of (unat b)) (bytes_of_string s) = s"
proof -
  have "char_of (unat (word_of_nat (of_char c) :: byte)) = c" for c
    by (simp add: unat_of_nat of_char_mod_256)
  then show ?thesis by (simp add: bytes_of_string_def comp_def)
qed

lemma pem_decode_encode: "pem_decode type (EncodeToMemory type bs) = bs"
  by (simp add: pem_decode_def EncodeToMemory_def string_of_bytes filter_pem_lines base64_no_newline
      base64_decode_base64 Let_def)

section \<open>Properties\<close>


definition sample_crypto :: "unit crypto" where
  "sample_crypto = \<lparr>GenerateKey = Inr (), CreateCertificate = (\<lambda>_ _ _. Inr [1, 2, 3, 4]),
     MarshalECPrivateKey = (\<lambda>_. Inr [5, 6])\<rparr>"


text \<open>
  What the command \<open>certs local\<close> leaves on disk: after a success both files hold the PEM
  encodings of one key pair, and no other file changed. The key file is private, mode 0600, only
  if it did not exist before: an existing file keeps its mode. A failure before the files are
  written changes nothing, and a failure to write the key leaves the certificate file in place.
\<close>

theorem certs_local_effect:
  assumes "certs_local cr we t1 t2 c k fs = (r, fs')" and "c \<noteq> k"
  shows "(\<forall>f. f \<noteq> c \<longrightarrow> f \<noteq> k \<longrightarrow> fs' f = fs f) \<and>
    (r = None \<longrightarrow> (\<exists>cert privKey certPEM keyPEM.
       GenerateSelfSignedCert cr t1 t2 = Inr (cert, privKey) \<and>
       ExportPEM cr cert privKey = Inr (certPEM, keyPEM) \<and>
       fs' c = Some (certPEM, case fs c of None \<Rightarrow> perm_0644 | Some (_, p) \<Rightarrow> p) \<and>
       fs' k = Some (keyPEM, case fs k of None \<Rightarrow> perm_0600 | Some (_, p) \<Rightarrow> p))) \<and>
    (\<forall>err. r = Some (Wrapped ''failed to generate certificate'' err) \<or>
       r = Some (Wrapped ''failed to export certificate and key'' err) \<longrightarrow> fs' = fs) \<and>
    (\<forall>err. r = Some (Wrapped ''failed to write private key file'' err) \<longrightarrow>
       (\<exists>certPEM p. fs' c = Some (certPEM, p)))"
  using assms
  by (auto simp: certs_local_def WriteFile_def split: sum.splits prod.splits option.splits)

theorem certs_local_effect_witness:
  "\<exists>keyPEM. snd (certs_local sample_crypto \<lparr>wf_err = (\<lambda>_. None), wf_left = (\<lambda>_. None)\<rparr> 0 0
     ''cert.pem'' ''key.pem'' [''key.pem'' \<mapsto> ([], perm_0644)]) ''key.pem'' = Some (keyPEM, perm_0644)"
proof -
  let ?r = "certs_local sample_crypto \<lparr>wf_err = (\<lambda>_. None), wf_left = (\<lambda>_. None)\<rparr> 0 0
     ''cert.pem'' ''key.pem'' [''key.pem'' \<mapsto> ([], perm_0644)]"
  have "fst ?r = None"
    by (simp add: certs_local_def WriteFile_def GenerateSelfSignedCert_def ExportPEM_def sample_crypto_def Let_def)
  then have "?r = (None, snd ?r)" by (metis prod.collapse)
  from certs_local_effect [OF this] show ?thesis by auto
qed

text \<open>
  A server configuration is generated exactly when key generation and signing succeed, with the
  exported generator's certificate; otherwise the generator panics.
\<close>

lemma GenerateTLSConfig_iff:
  "GenerateTLSConfig cr t1 t2 = Ret cfg \<longleftrightarrow>
   (\<exists>cert privKey. GenerateSelfSignedCert cr t1 t2 = Inr (cert, privKey) \<and>
      cfg = \<lparr>gt_Certificates = [([cert], privKey)], gt_NextProtos = [''quic-example'']\<rparr>)"
proof -
  have "generateSelfSignedCert cr t1 t2 = GenerateSelfSignedCert cr t1 t2"
    by (simp add: generateSelfSignedCert_def GenerateSelfSignedCert_def)
  then show ?thesis by (auto simp: GenerateTLSConfig_def split: sum.splits)
qed

lemma cert_valid_for_a_year:
  "t1 \<le> t2 \<Longrightarrow> NotAfter (cert_template t1 t2) - NotBefore (cert_template t1 t2) \<ge> 365 * 86400 * 1000000000"
  by (simp add: cert_template_def)

end
