(* ===== verification/Ebpf.thy ===== *)
theory Ebpf
  imports Prelude
begin

text \<open>
  eBPF: the helpers of \<^verbatim>\<open>src/helpers/ebpf.go\<close>, the commands of \<^verbatim>\<open>src/cmd/ebpf.go\<close> and the empty
  handler of \<^verbatim>\<open>src/transports/ebf/handler_write.go\<close>. The cilium library, the network interfaces and
  the program \<open>ip\<close> are parameters.
\<close>

section \<open>Helpers\<close>

definition IfaceIndex :: "(string \<Rightarrow> error + int) \<Rightarrow> string \<Rightarrow> int go" where
  "IfaceIndex InterfaceByName iface =
     (case InterfaceByName iface of
        Inl err \<Rightarrow> Panic (''could not find interface '' @ iface @ '': '' @ Error_text err)
      | Inr i \<Rightarrow> Ret i)"

text \<open>
  \<^verbatim>\<open>FindStringSubmatch\<close> for the expression \<^verbatim>\<open>prog/xdp id (\d+)\<close>: the digits of the leftmost match,
  as many as there are.
\<close>

definition is_digit :: "char \<Rightarrow> bool" where
  "is_digit c \<longleftrightarrow> 48 \<le> (of_char c :: nat) \<and> (of_char c :: nat) \<le> 57"

definition xdp_literal :: string where
  "xdp_literal = ''prog/xdp id ''"

definition match_here :: "string \<Rightarrow> string option" where
  "match_here s =
     (if take (length xdp_literal) s = xdp_literal \<and> takeWhile is_digit (drop (length xdp_literal) s) \<noteq> []
      then Some (takeWhile is_digit (drop (length xdp_literal) s)) else None)"

fun find_prog_id :: "string \<Rightarrow> string option" where
  "find_prog_id [] = match_here []"
| "find_prog_id (c # s) =
     (case match_here (c # s) of Some d \<Rightarrow> Some d | None \<Rightarrow> find_prog_id s)"

text \<open>\<open>run\<close> gives the output of a program and its error.\<close>

definition IsXDPAttached ::
    "(string \<Rightarrow> string list \<Rightarrow> string \<times> error option) \<Rightarrow> string \<Rightarrow> bool \<times> string \<times> error option" where
  "IsXDPAttached run iface =
     (case run ''ip'' [''link'', ''show'', iface] of
        (_, Some err) \<Rightarrow> (False, '''', Some err)
      | (outputStr, None) \<Rightarrow>
         (if strings_Contains outputStr ''xdp''
          then case find_prog_id outputStr of
                 Some progID \<Rightarrow> (True, ''XDP program ID: '' @ progID, None)
               | None \<Rightarrow> (True, ''XDP program is attached, but no ID found.'', None)
          else (False, ''No XDP program attached.'', None)))"

section \<open>Commands\<close>

text \<open>
  The library as \<open>load\<close> uses it; \<open>'k\<close> is the state of the kernel. Closing a collection or a link
  changes it.
\<close>

record ('spec, 'coll, 'prog, 'link, 'k) ebpf_lib =
  eb_LoadCollectionSpec :: "string \<Rightarrow> error + 'spec"
  eb_NewCollection :: "'spec \<Rightarrow> 'k \<Rightarrow> (error + 'coll) \<times> 'k"
  eb_Programs :: "'coll \<Rightarrow> string \<Rightarrow> 'prog option"
  eb_InterfaceByName :: "string \<Rightarrow> error + int"
  eb_AttachXDP :: "'prog \<Rightarrow> int \<Rightarrow> 'k \<Rightarrow> (error + 'link) \<times> 'k"
  eb_Link_Close :: "'link \<Rightarrow> 'k \<Rightarrow> 'k"
  eb_Coll_Close :: "'coll \<Rightarrow> 'k \<Rightarrow> 'k"

text \<open>The action of \<open>load\<close>; the deferred calls close the link, then the collection.\<close>

definition ebpf_load ::
    "('spec, 'coll, 'prog, 'link, 'k) ebpf_lib \<Rightarrow> string \<Rightarrow> string \<Rightarrow> string \<Rightarrow> 'k \<Rightarrow> (error option \<times> 'k) go" where
  "ebpf_load lib iface objPath section k =
     (case eb_LoadCollectionSpec lib objPath of
        Inl err \<Rightarrow> Ret (Some (Wrapped ''failed to load eBPF object'' err), k)
      | Inr spec \<Rightarrow>
         (case eb_NewCollection lib spec k of
            (Inl err, k) \<Rightarrow> Ret (Some (Wrapped ''failed to load eBPF collection'' err), k)
          | (Inr coll, k) \<Rightarrow>
             (case eb_Programs lib coll section of
                None \<Rightarrow> Ret (Some (Errorf (''program section '' @ [CHR 0x27] @ section @ [CHR 0x27] @
                          '' not found in eBPF object'')), eb_Coll_Close lib coll k)
              | Some prog \<Rightarrow>
                  go_bind (IfaceIndex (eb_InterfaceByName lib) iface) (\<lambda>i.
                    case eb_AttachXDP lib prog i k of
                      (Inl err, k) \<Rightarrow>
                        Ret (Some (Wrapped (''failed to attach eBPF program to interface '' @ iface) err),
                             eb_Coll_Close lib coll k)
                    | (Inr l, k) \<Rightarrow> Ret (None, eb_Coll_Close lib coll (eb_Link_Close lib l k))))))"

text \<open>An interface, with the low bit of its flags saying whether it is up.\<close>

record Interface =
  if_Name :: string
  if_Index :: int
  if_MTU :: int
  if_HardwareAddr :: string
  if_Flags :: "32 word"
  if_Addrs :: "error + string list"

definition strings_Join :: "string list \<Rightarrow> string \<Rightarrow> string" where
  "strings_Join xs sep = (case xs of [] \<Rightarrow> [] | x # xs \<Rightarrow> foldl (\<lambda>acc y. acc @ sep @ y) x xs)"

text \<open>One pass of the loop of \<open>interfaces\<close>: the lines it prints.\<close>

definition show_interface :: "Interface \<Rightarrow> string list" where
  "show_interface iface =
     (let status = (if and (if_Flags iface) 1 \<noteq> 0 then ''up'' else ''down'')
      in case if_Addrs iface of
           Inl err \<Rightarrow> [''  Error getting addresses for '' @ if_Name iface @ '': '' @ Error_text err]
         | Inr ipList \<Rightarrow>
             [''Name: '' @ if_Name iface,
              ''   Index: '' @ show_int (if_Index iface),
              ''   MTU: '' @ show_int (if_MTU iface),
              ''   HardwareAddr: '' @ if_HardwareAddr iface,
              ''   Status: '' @ status,
              ''   IPs: '' @ strings_Join ipList '', '', ''''])"

definition ebpf_interfaces :: "error + Interface list \<Rightarrow> error option \<times> string list" where
  "ebpf_interfaces Interfaces =
     (case Interfaces of
        Inl err \<Rightarrow> (Some (Wrapped ''failed to list network interfaces'' err), [])
      | Inr ifaces \<Rightarrow> (None, ''Available network interfaces:'' # concat (map show_interface ifaces)))"

definition ebpf_status ::
    "(string \<Rightarrow> string list \<Rightarrow> string \<times> error option) \<Rightarrow> string \<Rightarrow> error option \<times> string list" where
  "ebpf_status run iface =
     (case IsXDPAttached run iface of
        (_, _, Some err) \<Rightarrow>
          (Some (Wrapped (''failed to check XDP status on interface '' @ iface) err), [])
      | (xdpAttached, info, None) \<Rightarrow>
         (None, if xdpAttached
                then [''An eBPF program is loaded on interface '' @ iface, info]
                else [''No eBPF program is loaded on interface '' @ iface]))"

section \<open>The handler\<close>

text \<open>The handler drops every frame, and its constructor drops the database.\<close>

datatype EbpfWriteHandler = EbpfWriteHandler

definition NewEbpfWriteHandler :: "'d \<Rightarrow> EbpfWriteHandler" where
  "NewEbpfWriteHandler db = EbpfWriteHandler"

definition EbpfWriteHandler_HandleMessage :: "EbpfWriteHandler \<Rightarrow> bytes \<Rightarrow> 'w \<Rightarrow> 'w" where
  "EbpfWriteHandler_HandleMessage rh frame w = w"

section \<open>Lemmas\<close>

lemma match_here_iff:
  "match_here s = Some d \<longleftrightarrow>
   (\<exists>r. s = xdp_literal @ d @ r \<and> d \<noteq> [] \<and> (\<forall>c \<in> set d. is_digit c) \<and> (r = [] \<or> \<not> is_digit (hd r)))"
proof
  assume m: "match_here s = Some d"
  let ?t = "drop (length xdp_literal) s"
  have d: "d = takeWhile is_digit ?t" "d \<noteq> []" and "take (length xdp_literal) s = xdp_literal"
    using m by (auto simp: match_here_def split: if_splits)
  then have "s = xdp_literal @ d @ dropWhile is_digit ?t"
    by (metis append_take_drop_id takeWhile_dropWhile_id)
  moreover have "\<forall>c \<in> set d. is_digit c" using d(1) by (metis set_takeWhileD)
  moreover have "dropWhile is_digit ?t = [] \<or> \<not> is_digit (hd (dropWhile is_digit ?t))"
    using hd_dropWhile by blast
  ultimately show "\<exists>r. s = xdp_literal @ d @ r \<and> d \<noteq> [] \<and> (\<forall>c \<in> set d. is_digit c) \<and>
      (r = [] \<or> \<not> is_digit (hd r))" using d(2) by blast
next
  assume "\<exists>r. s = xdp_literal @ d @ r \<and> d \<noteq> [] \<and> (\<forall>c \<in> set d. is_digit c) \<and> (r = [] \<or> \<not> is_digit (hd r))"
  then obtain r where r: "s = xdp_literal @ d @ r" "d \<noteq> []" "\<forall>c \<in> set d. is_digit c" "r = [] \<or> \<not> is_digit (hd r)"
    by blast
  have "takeWhile is_digit (d @ r) = d @ takeWhile is_digit r" using r(3) by (simp add: takeWhile_append2)
  also have "takeWhile is_digit r = []" using r(4) by (cases r) auto
  finally show "match_here s = Some d" using r(1,2) by (simp add: match_here_def)
qed

lemma find_prog_id_iff:
  "find_prog_id s = Some d \<longleftrightarrow>
   (\<exists>n \<le> length s. match_here (drop n s) = Some d \<and> (\<forall>k < n. match_here (drop k s) = None))"
proof (induction s)
  case Nil
  then show ?case by simp
next
  case (Cons c s)
  show ?case
  proof (cases "match_here (c # s)")
    case None
    have "(\<exists>n \<le> length (c # s). match_here (drop n (c # s)) = Some d \<and>
        (\<forall>k < n. match_here (drop k (c # s)) = None)) \<longleftrightarrow>
      (\<exists>n \<le> length s. match_here (drop n s) = Some d \<and> (\<forall>k < n. match_here (drop k s) = None))"
    proof
      assume "\<exists>n \<le> length (c # s). match_here (drop n (c # s)) = Some d \<and>
        (\<forall>k < n. match_here (drop k (c # s)) = None)"
      then obtain n where n: "n \<le> length (c # s)" "match_here (drop n (c # s)) = Some d"
        "\<forall>k < n. match_here (drop k (c # s)) = None" by blast
      then obtain n' where "n = Suc n'" using None by (cases n) auto
      then show "\<exists>n \<le> length s. match_here (drop n s) = Some d \<and> (\<forall>k < n. match_here (drop k s) = None)"
        using n by (intro exI [of _ n']) (auto dest: spec [of _ "Suc _"])
    next
      assume "\<exists>n \<le> length s. match_here (drop n s) = Some d \<and> (\<forall>k < n. match_here (drop k s) = None)"
      then obtain n where n: "n \<le> length s" "match_here (drop n s) = Some d"
        "\<forall>k < n. match_here (drop k s) = None" by blast
      have "match_here (drop k (c # s)) = None" if "k < Suc n" for k
        using that n(3) None by (cases k) auto
      then show "\<exists>n \<le> length (c # s). match_here (drop n (c # s)) = Some d \<and>
        (\<forall>k < n. match_here (drop k (c # s)) = None)"
        using n by (intro exI [of _ "Suc n"]) auto
    qed
    then show ?thesis using Cons.IH None by simp
  next
    case (Some e)
    then show ?thesis by (auto intro: exI [of _ 0] dest: spec [of _ 0])
  qed
qed

lemma match_contains_xdp:
  assumes "match_here (drop n s) = Some d"
  shows "strings_Contains s ''xdp''"
proof -
  obtain r where "drop n s = xdp_literal @ d @ r" using assms by (auto simp: match_here_iff)
  then have "s = (take n s @ ''prog/'') @ ''xdp'' @ ('' id '' @ d @ r)"
    using append_take_drop_id [of n s] by (simp add: xdp_literal_def)
  then show ?thesis unfolding strings_Contains_iff by blast
qed

section \<open>Properties\<close>

text \<open>
  The status of an interface is read off correctly: a program is reported exactly when the
  output of \<open>ip\<close> mentions \<open>xdp\<close>, and an identifier \<open>d\<close> is reported exactly when \<open>d\<close> is the
  maximal sequence of digits after the first occurrence of \<^verbatim>\<open>prog/xdp id\<close> that is followed by a
  digit.
\<close>

theorem xdp_status_correct:
  assumes "run ''ip'' [''link'', ''show'', iface] = (out, None)"
  shows "\<exists>attached info. IsXDPAttached run iface = (attached, info, None) \<and>
    (attached \<longleftrightarrow> (\<exists>p q. out = p @ ''xdp'' @ q)) \<and>
    (\<forall>d. info = ''XDP program ID: '' @ d \<longleftrightarrow>
       (\<exists>p r. out = p @ xdp_literal @ d @ r \<and> d \<noteq> [] \<and> (\<forall>c \<in> set d. is_digit c) \<and>
          (r = [] \<or> \<not> is_digit (hd r)) \<and> (\<forall>k < length p. match_here (drop k out) = None)))"
proof -
  have leftmost: "find_prog_id out = Some d \<longleftrightarrow>
     (\<exists>p r. out = p @ xdp_literal @ d @ r \<and> d \<noteq> [] \<and> (\<forall>c \<in> set d. is_digit c) \<and>
        (r = [] \<or> \<not> is_digit (hd r)) \<and> (\<forall>k < length p. match_here (drop k out) = None))" for d
  proof
    assume "find_prog_id out = Some d"
    then obtain n where n: "n \<le> length out" "match_here (drop n out) = Some d"
      "\<forall>k < n. match_here (drop k out) = None" unfolding find_prog_id_iff by blast
    then have "length (take n out) = n" "out = take n out @ drop n out" by simp_all
    then show "\<exists>p r. out = p @ xdp_literal @ d @ r \<and> d \<noteq> [] \<and> (\<forall>c \<in> set d. is_digit c) \<and>
        (r = [] \<or> \<not> is_digit (hd r)) \<and> (\<forall>k < length p. match_here (drop k out) = None)"
      using n(2,3) unfolding match_here_iff by metis
  next
    assume "\<exists>p r. out = p @ xdp_literal @ d @ r \<and> d \<noteq> [] \<and> (\<forall>c \<in> set d. is_digit c) \<and>
        (r = [] \<or> \<not> is_digit (hd r)) \<and> (\<forall>k < length p. match_here (drop k out) = None)"
    then obtain p r where p: "out = p @ xdp_literal @ d @ r" "d \<noteq> []" "\<forall>c \<in> set d. is_digit c"
      "r = [] \<or> \<not> is_digit (hd r)" "\<forall>k < length p. match_here (drop k out) = None" by blast
    then have "drop (length p) out = xdp_literal @ d @ r" "length p \<le> length out" by simp_all
    then show "find_prog_id out = Some d"
      unfolding find_prog_id_iff match_here_iff using p by blast
  qed
  have found: "find_prog_id out = Some d \<Longrightarrow> strings_Contains out ''xdp''" for d
    unfolding find_prog_id_iff using match_contains_xdp by blast
  show ?thesis
    using found unfolding leftmost [symmetric] strings_Contains_iff [symmetric]
    by (cases "find_prog_id out") (auto simp: IsXDPAttached_def assms)
qed

theorem xdp_status_correct_witness:
  "IsXDPAttached (\<lambda>_ _. (''2: eth0 xdp prog/xdp id 42 '', None)) ''eth0'' = (True, ''XDP program ID: 42'', None)"
proof -
  have m: "\<forall>k < 12. match_here (drop k ''2: eth0 xdp prog/xdp id 42 '') = None"
    by (auto simp: match_here_def xdp_literal_def numeral_eq_Suc less_Suc_eq)
  let ?out = "''2: eth0 xdp prog/xdp id 42 ''"
  have "\<exists>attached info. IsXDPAttached (\<lambda>_ _. (?out, None)) ''eth0'' = (attached, info, None) \<and>
    (attached \<longleftrightarrow> (\<exists>p q. ?out = p @ ''xdp'' @ q)) \<and>
    (\<forall>d. info = ''XDP program ID: '' @ d \<longleftrightarrow>
       (\<exists>p r. ?out = p @ xdp_literal @ d @ r \<and> d \<noteq> [] \<and> (\<forall>c \<in> set d. is_digit c) \<and>
          (r = [] \<or> \<not> is_digit (hd r)) \<and> (\<forall>k < length p. match_here (drop k ?out) = None)))"
    by (rule xdp_status_correct) (rule refl)
  then obtain attached info where r: "IsXDPAttached (\<lambda>_ _. (?out, None)) ''eth0'' = (attached, info, None)"
    "attached \<longleftrightarrow> (\<exists>p q. ?out = p @ ''xdp'' @ q)"
    "\<forall>d. info = ''XDP program ID: '' @ d \<longleftrightarrow>
       (\<exists>p r. ?out = p @ xdp_literal @ d @ r \<and> d \<noteq> [] \<and> (\<forall>c \<in> set d. is_digit c) \<and>
          (r = [] \<or> \<not> is_digit (hd r)) \<and> (\<forall>k < length p. match_here (drop k ?out) = None))"
    by (elim exE conjE)
  have "?out = ''2: eth0 xdp '' @ xdp_literal @ ''42'' @ '' ''" by (simp add: xdp_literal_def)
  moreover have "\<forall>c \<in> set ''42''. is_digit c" "\<not> is_digit (hd '' '')" by (simp_all add: is_digit_def)
  ultimately have "info = ''XDP program ID: '' @ ''42''"
    using m by (intro r(3) [rule_format, THEN iffD2] exI [of _ "''2: eth0 xdp ''"] exI [of _ "'' ''"] conjI)
      (simp_all del: append.simps)
  moreover have "attached" unfolding r(2) by (rule exI [of _ "''2: eth0 ''"]) simp
  ultimately show ?thesis using r(1) by simp
qed

text \<open>What the library documents: attaching, detaching by closing, and the collection.\<close>

definition ebpf_lib_ok ::
    "('spec, 'coll, 'prog, 'link, 'k) ebpf_lib \<Rightarrow> ('k \<Rightarrow> int \<rightharpoonup> 'prog) \<Rightarrow> bool" where
  "ebpf_lib_ok lib attached \<longleftrightarrow>
     (\<forall>spec k. attached (snd (eb_NewCollection lib spec k)) = attached k) \<and>
     (\<forall>coll k. attached (eb_Coll_Close lib coll k) = attached k) \<and>
     (\<forall>prog i k l k'. eb_AttachXDP lib prog i k = (Inr l, k') \<longrightarrow>
        attached k' = (attached k)(i \<mapsto> prog) \<and>
        attached (eb_Link_Close lib l k') = (attached k')(i := None))"

text \<open>
  The command \<open>ebpf load\<close> leaves nothing loaded: it closes the link before it returns, and
  closing a link detaches its program, so that after a reported success no program is attached to
  the interface.
\<close>

theorem ebpf_load_detaches:
  assumes "ebpf_lib_ok lib attached" and "ebpf_load lib iface objPath section k = Ret (None, k')"
  shows "\<exists>i. eb_InterfaceByName lib iface = Inr i \<and> attached k' = (attached k)(i := None)"
proof -
  obtain spec where sp: "eb_LoadCollectionSpec lib objPath = Inr spec"
    using assms(2) by (cases "eb_LoadCollectionSpec lib objPath") (simp_all add: ebpf_load_def)
  obtain x k1 where x: "eb_NewCollection lib spec k = (x, k1)" by (cases "eb_NewCollection lib spec k")
  obtain coll where coll: "x = Inr coll" using assms(2) by (cases x) (simp_all add: ebpf_load_def sp x)
  obtain prog where prog: "eb_Programs lib coll section = Some prog"
    using assms(2) by (cases "eb_Programs lib coll section") (simp_all add: ebpf_load_def sp x coll)
  obtain i where i: "eb_InterfaceByName lib iface = Inr i"
    using assms(2) by (cases "eb_InterfaceByName lib iface")
      (simp_all add: ebpf_load_def sp x coll prog IfaceIndex_def)
  obtain y k2 where y: "eb_AttachXDP lib prog i k1 = (y, k2)" by (cases "eb_AttachXDP lib prog i k1")
  obtain l where l: "y = Inr l"
    using assms(2) by (cases y) (simp_all add: ebpf_load_def sp x coll prog i y IfaceIndex_def)
  have k': "k' = eb_Coll_Close lib coll (eb_Link_Close lib l k2)"
    using assms(2) by (simp add: ebpf_load_def sp x coll prog i y l IfaceIndex_def)
  note s = x [unfolded coll] i y [unfolded l] k'
  have "attached (snd (eb_NewCollection lib spec k)) = attached k"
    using assms(1) unfolding ebpf_lib_ok_def by blast
  then have "attached k1 = attached k" by (simp add: s(1))
  moreover have "attached k2 = (attached k1)(i \<mapsto> prog)"
    "attached (eb_Link_Close lib l k2) = (attached k2)(i := None)"
    "attached k' = attached (eb_Link_Close lib l k2)"
    using assms(1) s(3,4) by (auto simp: ebpf_lib_ok_def)
  ultimately show ?thesis using s(2) by auto
qed

definition sample_ebpf :: "(unit, unit, unit, int, int \<rightharpoonup> unit) ebpf_lib" where
  "sample_ebpf =
     \<lparr>eb_LoadCollectionSpec = (\<lambda>_. Inr ()), eb_NewCollection = (\<lambda>_ k. (Inr (), k)), eb_Programs = (\<lambda>_ _. Some ()),
      eb_InterfaceByName = (\<lambda>_. Inr 2), eb_AttachXDP = (\<lambda>p i k. (Inr i, k(i \<mapsto> p))),
      eb_Link_Close = (\<lambda>l k. k(l := None)), eb_Coll_Close = (\<lambda>_ k. k)\<rparr>"

theorem ebpf_load_detaches_witness:
  "\<exists>k'. ebpf_load sample_ebpf ''eth0'' ''ebpf_program.o'' ''xdp'' (\<lambda>_. None) = Ret (None, k') \<and> k' 2 = None"
proof -
  have ok: "ebpf_lib_ok sample_ebpf (\<lambda>k. k)" by (simp add: ebpf_lib_ok_def sample_ebpf_def)
  have run: "ebpf_load sample_ebpf ''eth0'' ''ebpf_program.o'' ''xdp'' (\<lambda>_. None) = Ret (None, (\<lambda>_. None)(2 := None))"
    by (simp add: ebpf_load_def sample_ebpf_def IfaceIndex_def)
  show ?thesis using run ebpf_load_detaches [OF ok run] by simp
qed

end
