(* ===== verification/Cli.thy ===== *)
theory Cli
  imports Prelude
begin

text \<open>
  The command-line library, as far as the commands use it: a command declares its flags with
  their defaults, and an action asks for the value of a flag by name.
\<close>

datatype flag_value = FString string | FInt int | FStrings "string list"

type_synonym flags = "(string \<times> flag_value) list"

text \<open>A flag as a command declares it, and the names with the defaults.\<close>

record cli_Flag =
  flag_Name :: string
  flag_Usage :: string
  flag_Required :: bool
  flag_Value :: flag_value

definition flag_defaults :: "cli_Flag list \<Rightarrow> flags" where
  "flag_defaults fs = map (\<lambda>f. (flag_Name f, flag_Value f)) fs"

text \<open>A command, with its flags, the tag of its action if it has one, and its subcommands.\<close>

datatype 'act cli_Command =
  Command (cmd_Name: string) (cmd_Usage: string) (cmd_Flags: "cli_Flag list") (cmd_Action: "'act option")
    (cmd_Subcommands: "'act cli_Command list")

text \<open>The command a path of names leads to.\<close>

fun find_command :: "'act cli_Command list \<Rightarrow> string list \<Rightarrow> 'act cli_Command option" where
  "find_command cmds [] = None"
| "find_command cmds [name] = find (\<lambda>c. cmd_Name c = name) cmds"
| "find_command cmds (name # names) =
     (case find (\<lambda>c. cmd_Name c = name) cmds of
        None \<Rightarrow> None
      | Some c \<Rightarrow> find_command (cmd_Subcommands c) names)"

text \<open>The value given on the command line, or the default; nothing for a flag that is not declared.\<close>

definition flag_lookup :: "flags \<Rightarrow> flags \<Rightarrow> string \<Rightarrow> flag_value option" where
  "flag_lookup declared args name =
     (case map_of declared name of
        None \<Rightarrow> None
      | Some d \<Rightarrow> (case map_of args name of Some v \<Rightarrow> Some v | None \<Rightarrow> Some d))"

text \<open>\<^verbatim>\<open>c.String(name)\<close>, \<^verbatim>\<open>c.Int(name)\<close> and \<^verbatim>\<open>c.StringSlice(name)\<close>: the zero value for an unknown flag.\<close>

definition cli_String :: "flags \<Rightarrow> flags \<Rightarrow> string \<Rightarrow> string" where
  "cli_String declared args name =
     (case flag_lookup declared args name of Some (FString s) \<Rightarrow> s | _ \<Rightarrow> [])"

definition cli_Int :: "flags \<Rightarrow> flags \<Rightarrow> string \<Rightarrow> int" where
  "cli_Int declared args name =
     (case flag_lookup declared args name of Some (FInt i) \<Rightarrow> i | _ \<Rightarrow> 0)"

definition cli_StringSlice :: "flags \<Rightarrow> flags \<Rightarrow> string \<Rightarrow> string list" where
  "cli_StringSlice declared args name =
     (case flag_lookup declared args name of Some (FStrings ss) \<Rightarrow> ss | _ \<Rightarrow> [])"

lemmas cli_defs = flag_lookup_def cli_String_def cli_Int_def cli_StringSlice_def

end
