(* ===== verification/Commands.thy ===== *)
theory Commands
  imports Suite_Manager Certs Ebpf Cli
begin

text \<open>
  The commands of the program: \<^verbatim>\<open>src/cmd/serve.go\<close>, \<^verbatim>\<open>src/cmd/benchmark.go\<close>, \<^verbatim>\<open>src/cmd/signaling.go\<close> and
  \<^verbatim>\<open>src/entrypoint/main.go\<close>, with the flags of the commands in \<^verbatim>\<open>src/cmd/certs.go\<close> and
  \<^verbatim>\<open>src/cmd/ebpf.go\<close>, whose actions are in the theories \<open>Certs\<close> and \<open>Ebpf\<close>.
\<close>

section \<open>serve\<close>

definition serve_Flags :: "cli_Flag list" where
  "serve_Flags =
     [\<lparr>flag_Name = ''config'', flag_Usage = ''Path where benchmark configuration can be found'', flag_Required = False, flag_Value = FString ''./config.yaml''\<rparr>,
      \<lparr>flag_Name = ''transports'', flag_Usage = ''Specify the transport types'', flag_Required = False, flag_Value = FStrings [''quic'', ''uds'', ''tcp'', ''udp'']\<rparr>]"

abbreviation serve_flags :: flags where
  "serve_flags \<equiv> flag_defaults serve_Flags"

text \<open>The loop over the named transports: an unknown name is returned with its error.\<close>

fun parse_transports :: "string list \<Rightarrow> string \<times> error + TransportType list" where
  "parse_transports [] = Inr []"
| "parse_transports (t # ts) =
     (case ParseTransportType t of
        (_, Some ttErr) \<Rightarrow> Inl (t, ttErr)
      | (tt, None) \<Rightarrow>
         (case parse_transports ts of Inl e \<Rightarrow> Inl e | Inr tts \<Rightarrow> Inr (tt # tts)))"

text \<open>The configuration as a command loads it: the file system and the YAML library.\<close>

record load_env =
  ld_ReadFile :: "string \<Rightarrow> error + bytes"
  ld_Unmarshal :: "bytes \<Rightarrow> error + Config"

text \<open>
  The action of \<open>serve\<close>. The deferred \<open>Stop\<close> runs when \<open>Start\<close> returns; its error is dropped.
\<close>

definition serve_action ::
    "load_env \<Rightarrow> ('e, 't, 'c) new_env \<Rightarrow> ('c, 'l) start_env \<Rightarrow> ('g, 'l) stop_env \<Rightarrow> flags \<Rightarrow>
     (error option \<times> ('e, 't, 'g, 'c, 'l) FDB option) go" where
  "serve_action ld ne se sp args =
     (let configPath = cli_String serve_flags args ''config''
      in case LoadConfig (ld_ReadFile ld) (ld_Unmarshal ld) configPath of
           Inl err \<Rightarrow> Ret (Some (Wrapped ''failed to load configuration'' err), None)
         | Inr cfg \<Rightarrow>
             go_bind (New ne cfg) (\<lambda>r.
               case r of
                 Inl err \<Rightarrow> Ret (Some (Wrapped ''failed to initialize FDB'' err), None)
               | Inr fdbc \<Rightarrow>
                  (case parse_transports (cli_StringSlice serve_flags args ''transports'') of
                     Inl (t, ttErr) \<Rightarrow>
                       Ret (Some (Wrapped (''invalid transport type: '' @ t) ttErr), Some fdbc)
                   | Inr transports \<Rightarrow>
                       go_bind (FDB_Start se fdbc transports) (\<lambda>(err, fdbc).
                         go_bind (FDB_Stop sp fdbc transports) (\<lambda>(_, fdbc).
                           Ret (Some err, Some fdbc))))))"

section \<open>benchmark\<close>

definition benchmark_Flags :: "cli_Flag list" where
  "benchmark_Flags =
     [\<lparr>flag_Name = ''config'', flag_Usage = ''Path where benchmark configuration can be found'', flag_Required = False, flag_Value = FString ''./benchmark.yaml''\<rparr>,
      \<lparr>flag_Name = ''suite'', flag_Usage = ''Specify the suite type (e.g., quic, dummy)'', flag_Required = False, flag_Value = FString ''dummy''\<rparr>,
      \<lparr>flag_Name = ''type'', flag_Usage = ''Specify the benchmark type (e.g., write, read)'', flag_Required = False, flag_Value = FString ''write''\<rparr>,
      \<lparr>flag_Name = ''clients'', flag_Usage = ''Number of clients to simulate'', flag_Required = False, flag_Value = FInt 10\<rparr>,
      \<lparr>flag_Name = ''messages'', flag_Usage = ''Number of messages per client'', flag_Required = False, flag_Value = FInt 100000\<rparr>,
      \<lparr>flag_Name = ''output'', flag_Usage = ''Path to save the JSON report (optional)'', flag_Required = False, flag_Value = FString ''''\<rparr>,
      \<lparr>flag_Name = ''timeout'', flag_Usage = ''Specify the timeout for the benchmark in seconds'', flag_Required = False, flag_Value = FInt 60\<rparr>]"

abbreviation benchmark_flags :: flags where
  "benchmark_flags \<equiv> flag_defaults benchmark_Flags"

text \<open>
  \<open>ExportToJSON\<close>, with the outcome of creating the file and of encoding the report.
\<close>

definition ExportToJSON ::
    "(string \<Rightarrow> error option) \<Rightarrow> (Report \<Rightarrow> error option) \<Rightarrow> Report \<Rightarrow> string \<Rightarrow> error option" where
  "ExportToJSON os_Create Encode_json r filename =
     (case os_Create filename of
        Some err \<Rightarrow> Some (Wrapped ''failed to create report file'' err)
      | None \<Rightarrow>
         (case Encode_json r of
            Some err \<Rightarrow> Some (Wrapped ''failed to write JSON report'' err)
          | None \<Rightarrow> None))"

text \<open>
  What an interrupt does: the goroutine that \<open>handleBenchmarkSignals\<close> launches stops the suite it
  was given and exits the process with status 1.
\<close>

definition handle_interrupt ::
    "('g, 'l) stop_env \<Rightarrow> ('e, 't, 'g, 'c, 'l) FDB \<Rightarrow> SuiteManager \<Rightarrow> SuiteType \<Rightarrow>
     (nat \<times> ('e, 't, 'g, 'c, 'l) FDB) go" where
  "handle_interrupt sp fdb suiteManager suiteType =
     go_bind (SuiteManager_Stop sp fdb suiteManager suiteType) (\<lambda>(_, fdb). Ret (1, fdb))"

text \<open>The suite type the action hands to the signal handler.\<close>

definition interrupt_suite :: "flags \<Rightarrow> SuiteType" where
  "interrupt_suite args = cli_String benchmark_flags args ''suite-type''"

text \<open>
  What a benchmark meets: the network and the schedule of its run (with the deadline of the
  context as one of its events), and the outcome of the export.
\<close>

record 'k bench_env =
  be_ops :: "'k netops"
  be_net :: 'k
  be_run :: run_env
  be_Create :: "string \<Rightarrow> error option"
  be_Encode :: "Report \<Rightarrow> error option"

text \<open>The part of the action after the deferred \<open>Stop\<close> is set up: run, print, export.\<close>

definition benchmark_body ::
    "'k bench_env \<Rightarrow> ('e, 't, 'g, 'c, 'l) FDB \<Rightarrow> SuiteManager \<Rightarrow> flags \<Rightarrow>
     (error option \<times> Report \<times> SuiteManager) go" where
  "benchmark_body be fdb sm args =
     (let suiteType = cli_String benchmark_flags args ''suite'';
          benchmarkType = cli_String benchmark_flags args ''type'';
          totalClients = cli_Int benchmark_flags args ''clients'';
          messagesPerClient = cli_Int benchmark_flags args ''messages'';
          export = (\<lambda>report sm.
            let outputPath = cli_String benchmark_flags args ''output''
            in if outputPath \<noteq> ''''
               then case ExportToJSON (be_Create be) (be_Encode be) report outputPath of
                      Some err \<Rightarrow> Ret (Some (Wrapped ''failed to export report'' err), report, sm)
                    | None \<Rightarrow> Ret (None, report, sm)
               else Ret (None, report, sm))
      in if benchmarkType = ''write''
         then go_bind (SuiteManager_RunWriteBenchmark (be_ops be) fdb sm suiteType (be_run be) (be_net be)
                 totalClients messagesPerClient NewReport) (\<lambda>(r, report, sm, net).
                case r of
                  Some rErr \<Rightarrow> Ret (Some (Wrapped ''failed to run write benchmark'' rErr), report, sm)
                | None \<Rightarrow> export report sm)
         else if benchmarkType = ''read''
         then go_bind (SuiteManager_RunReadBenchmark (be_ops be) fdb sm suiteType (be_run be) (be_net be)
                 totalClients messagesPerClient NewReport) (\<lambda>(r, report, sm, net).
                case r of
                  Some rErr \<Rightarrow> Ret (Some (Wrapped ''failed to run read benchmark'' rErr), report, sm)
                | None \<Rightarrow> export report sm)
         else Ret (Some (Errorf (''invalid benchmark type: '' @ benchmarkType)), NewReport, sm))"

definition benchmark_action ::
    "load_env \<Rightarrow> ('e, 't, 'c) new_env \<Rightarrow> ('c, 'l) start_env \<Rightarrow> ('g, 'l) stop_env \<Rightarrow> 'k bench_env \<Rightarrow> flags \<Rightarrow>
     (error option \<times> Report option \<times> ('e, 't, 'g, 'c, 'l) FDB option) go" where
  "benchmark_action ld ne se sp be args =
     (let configPath = cli_String benchmark_flags args ''config''
      in case LoadConfig (ld_ReadFile ld) (ld_Unmarshal ld) configPath of
           Inl err \<Rightarrow> Ret (Some (Wrapped ''failed to load configuration'' err), None, None)
         | Inr cfg \<Rightarrow>
             go_bind (New ne cfg) (\<lambda>r.
               case r of
                 Inl err \<Rightarrow> Ret (Some (Wrapped ''failed to initialize FDB'' err), None, None)
               | Inr fdbc \<Rightarrow>
                   let suiteType = cli_String benchmark_flags args ''suite''
                   in go_bind (SuiteManager_Start se fdbc NewSuiteManager suiteType) (\<lambda>(r, fdbc, sm).
                        case r of
                          Some err \<Rightarrow> Ret (Some (Wrapped ''failed to start suite'' err), None, Some fdbc)
                        | None \<Rightarrow>
                            go_bind (benchmark_body be fdbc sm args) (\<lambda>(r, report, sm).
                              go_bind (SuiteManager_Stop sp fdbc sm suiteType) (\<lambda>(_, fdbc).
                                Ret (r, Some report, Some fdbc))))))"

section \<open>certs and ebpf\<close>

text \<open>The flags of these commands; \<open>domain\<close>, \<open>email\<close> and \<open>interface\<close> are required and have no default.\<close>

definition certs_create_Flags :: "cli_Flag list" where
  "certs_create_Flags =
     [\<lparr>flag_Name = ''domain'', flag_Usage = ''Domain name for the certificate'', flag_Required = True, flag_Value = FString ''''\<rparr>,
      \<lparr>flag_Name = ''email'', flag_Usage = ''Email for Let'' @ CHR 0x27 # ''s Encrypt notifications'', flag_Required = True, flag_Value = FString ''''\<rparr>]"

abbreviation certs_create_flags :: flags where
  "certs_create_flags \<equiv> flag_defaults certs_create_Flags"

definition certs_local_Flags :: "cli_Flag list" where
  "certs_local_Flags =
     [\<lparr>flag_Name = ''cert'', flag_Usage = ''Path to save the certificate PEM file'', flag_Required = False, flag_Value = FString ''cert.pem''\<rparr>,
      \<lparr>flag_Name = ''key'', flag_Usage = ''Path to save the private key PEM file'', flag_Required = False, flag_Value = FString ''key.pem''\<rparr>]"

abbreviation certs_local_flags :: flags where
  "certs_local_flags \<equiv> flag_defaults certs_local_Flags"

definition ebpf_load_Flags :: "cli_Flag list" where
  "ebpf_load_Flags =
     [\<lparr>flag_Name = ''interface'', flag_Usage = ''Network interface to attach the eBPF program to (e.g., eth0)'', flag_Required = True, flag_Value = FString ''''\<rparr>,
      \<lparr>flag_Name = ''obj'', flag_Usage = ''Path to the compiled eBPF object file'', flag_Required = False, flag_Value = FString ''c/obj/ebpf_program.o''\<rparr>,
      \<lparr>flag_Name = ''section'', flag_Usage = ''eBPF section to load (e.g., xdp)'', flag_Required = False, flag_Value = FString ''xdp''\<rparr>]"

abbreviation ebpf_load_flags :: flags where
  "ebpf_load_flags \<equiv> flag_defaults ebpf_load_Flags"

definition ebpf_status_Flags :: "cli_Flag list" where
  "ebpf_status_Flags =
     [\<lparr>flag_Name = ''interface'', flag_Usage = ''Network interface to check (e.g., eth0)'', flag_Required = True, flag_Value = FString ''''\<rparr>]"

abbreviation ebpf_status_flags :: flags where
  "ebpf_status_flags \<equiv> flag_defaults ebpf_status_Flags"

text \<open>The actions with the values of their flags.\<close>

definition certs_create_action ::
    "(string \<Rightarrow> string list \<Rightarrow> string \<times> error option) \<Rightarrow> flags \<Rightarrow> error option" where
  "certs_create_action run args =
     certs_create run (cli_String certs_create_flags args ''domain'') (cli_String certs_create_flags args ''email'')"

definition certs_local_action ::
    "'k crypto \<Rightarrow> write_env \<Rightarrow> int \<Rightarrow> int \<Rightarrow> flags \<Rightarrow> files \<Rightarrow> error option \<times> files" where
  "certs_local_action cr we t1 t2 args fs =
     certs_local cr we t1 t2 (cli_String certs_local_flags args ''cert'')
       (cli_String certs_local_flags args ''key'') fs"

definition ebpf_load_action ::
    "('spec, 'coll, 'prog, 'link, 'k) ebpf_lib \<Rightarrow> flags \<Rightarrow> 'k \<Rightarrow> (error option \<times> 'k) go" where
  "ebpf_load_action lib args k =
     ebpf_load lib (cli_String ebpf_load_flags args ''interface'') (cli_String ebpf_load_flags args ''obj'')
       (cli_String ebpf_load_flags args ''section'') k"

section \<open>The program\<close>

text \<open>The command tree; an action is named by the definition that models it.\<close>

datatype command_action =
  ActCertsCreate | ActCertsRenew | ActCertsLocal | ActBenchmark | ActEbpfLoad | ActEbpfInterfaces | ActEbpfStatus | ActServe

type_synonym command = "command_action cli_Command"

definition CertsCommand :: command where
  "CertsCommand = Command ''certs'' ''Manage SSL certificates'' [] None
     [Command ''create'' ''Create a new certificate'' certs_create_Flags (Some ActCertsCreate) [],
      Command ''renew'' ''Renew existing certificates'' [] (Some ActCertsRenew) [],
      Command ''local'' ''Generate self-signed certificates for testing purposes'' certs_local_Flags (Some ActCertsLocal) []]"

definition BenchmarkCommand :: command where
  "BenchmarkCommand = Command ''benchmark'' ''Run benchmark tests on different transport protocols''
     benchmark_Flags (Some ActBenchmark) []"

definition EbpfCommands :: command where
  "EbpfCommands = Command ''ebpf'' ''Manage eBPF programs'' [] None
     [Command ''load'' ''Load an eBPF program onto a network interface using Cilium'' ebpf_load_Flags (Some ActEbpfLoad) [],
      Command ''interfaces'' ''List all available network interfaces and their essential details'' []
        (Some ActEbpfInterfaces) [],
      Command ''status'' ''Verify if an eBPF program is loaded on a specific interface'' ebpf_status_Flags
        (Some ActEbpfStatus) []]"

definition ServeCommand :: command where
  "ServeCommand = Command ''serve'' ''Start (f)db transport server'' serve_Flags (Some ActServe) []"

definition app_Commands :: "command list" where
  "app_Commands = [CertsCommand, BenchmarkCommand, EbpfCommands, ServeCommand]"

text \<open>\<open>main\<close>: the exit status and what is logged; running the application is the library's.\<close>

definition main_exit :: "(command list \<Rightarrow> string list \<Rightarrow> error option) \<Rightarrow> string list \<Rightarrow> nat \<times> string" where
  "main_exit app_Run args =
     (case app_Run app_Commands args of
        Some err \<Rightarrow> (1, ''Error running CLI: '' @ Error_text err)
      | None \<Rightarrow> (0, ''''))"

text \<open>No two commands or flags of the same level share a name, so that a name finds what it was declared for.\<close>

lemma commands_unambiguous:
  "distinct (map cmd_Name app_Commands)"
  "\<forall>c \<in> set app_Commands. distinct (map cmd_Name (cmd_Subcommands c)) \<and> distinct (map flag_Name (cmd_Flags c)) \<and>
     find_command app_Commands [cmd_Name c] = Some c \<and>
     (\<forall>s \<in> set (cmd_Subcommands c). distinct (map flag_Name (cmd_Flags s)) \<and>
        find_command app_Commands [cmd_Name c, cmd_Name s] = Some s)"
  by (simp_all add: app_Commands_def CertsCommand_def BenchmarkCommand_def EbpfCommands_def ServeCommand_def
      certs_create_Flags_def certs_local_Flags_def ebpf_load_Flags_def ebpf_status_Flags_def benchmark_Flags_def
      serve_Flags_def)

section \<open>Lemmas\<close>

lemma QuicSuite_Start_pool: "QuicSuite_Start se fdb x = Ret (r, fdb', x') \<Longrightarrow> st_pool x' = st_pool x"
  unfolding QuicSuite_Start_def Let_def
  by (auto elim!: go_bind_RetE split: sum.split_asm AnyTransport.split_asm option.split_asm)

lemma DummySuite_Start_pool: "DummySuite_Start se fdb x = Ret (r, fdb', x') \<Longrightarrow> st_pool x' = st_pool x"
  unfolding DummySuite_Start_def Let_def
  by (auto elim!: go_bind_RetE split: sum.split_asm AnyTransport.split_asm option.split_asm)

lemma UdsSuite_Start_pool: "UdsSuite_Start se fdb x = Ret (r, fdb', x') \<Longrightarrow> st_pool x' = st_pool x"
  unfolding UdsSuite_Start_def Let_def
  by (auto elim!: go_bind_RetE split: sum.split_asm AnyTransport.split_asm option.split_asm)

lemma TcpSuite_Start_pool: "TcpSuite_Start se fdb x = Ret (r, fdb', x') \<Longrightarrow> st_pool x' = st_pool x"
  unfolding TcpSuite_Start_def Let_def
  by (auto elim!: go_bind_RetE split: sum.split_asm AnyTransport.split_asm option.split_asm)

lemma UdpSuite_Start_pool: "UdpSuite_Start se fdb x = Ret (r, fdb', x') \<Longrightarrow> st_pool x' = st_pool x"
  unfolding UdpSuite_Start_def Let_def
  by (auto elim!: go_bind_RetE split: sum.split_asm AnyTransport.split_asm option.split_asm)

lemmas start_pool = QuicSuite_Start_pool DummySuite_Start_pool UdsSuite_Start_pool TcpSuite_Start_pool UdpSuite_Start_pool

lemma suite_Start_pool:
  assumes "Suite_Start se fdb su = Ret (r, fdb', su')"
  shows "st_pool (suite_base su') = st_pool (suite_base su)"
  using assms by (cases su) (auto elim!: go_bind_RetE dest: start_pool)

lemma SuiteManager_Start_ok:
  assumes "SuiteManager_Start se fdb sm ty = Ret (r, fdb', sm')" and "sm_ok sm"
  shows "sm_ok sm'" and "dom (map_of (sm_Suites sm')) = dom (map_of (sm_Suites sm))"
proof -
  have "sm_ok sm' \<and> dom (map_of (sm_Suites sm')) = dom (map_of (sm_Suites sm))"
  proof (cases "map_of (sm_Suites sm) ty")
    case None
    then show ?thesis using assms by (auto simp: SuiteManager_Start_def)
  next
    case (Some su)
    obtain su' where su': "Suite_Start se fdb su = Ret (r, fdb', su')" "sm' = RegisterSuite sm ty su'"
      using assms(1) Some by (auto simp: SuiteManager_Start_def go_bind_Ret_iff)
    have "suite_ok su'" using suite_Start_pool [OF su'(1)] sm_okD [OF assms(2) Some] by (simp add: suite_ok_def)
    then have "sm_ok sm'" using sm_ok_RegisterSuite [OF assms(2)] su'(2) by simp
    moreover have "dom (map_of (sm_Suites sm')) = dom (map_of (sm_Suites sm))"
      using Some by (auto simp: su'(2) RegisterSuite_def)
    ultimately show ?thesis by blast
  qed
  then show "sm_ok sm'" "dom (map_of (sm_Suites sm')) = dom (map_of (sm_Suites sm))" by blast+
qed

lemma NewSuiteManager_dom:
  "dom (map_of (sm_Suites NewSuiteManager)) = {''quic'', ''dummy'', ''uds'', ''tcp'', ''udp''}"
  by (auto simp: NewSuiteManager_def RegisterSuite_def Let_def suite_types split: if_splits)

lemma benchmark_body_ok:
  assumes "benchmark_body be fdb sm args = Ret (None, report, sm')" and "sm_ok sm"
    and "0 \<le> cli_Int benchmark_flags args ''clients''" and "0 \<le> cli_Int benchmark_flags args ''messages''"
    and "cli_Int benchmark_flags args ''clients'' * cli_Int benchmark_flags args ''messages'' < 2 ^ 63"
  shows "cli_String benchmark_flags args ''suite'' \<in> dom (map_of (sm_Suites sm)) \<and>
    cli_String benchmark_flags args ''type'' \<in> {''write'', ''read''} \<and>
    SuccessMessages report =
      cli_Int benchmark_flags args ''clients'' * cli_Int benchmark_flags args ''messages'' \<and>
    FailedMessages report = 0 \<and>
    (cli_String benchmark_flags args ''output'' \<noteq> '''' \<longrightarrow>
       be_Create be (cli_String benchmark_flags args ''output'') = None \<and> be_Encode be report = None)"
proof -
  let ?n = "cli_Int benchmark_flags args ''clients''" and ?m = "cli_Int benchmark_flags args ''messages''"
  let ?ty = "cli_String benchmark_flags args ''suite''" and ?w = "cli_String benchmark_flags args ''type'' = ''write''"
  have kind: "cli_String benchmark_flags args ''type'' \<in> {''write'', ''read''}"
    using assms(1) by (auto simp: benchmark_body_def Let_def split: if_splits)
  obtain sm1 net where run: "sm_run ?w (be_ops be) fdb sm ?ty (be_run be) (be_net be) ?n ?m NewReport =
      Ret (None, report, sm1, net)"
    and out: "cli_String benchmark_flags args ''output'' \<noteq> '''' \<longrightarrow>
      be_Create be (cli_String benchmark_flags args ''output'') = None \<and> be_Encode be report = None"
    using assms(1) kind
    by (auto simp: benchmark_body_def sm_run_def ExportToJSON_def Let_def go_bind_Ret_iff
        split: if_splits option.split_asm)
  obtain su where su: "map_of (sm_Suites sm) ?ty = Some su"
    using run by (cases "map_of (sm_Suites sm) ?ty") (auto simp: sm_run_unknown)
  obtain b where "suite_run (be_ops be) fdb su (be_run be) (be_net be) ?n ?m NewReport ?w = Ret (None, report, b)"
    using sm_run_ok [OF assms(2) su run] by metis
  from suiteg.totals(1,2) [OF sm_okD [OF assms(2) su, unfolded suite_ok_def] this [unfolded suite_run_def suite_init_def]]
  show ?thesis using kind out su assms(3-5) by (simp add: wrap64_id domI)
qed

lemma FDB_Start_refused:
  assumes "GetDb (fdb_dbManager fdb) ''fdb'' = Inl e \<or> GetPprofByServiceTag (fdb_config fdb) ''fdb'' = Inl e"
  shows "\<exists>err. FDB_Start se fdb transports = Ret (err, fdb)"
  using assms by (auto simp: FDB_Start_def split: sum.splits)

lemma serve_never_nil:
  assumes "serve_action ld ne se sp args = Ret (r, fdb)"
  shows "r \<noteq> None"
proof -
  show ?thesis
    using assms unfolding serve_action_def Let_def
    by (auto elim!: go_bind_RetE split: sum.split_asm prod.split_asm)
qed

section \<open>A concrete command line\<close>

text \<open>The configuration of a TCP benchmark: a node for its database, and the two transports.\<close>

definition bench_node :: MdbxNode where
  "bench_node = sample_node\<lparr>node_Name := ''benchmark''\<rparr>"

definition bench_config :: Config where
  "bench_config = sample_config\<lparr>cfg_Mdbx := \<lparr>mdbx_Enabled = True, mdbx_Nodes = [bench_node]\<rparr>\<rparr>"

definition bench_load :: "Config \<Rightarrow> load_env" where
  "bench_load cfg = \<lparr>ld_ReadFile = (\<lambda>_. Inr []), ld_Unmarshal = (\<lambda>_. Inr cfg)\<rparr>"

definition bench_fdb :: "(mem_store, mem_store, unit, unit, unit) FDB" where
  "bench_fdb = sample_fdb\<lparr>fdb_config := bench_config, fdb_dbManager :=
     \<lparr>dm_opts = cfg_Mdbx bench_config, dm_dbs = [(''benchmark'', (mem_db None [])\<lparr>db_opts := bench_node\<rparr>)]\<rparr>\<rparr>"

definition bench_args :: flags where
  "bench_args = [(''suite'', FString ''tcp''), (''clients'', FInt 2), (''messages'', FInt 1)]"

definition bench_stop :: "(unit, unit) stop_env" where
  "bench_stop = \<lparr>sp_Remove = (\<lambda>_. None), sp_Engine_Stop = (\<lambda>_. Ret None), sp_Listener_Close = (\<lambda>_. None)\<rparr>"

definition sample_bench_env :: "unit bench_env" where
  "sample_bench_env = \<lparr>be_ops = sample_ops, be_net = (), be_run = sample_run_env sequential,
     be_Create = (\<lambda>_. None), be_Encode = (\<lambda>_. None)\<rparr>"

lemma bench_NewManager: "NewManager (mem_mdbx None) (cfg_Mdbx bench_config) = Inr (fdb_dbManager bench_fdb)"
proof -
  have "NewDb (mem_mdbx None) bench_node = Inr ((mem_db None [])\<lparr>db_opts := bench_node\<rparr>)"
    by (simp add: NewDb_def mem_mdbx_def mem_db_def bench_node_def sample_node_def Let_def)
  then show ?thesis
    by (simp add: NewManager_def bench_config_def bench_fdb_def) (simp add: bench_node_def)
qed

lemma bench_New: "New sample_env bench_config = Ret (Inr bench_fdb)"
  using bench_NewManager
  by (simp add: New_def Config_Validate_def sample_env_def bench_config_def sample_config_def bench_fdb_def
      sample_fdb_def new_transport_def Tcp_NewServer_def Udp_NewServer_def RegisterTransport_def
      NewTransportManager_def go_simps)

lemma bench_Start:
  "\<exists>fdb s. SuiteManager_Start sample_start bench_fdb NewSuiteManager ''tcp'' = Ret (None, fdb, sample_sm) \<and>
     tm_contents (fdb_tm fdb) TCPTransportType = Some (TrTcp s)"
proof -
  obtain bw where bw: "NewBatchWriter 512 500000000 15 = Ret bw" using writer_of_registry by blast
  have su: "map_of (sm_Suites NewSuiteManager) ''tcp'' = Some (SuTcp (NewTcpSuite 500))"
    by (simp add: NewSuiteManager_def RegisterSuite_def Let_def suite_types)
  have tr: "\<exists>s. GetTransportByType bench_fdb TCPTransportType = Inr (TrTcp s)"
    by (simp add: bench_fdb_def sample_fdb_def GetTransportByType_def GetTransport_def)
  have db: "\<exists>d. GetDb (fdb_dbManager bench_fdb) ''benchmark'' = Inr d"
    by (simp add: bench_fdb_def GetDb_def)
  show ?thesis
    using bw su tr db
    by (auto simp: SuiteManager_Start_def TcpSuite_Start_def Let_def set_transport_def Tcp_Start_def
        sample_start_def chan_defs sample_sm_def sample_suite_def suite_types tm_contents_def)
qed

lemma Suite_Stop_base: "Suite_Stop sp fdb su = server_Stop sp fdb (suite_base su)"
  by (cases su) (simp_all add: TcpSuite_Stop_def UdpSuite_Stop_def UdsSuite_Stop_def DummySuite_Stop_def
      QuicSuite_Stop_def)

lemma bench_action:
  "\<exists>r fdb. benchmark_action (bench_load bench_config) sample_env sample_start bench_stop sample_bench_env
     bench_args = Ret (None, Some r, Some fdb)"
proof -
  obtain fdb s where st: "SuiteManager_Start sample_start bench_fdb NewSuiteManager ''tcp'' = Ret (None, fdb, sample_sm)"
    and s: "tm_contents (fdb_tm fdb) TCPTransportType = Some (TrTcp s)"
    using bench_Start by blast
  have "server_Addr fdb (suite_base sample_suite) = Ret (Transport_Addr (TrTcp s))"
    by (simp add: server_Addr_def sample_suite_def s)
  from sample_sm_run [OF _ this, of sequential "[5, 5]"] obtain r sm where
    run: "sm_run True sample_ops fdb sample_sm ''tcp'' (sample_run_env sequential) () 2 1 NewReport =
      Ret (None, r, sm, ())"
    by (auto simp: suite_types)
  have su: "map_of (sm_Suites sample_sm) ''tcp'' = Some sample_suite"
    by (simp add: sample_sm_def RegisterSuite_def suite_types)
  obtain b su' where upd: "suite_base su' = (suite_base sample_suite)\<lparr>st_pool := b\<rparr>"
    and sm: "sm = RegisterSuite sample_sm ''tcp'' su'"
    using sm_run_Ret [OF run su] by metis
  have "st_server (suite_base su') = Some TCPTransportType" by (simp add: upd sample_suite_def)
  note su' = this sm
  have "\<exists>e fdb2. SuiteManager_Stop bench_stop fdb sm ''tcp'' = Ret (e, fdb2)"
    by (simp add: SuiteManager_Stop_def su' RegisterSuite_def Suite_Stop_base server_Stop_def s Tcp_Stop_def bench_stop_def)
  then obtain e fdb2 where stop: "SuiteManager_Stop bench_stop fdb sm ''tcp'' = Ret (e, fdb2)" by blast
  have body: "benchmark_body sample_bench_env fdb sample_sm bench_args = Ret (None, r, sm)"
    using run by (simp add: benchmark_body_def sm_run_def sample_bench_env_def bench_args_def benchmark_Flags_def flag_defaults_def cli_defs)
  show ?thesis
    using st body stop
    by (simp add: benchmark_action_def LoadConfig_def bench_load_def Config_Validate_def bench_New
        bench_args_def benchmark_Flags_def flag_defaults_def cli_defs)
qed

section \<open>Properties\<close>

text \<open>
  C38. The benchmark command exits without an error only after a complete run: the suite is one of
  the five, the type is write or read, the report counts every message of every client as a
  success, and if an output was asked for it was written.
\<close>

theorem benchmark_command_complete:
  assumes "benchmark_action ld ne se sp be args = Ret (None, report, fdb)"
    and "n = cli_Int benchmark_flags args ''clients''" and "m = cli_Int benchmark_flags args ''messages''"
    and "0 \<le> n" and "0 \<le> m" and "n * m < 2 ^ 63"
  shows "\<exists>r. report = Some r \<and> SuccessMessages r = n * m \<and> FailedMessages r = 0 \<and>
    cli_String benchmark_flags args ''suite'' \<in> {''quic'', ''dummy'', ''uds'', ''tcp'', ''udp''} \<and>
    cli_String benchmark_flags args ''type'' \<in> {''write'', ''read''} \<and>
    (cli_String benchmark_flags args ''output'' \<noteq> '''' \<longrightarrow>
       be_Create be (cli_String benchmark_flags args ''output'') = None \<and> be_Encode be r = None)"
proof -
  obtain cfg where cfg: "LoadConfig (ld_ReadFile ld) (ld_Unmarshal ld) (cli_String benchmark_flags args ''config'') = Inr cfg"
    using assms(1) by (auto simp: benchmark_action_def split: sum.split_asm)
  obtain fdb0 fdb1 fdb2 sm sm' r where "fdb = Some fdb2" and "New ne cfg = Ret (Inr fdb0)"
    and "\<exists>e. SuiteManager_Stop sp fdb1 sm' (cli_String benchmark_flags args ''suite'') = Ret (e, fdb2)"
    and st: "SuiteManager_Start se fdb0 NewSuiteManager
      (cli_String benchmark_flags args ''suite'') = Ret (None, fdb1, sm)"
    and body: "benchmark_body be fdb1 sm args = Ret (None, r, sm')" and rep: "report = Some r"
    using assms(1) unfolding benchmark_action_def Let_def cfg
    by (auto elim!: go_bind_RetE split: sum.split_asm option.split_asm) metis
  note ok = SuiteManager_Start_ok [OF st NewSuiteManager_ok]
  show ?thesis
    using benchmark_body_ok [OF body ok(1)] assms(2-6) rep unfolding ok(2) NewSuiteManager_dom by auto
qed

theorem benchmark_command_complete_witness:
  "\<exists>r fdb. benchmark_action (bench_load bench_config) sample_env sample_start bench_stop sample_bench_env
     bench_args = Ret (None, Some r, Some fdb) \<and> SuccessMessages r = 2 \<and> FailedMessages r = 0"
proof -
  obtain r fdb where act: "benchmark_action (bench_load bench_config) sample_env sample_start bench_stop
      sample_bench_env bench_args = Ret (None, Some r, Some fdb)"
    using bench_action by blast
  have "cli_Int benchmark_flags bench_args ''clients'' = 2" "cli_Int benchmark_flags bench_args ''messages'' = 1"
    by (simp_all add: bench_args_def benchmark_Flags_def flag_defaults_def cli_defs)
  then show ?thesis using benchmark_command_complete [OF act refl refl] act by simp
qed

text \<open>
  An interrupted benchmark stops no suite: the signal handler is given the value of a flag
  that the command does not declare, which is the empty string, and no suite has that type, so
  that the process exits while the server still runs.
\<close>

theorem interrupt_stops_nothing:
  assumes "SuiteManager_Start se fdb NewSuiteManager ty = Ret (r, fdb', sm)"
  shows "handle_interrupt sp fdb' sm (interrupt_suite args) = Ret (1, fdb')"
proof -
  have "'''' \<notin> dom (map_of (sm_Suites sm))"
    unfolding SuiteManager_Start_ok(2) [OF assms NewSuiteManager_ok] NewSuiteManager_dom by simp
  moreover have "interrupt_suite args = ''''"
    by (simp add: interrupt_suite_def benchmark_Flags_def flag_defaults_def cli_defs)
  ultimately show ?thesis
    by (simp add: handle_interrupt_def SuiteManager_Stop_def domIff)
qed

theorem interrupt_stops_nothing_witness:
  "\<exists>fdb. SuiteManager_Start sample_start bench_fdb NewSuiteManager ''tcp'' = Ret (None, fdb, sample_sm) \<and>
     handle_interrupt bench_stop fdb sample_sm (interrupt_suite bench_args) = Ret (1, fdb)"
proof -
  obtain fdb where st: "SuiteManager_Start sample_start bench_fdb NewSuiteManager ''tcp'' = Ret (None, fdb, sample_sm)"
    using bench_Start by blast
  show ?thesis using st interrupt_stops_nothing [OF st] by blast
qed

text \<open>
  C39. The command \<open>serve\<close> crashes instead of reporting its error when it is refused before a
  listener is up: with QUIC configured and named first, and without a database or a pprof entry
  of the name the instance asks for, \<open>Start\<close> returns an error and the deferred \<open>Stop\<close> then
  closes the listener that was never opened.
\<close>

theorem serve_panics_on_refused_start:
  assumes "LoadConfig (ld_ReadFile ld) (ld_Unmarshal ld) (cli_String serve_flags args ''config'') = Inr cfg"
    and "New ne cfg = Ret (Inr (fdbc :: ('e, 't, 'g, 'c, 'l) FDB))"
    and "Some QUICTransportType \<in> set (config_kinds (cfg_Transports cfg))"
    and "parse_transports (cli_StringSlice serve_flags args ''transports'') = Inr (QUICTransportType # tys)"
    and "GetDb (fdb_dbManager fdbc) ''fdb'' = Inl e \<or> GetPprofByServiceTag cfg ''fdb'' = Inl e"
  shows "panics (serve_action ld ne se (sp :: ('g, 'l) stop_env) args :: (_ \<times> ('e, 't, 'g, 'c, 'l) FDB option) go)"
proof -
  obtain s where s: "tm_contents (fdb_tm fdbc) QUICTransportType = Some (TrQuic s)" "quic_listener s = None"
    "quic_stopChan s = make_chan 0"
    using New_quic [OF assms(2,3)] .
  have "fdb_config fdbc = cfg" using New_ok [OF assms(2)] by (metis FDB.select_convs(1))
  then obtain err where "FDB_Start se fdbc (QUICTransportType # tys) = Ret (err, fdbc)"
    using FDB_Start_refused [of fdbc] assms(5) by metis
  moreover have "panics (FDB_Stop sp fdbc (QUICTransportType # tys))"
    using s by (simp add: GetTransport_def tm_contents_def Quic_Stop_def chan_defs make_chan_def)
  ultimately show ?thesis
    using assms(1,2,4) unfolding serve_action_def Let_def
    by (cases "FDB_Stop sp fdbc (QUICTransportType # tys)") simp_all
qed

text \<open>The configuration of the benchmark, with a QUIC transport in it, served by default.\<close>

definition quic_config :: Config where
  "quic_config = bench_config\<lparr>cfg_Transports :=
     [\<lparr>tr_Type = QUICTransportType, tr_Enabled = True, tr_Config = Some (CQuic zero_Quic)\<rparr>]\<rparr>"

definition quic_env :: "(mem_store, mem_store, unit) new_env" where
  "quic_env = sample_env\<lparr>ne_tls := (ne_tls sample_env)\<lparr>os_Stat_IsNotExist := (\<lambda>_. False)\<rparr>\<rparr>"

theorem serve_panics_on_refused_start_witness:
  "panics (serve_action (bench_load quic_config) quic_env sample_start bench_stop [] ::
     (_ \<times> (mem_store, mem_store, unit, unit, unit) FDB option) go)"
proof -
  have m: "NewManager (ne_mdbx quic_env) (cfg_Mdbx quic_config) = Inr (fdb_dbManager bench_fdb)"
    using bench_NewManager by (simp add: quic_env_def sample_env_def quic_config_def)
  have c: "log_Enabled (cfg_Logger quic_config) = False" "Config_Validate quic_config = None"
    by (simp_all add: quic_config_def bench_config_def sample_config_def Config_Validate_def)
  have "\<exists>tm :: (mem_store, mem_store, unit, unit, unit) AnyTransport TransportManager. new_transports quic_env NewTransportManager (cfg_Transports quic_config) = Ret (Inr tm)"
    by (simp add: quic_config_def quic_env_def new_transport_def Quic_NewServer_def
        QuicTransport_GetTLSConfig_def sample_env_def zero_Quic_def RegisterTransport_def NewTransportManager_def Let_def)
  then have "\<exists>fdbc :: (mem_store, mem_store, unit, unit, unit) FDB.
      New quic_env quic_config = Ret (Inr fdbc) \<and> fdb_dbManager fdbc = fdb_dbManager bench_fdb"
    by (auto simp: New_def c m)
  then obtain fdbc :: "(mem_store, mem_store, unit, unit, unit) FDB" where
    new: "New quic_env quic_config = Ret (Inr fdbc)" and dbs: "fdb_dbManager fdbc = fdb_dbManager bench_fdb"
    by blast
  show ?thesis
    by (rule serve_panics_on_refused_start [where cfg = quic_config and e = "Errorf ''mdbx database not found: fdb''",
          OF _ new])
      (simp_all add: dbs bench_load_def LoadConfig_def Config_Validate_def quic_config_def bench_fdb_def GetDb_def
        serve_Flags_def flag_defaults_def cli_defs ParseTransportType_def)
qed

end
