(* ===== verification/Tcp_Client.thy ===== *)
theory Tcp_Client
  imports Transport_Manager Tcp_Server
begin

text \<open>
  The client's TCP transport, \<^verbatim>\<open>src/client/tcp.go\<close>, with the message types of
  \<^verbatim>\<open>src/client/types.go\<close>. The network library's client and connections are parameters.
\<close>

section \<open>Message types\<close>

type_synonym MessageType = byte

definition MessageType_Uint64 :: "MessageType \<Rightarrow> 64 word" where
  "MessageType_Uint64 t = ucast t"

definition InvalidActionMessageType :: MessageType where
  "InvalidActionMessageType = 0x69"

definition WriteSuccessMessageType :: MessageType where
  "WriteSuccessMessageType = 0x00"

text \<open>
  The package's own registry of message handlers, which no code reads: what the logger is given, and the
  result.
\<close>

definition messageRegistry :: "(MessageType \<times> ((string \<times> bytes) list \<Rightarrow> bytes \<Rightarrow> error option \<times> (string \<times> bytes) list)) list" where
  "messageRegistry = [(InvalidActionMessageType, \<lambda>log data. (None, log @ [(''Invalid action....'', data)]))]"

section \<open>State and operations\<close>

text \<open>
  \<open>'k\<close> is the library's client, \<open>'n\<close> a connection; both fields are nil until set. A handler works
  on the application's state \<open>'w\<close>. \<open>tt_cancelled\<close> tells whether the context made by \<open>Connect\<close> was
  cancelled.
\<close>

record ('w, 'k, 'n) TCPTransport =
  tt_address :: string
  tt_handlers :: "(MessageType \<times> ('w \<Rightarrow> bytes \<Rightarrow> error option \<times> 'w)) list"
  tt_client :: "'k option"
  tt_conn :: "'n option"
  tt_cancelled :: bool

definition NewTCPTransport :: "string \<Rightarrow> ('w, 'k, 'n) TCPTransport" where
  "NewTCPTransport address =
     \<lparr>tt_address = address, tt_handlers = [], tt_client = None, tt_conn = None, tt_cancelled = False\<rparr>"

text \<open>\<open>Connect\<close>: the results of \<^verbatim>\<open>gnet.NewClient\<close> and of \<^verbatim>\<open>Dial\<close> are inputs.\<close>

definition TCPTransport_Connect ::
    "error + 'k \<Rightarrow> ('k \<Rightarrow> string \<Rightarrow> error + 'n) \<Rightarrow> ('w, 'k, 'n) TCPTransport \<Rightarrow>
     error option \<times> ('w, 'k, 'n) TCPTransport" where
  "TCPTransport_Connect gnet_NewClient Dial t =
     (let t = t\<lparr>tt_cancelled := False\<rparr>
      in case gnet_NewClient of
           Inl err \<Rightarrow> (Some err, t)
         | Inr client \<Rightarrow>
            (let t = t\<lparr>tt_client := Some client\<rparr>
             in case Dial client (tt_address t) of
                  Inl err \<Rightarrow> (Some err, t)
                | Inr conn \<Rightarrow> (None, t\<lparr>tt_conn := Some conn\<rparr>)))"

definition TCPTransport_Send ::
    "('n \<Rightarrow> bytes \<Rightarrow> error option) \<Rightarrow> ('w, 'k, 'n) TCPTransport \<Rightarrow> bytes \<Rightarrow> error option" where
  "TCPTransport_Send AsyncWrite t data =
     (case tt_conn t of
        None \<Rightarrow> Some (Errorf ''no active connection'')
      | Some conn \<Rightarrow> AsyncWrite conn data)"

definition TCPTransport_Close ::
    "('k \<Rightarrow> error option) \<Rightarrow> ('w, 'k, 'n) TCPTransport \<Rightarrow> error option \<times> ('w, 'k, 'n) TCPTransport" where
  "TCPTransport_Close Client_Stop t =
     (case tt_client t of
        Some client \<Rightarrow> (Client_Stop client, t\<lparr>tt_cancelled := True\<rparr>)
      | None \<Rightarrow> (None, t))"

definition TCPTransport_RegisterHandler ::
    "('w, 'k, 'n) TCPTransport \<Rightarrow> MessageType \<Rightarrow> ('w \<Rightarrow> bytes \<Rightarrow> error option \<times> 'w) \<Rightarrow>
     ('w, 'k, 'n) TCPTransport" where
  "TCPTransport_RegisterHandler t messageType handler =
     t\<lparr>tt_handlers := AList.update messageType handler (tt_handlers t)\<rparr>"

definition client_OnOpen ::
    "('w, 'k, 'n) TCPTransport \<Rightarrow> 'n \<Rightarrow> ('w, 'k, 'n) TCPTransport \<times> bytes option \<times> Action" where
  "client_OnOpen t c = (t\<lparr>tt_conn := Some c\<rparr>, None, ActNone)"

definition client_OnClose ::
    "('w, 'k, 'n) TCPTransport \<Rightarrow> ('w, 'k, 'n) TCPTransport \<times> Action" where
  "client_OnClose t = (t\<lparr>tt_conn := None\<rparr>, ActNone)"

text \<open>\<open>OnTraffic\<close>: what \<^verbatim>\<open>c.Next(-1)\<close> yields is the input; handler errors are only logged.\<close>

definition client_OnTraffic ::
    "('w, 'k, 'n) TCPTransport \<Rightarrow> 'w \<Rightarrow> error + bytes \<Rightarrow> 'w \<times> Action" where
  "client_OnTraffic t w next =
     (case next of
        Inl err \<Rightarrow> (w, ActClose)
      | Inr data \<Rightarrow>
         (if length data < 1 then (w, ActNone)
          else case map_of (tt_handlers t) (data ! 0) of
            Some handler \<Rightarrow> (snd (handler w (drop 1 data)), ActNone)
          | None \<Rightarrow> (w, ActNone)))"

definition client_OnTick :: "int \<times> Action" where
  "client_OnTick = (time_Second, ActNone)"

section \<open>The connection as a state machine\<close>

datatype conn_event = EvConnect | EvConnectFailed | EvOpen | EvClosed

text \<open>
  The steps that touch the connection: a \<open>Connect\<close> that returns nil or fails, and the callbacks
  for an opened and for a closed connection.
\<close>

inductive conn_step ::
    "('w, 'k, 'n) TCPTransport \<Rightarrow> conn_event \<Rightarrow> ('w, 'k, 'n) TCPTransport \<Rightarrow> bool" where
  "TCPTransport_Connect nc dial t = (None, t') \<Longrightarrow> conn_step t EvConnect t'"
| "TCPTransport_Connect nc dial t = (Some err, t') \<Longrightarrow> conn_step t EvConnectFailed t'"
| "client_OnOpen t c = (t', out, a) \<Longrightarrow> conn_step t EvOpen t'"
| "client_OnClose t = (t', a) \<Longrightarrow> conn_step t EvClosed t'"

inductive conn_run ::
    "('w, 'k, 'n) TCPTransport \<Rightarrow> conn_event list \<Rightarrow> ('w, 'k, 'n) TCPTransport \<Rightarrow> bool" where
  conn_nil: "conn_run t [] t"
| conn_snoc: "conn_run t evs t' \<Longrightarrow> conn_step t' ev t'' \<Longrightarrow> conn_run t (evs @ [ev]) t''"

text \<open>Whether a sequence of events leaves the transport with a connection.\<close>

definition connected :: "conn_event list \<Rightarrow> bool" where
  "connected evs \<longleftrightarrow>
     (case rev (filter (\<lambda>ev. ev \<noteq> EvConnectFailed) evs) of [] \<Rightarrow> False | ev # _ \<Rightarrow> ev \<noteq> EvClosed)"

lemma Connect_conn:
  assumes "TCPTransport_Connect nc dial t = (r, t')"
  shows "r = None \<Longrightarrow> tt_conn t' \<noteq> None" and "r \<noteq> None \<Longrightarrow> tt_conn t' = tt_conn t"
proof -
  have "(r = None \<longrightarrow> tt_conn t' \<noteq> None) \<and> (r \<noteq> None \<longrightarrow> tt_conn t' = tt_conn t)"
  proof (cases nc)
    case (Inl e)
    then show ?thesis using assms by (auto simp: TCPTransport_Connect_def)
  next
    case (Inr k)
    then show ?thesis
      using assms by (cases "dial k (tt_address t)") (auto simp: TCPTransport_Connect_def)
  qed
  then show "r = None \<Longrightarrow> tt_conn t' \<noteq> None" and "r \<noteq> None \<Longrightarrow> tt_conn t' = tt_conn t" by simp_all
qed

lemma conn_step_conn:
  "conn_step t ev t' \<Longrightarrow>
   tt_conn t' = None \<longleftrightarrow> ev = EvClosed \<or> ev = EvConnectFailed \<and> tt_conn t = None"
proof (induction rule: conn_step.induct)
  case (1 nc dial t t')
  then show ?case using Connect_conn(1) [OF 1] by simp
next
  case (2 nc dial t err t')
  then show ?case using Connect_conn(2) [OF 2] by simp
qed (auto simp: client_OnOpen_def client_OnClose_def)

lemma conn_run_conn:
  "conn_run t evs t' \<Longrightarrow> tt_conn t = None \<Longrightarrow> tt_conn t' = None \<longleftrightarrow> \<not> connected evs"
proof (induction rule: conn_run.induct)
  case (conn_snoc t evs t' ev t'')
  show ?case
    using conn_step_conn [OF conn_snoc(2)] conn_snoc.IH [OF conn_snoc.prems]
    by (simp add: connected_def)
qed (simp add: connected_def)

section \<open>Properties\<close>

text \<open>
  C34. \<open>Send\<close> hands the data to the connection exactly when the last event that concerns the
  connection was not a close: a transport that never connected, or whose connection was closed
  last, answers \<open>no active connection\<close>. A failed \<open>Connect\<close> changes nothing in this respect.
\<close>

theorem client_send_iff_connected:
  assumes "conn_run (NewTCPTransport addr) evs t"
  shows "if connected evs
     then \<exists>c. tt_conn t = Some c \<and> TCPTransport_Send AsyncWrite t data = AsyncWrite c data
     else TCPTransport_Send AsyncWrite t data = Some (Errorf ''no active connection'')"
  using conn_run_conn [OF assms]
  by (auto simp: TCPTransport_Send_def NewTCPTransport_def)

theorem client_send_iff_connected_witness:
  "TCPTransport_Send (\<lambda>c d. None)
     (fst (client_OnClose (fst (client_OnOpen
        (NewTCPTransport ''127.0.0.1:5011'' :: (unit, unit, nat) TCPTransport) 3)))) [1] =
   Some (Errorf ''no active connection'')"
proof -
  let ?t = "NewTCPTransport ''127.0.0.1:5011'' :: (unit, unit, nat) TCPTransport"
  have "conn_step ?t EvOpen (fst (client_OnOpen ?t 3))"
    by (rule conn_step.intros(3)) (simp add: client_OnOpen_def)
  moreover have "conn_step (fst (client_OnOpen ?t 3)) EvClosed
      (fst (client_OnClose (fst (client_OnOpen ?t 3))))"
    by (rule conn_step.intros(4)) (simp add: client_OnClose_def)
  ultimately have "conn_run ?t (([] @ [EvOpen]) @ [EvClosed])
      (fst (client_OnClose (fst (client_OnOpen ?t 3))))"
    using conn_snoc [OF conn_snoc [OF conn_nil]] by blast
  from client_send_iff_connected [OF this, of "\<lambda>c d. None" "[1]"] show ?thesis
    by (simp add: connected_def)
qed

text \<open>
  The client has no way to recognise a server error: the first byte of none of the fixed
  replies of the TCP server and its handlers is the client's invalid-action type, so a client
  with only that handler registered ignores them all.
\<close>

theorem client_ignores_server_errors:
  assumes "reply \<in> {invalid_action, unknown_action, invalid_format, read_error, no_value, [0], [1]}"
  shows "client_OnTraffic
     (TCPTransport_RegisterHandler (NewTCPTransport addr :: ('w, 'k, 'n) TCPTransport)
        InvalidActionMessageType h) w (Inr reply) = (w, ActNone)"
  using assms
  by (auto simp: client_OnTraffic_def TCPTransport_RegisterHandler_def NewTCPTransport_def
      InvalidActionMessageType_def bytes_of_string_def)

theorem client_ignores_server_errors_witness:
  "client_OnTraffic
     (TCPTransport_RegisterHandler (NewTCPTransport [] :: (nat, unit, unit) TCPTransport)
        InvalidActionMessageType (\<lambda>w d. (None, w + 1))) 5 (Inr invalid_action) = (5, ActNone)"
  by (rule client_ignores_server_errors) simp

text \<open>
  A stored value is dispatched by its own first byte: when the TCP server answers a read with
  the value \<open>b # v\<close>, the client calls the handler registered for the message type \<open>b\<close> with \<open>v\<close>
  alone. A value that begins with 0 therefore reaches the write-success handler.
\<close>

theorem client_dispatches_value_by_first_byte:
  assumes "Tcp_handler s ReadHandlerType = Some TCPReadHandler_HandleMessage"
    and "length k = 32" and "Db_Get (w_db w) k = (b # v, None)"
    and "map_of (tt_handlers t) b = Some h"
  shows "\<exists>reply. Tcp_OnTraffic s w (Inr (ReadHandlerType # k)) = Ret (w, [reply], ActNone) \<and>
    client_OnTraffic t cw (Inr reply) = (snd (h cw v), ActNone)"
  using tcpkv.serve_read [OF assms(1), of k w] assms(2-4)
  by (simp add: read_reply_def client_OnTraffic_def)

theorem client_dispatches_value_by_first_byte_witness:
  "\<exists>reply. Tcp_OnTraffic sample_tcp (sample_world\<lparr>w_db := mem_db None [(sample_key, [0, 7])]\<rparr>)
       (Inr (ReadHandlerType # sample_key)) =
       Ret (sample_world\<lparr>w_db := mem_db None [(sample_key, [0, 7])]\<rparr>, [reply], ActNone) \<and>
     client_OnTraffic
       (TCPTransport_RegisterHandler (NewTCPTransport [] :: (bytes, unit, unit) TCPTransport)
         WriteSuccessMessageType (\<lambda>_ d. (None, d))) [] (Inr reply) = ([7], ActNone)"
proof -
  let ?w = "sample_world\<lparr>w_db := mem_db None [(sample_key, [0, 7])]\<rparr>"
  let ?t = "TCPTransport_RegisterHandler (NewTCPTransport [] :: (bytes, unit, unit) TCPTransport)
         WriteSuccessMessageType (\<lambda>_ d. (None, d))"
  have "Tcp_handler sample_tcp ReadHandlerType = Some TCPReadHandler_HandleMessage"
    by (simp add: sample_tcp_handler)
  moreover have "Db_Get (w_db ?w) sample_key = (0 # [7], None)" by (simp add: mem_db_Get)
  moreover have "map_of (tt_handlers ?t) 0 = Some (\<lambda>_ d. (None, d))"
    by (simp add: TCPTransport_RegisterHandler_def NewTCPTransport_def WriteSuccessMessageType_def)
  ultimately show ?thesis
    using client_dispatches_value_by_first_byte [of sample_tcp sample_key ?w 0 "[7]" ?t _ "[]"] by simp
qed

end
