(* ===== verification/Server_System.thy ===== *)
theory Server_System
  imports Fdb
begin

text \<open>
  The running instance: the started servers of \<^verbatim>\<open>src/fdb.go\<close> with their handlers, the batch writer
  each of them was given by \<^verbatim>\<open>src/registry.go\<close>, and the database they share. Frames arrive on the
  transports and the workers of all batch writers take steps, in any interleaving.
\<close>

section \<open>Steps of the system\<close>

text \<open>
  What a transport does with the bytes of one read: the callbacks of the event loops, and one
  pass of the loop of a QUIC stream. The replies are those the connection was given.
\<close>

fun Transport_receive ::
    "('e, 't, 'g, 'c, 'l) AnyTransport \<Rightarrow> ('e, 't) hworld \<Rightarrow> bytes \<Rightarrow> (('e, 't) hworld \<times> bytes list) go" where
  "Transport_receive (TrDummy s) w f = go_bind (Dummy_serve s w f) (\<lambda>(w, rs, _). Ret (w, rs))"
| "Transport_receive (TrQuic s) w f =
     go_bind (handleStream s w \<lparr>st_results = [], st_out = []\<rparr> [(f, None)]) (\<lambda>(w, st, _). Ret (w, st_out st))"
| "Transport_receive (TrUds s) w f = go_bind (Uds_serve s w f) (\<lambda>(w, rs, _). Ret (w, rs))"
| "Transport_receive (TrTcp s) w f = go_bind (Tcp_OnTraffic s w (Inr f)) (\<lambda>(w, rs, _). Ret (w, rs))"
| "Transport_receive (TrUdp s) w f = go_bind (Udp_serve s w f) (\<lambda>(w, rs, _). Ret (w, rs))"

datatype sys_event = Receive TransportType bytes | Work nat bw_event

fun worker_event :: "bw_event \<Rightarrow> bool" where
  "worker_event (EWrite k v) = False"
| "worker_event _ = True"

text \<open>A step, with the replies sent and the error logged; \<open>tys\<close> are the started transports.\<close>

inductive sys_step ::
    "('e, 't, 'g, 'c, 'l) FDB \<Rightarrow> TransportType set \<Rightarrow> ('e, 't) hworld \<Rightarrow> sys_event \<Rightarrow> bytes list \<Rightarrow>
     error option \<Rightarrow> ('e, 't) hworld \<Rightarrow> bool" for fdb tys where
  sys_receive: "ty \<in> tys \<Longrightarrow> tm_contents (fdb_tm fdb) ty = Some tr \<Longrightarrow>
    Transport_receive tr w f = Ret (w', rs) \<Longrightarrow> sys_step fdb tys w (Receive ty f) rs None w'"
| sys_work: "p < length (w_writers w) \<Longrightarrow> worker_event ev \<Longrightarrow>
    bw_step (w_writers w ! p, w_db w) ev err (bw', db') \<Longrightarrow>
    sys_step fdb tys w (Work p ev) [] err (w\<lparr>w_db := db', w_writers := (w_writers w)[p := bw']\<rparr>)"

inductive_cases sys_receiveE: "sys_step fdb tys w (Receive ty f) rs err w'"
inductive_cases sys_workE: "sys_step fdb tys w (Work p ev) rs err w'"

inductive sys_run ::
    "('e, 't, 'g, 'c, 'l) FDB \<Rightarrow> TransportType set \<Rightarrow> ('e, 't) hworld \<Rightarrow> (sys_event \<times> bytes list) list \<Rightarrow>
     error list \<Rightarrow> ('e, 't) hworld \<Rightarrow> bool" for fdb tys where
  sys_nil: "sys_run fdb tys w [] [] w"
| sys_snoc: "sys_run fdb tys w evs errs w' \<Longrightarrow> sys_step fdb tys w' ev rs err w'' \<Longrightarrow>
    sys_run fdb tys w (evs @ [(ev, rs)]) (errs @ (case err of None \<Rightarrow> [] | Some e \<Rightarrow> [e])) w''"

inductive_cases sys_run_NilE: "sys_run fdb tys w [] errs w'"
inductive_cases sys_run_snocE: "sys_run fdb tys w (evs @ [(ev, rs)]) errs w'"

text \<open>The state once \<open>Start\<close> has launched the transports: nothing is pending anywhere.\<close>

definition sys_world :: "('e, 't, 'g, 'c, 'l) FDB \<Rightarrow> ('e, 't) Db \<Rightarrow> ('e, 't) hworld" where
  "sys_world fdb db = \<lparr>w_db = db, w_writers = fdb_writers fdb\<rparr>"

definition launched ::
    "('c, 'l) start_env \<Rightarrow> ('e, 't, 'c) new_env \<Rightarrow> Config \<Rightarrow> TransportType list \<Rightarrow>
     ('e, 't, 'g, 'c, 'l) FDB \<Rightarrow> ('e, 't) Db \<Rightarrow> bool" where
  "launched se ne cnf tys fdb db \<longleftrightarrow>
     (\<exists>fdb0 errs. New ne cnf = Ret (Inr fdb0) \<and> GetDb (fdb_dbManager fdb0) ''fdb'' = Inr db \<and>
        start_transports se fdb0 tys = Ret (None, errs, fdb))"

section \<open>The writes clients ask for\<close>

text \<open>The write a read of a transport asks for; a QUIC stream decodes it.\<close>

fun frame_write :: "('e, 't, 'g, 'c, 'l) AnyTransport \<Rightarrow> bytes \<Rightarrow> (bytes \<times> bytes) option" where
  "frame_write (TrDummy s) f = None"
| "frame_write (TrQuic s) f =
     (case Decode f of
        Ret (Inr m) \<Rightarrow> if msg_Handler m = WriteHandlerType then Some (msg_Key m, msg_Data m) else None
      | _ \<Rightarrow> None)"
| "frame_write (TrUds s) f = gnet_write f"
| "frame_write (TrTcp s) f = gnet_write f"
| "frame_write (TrUdp s) f = gnet_write f"

fun event_write ::
    "('e, 't, 'g, 'c, 'l) FDB \<Rightarrow> sys_event \<times> bytes list \<Rightarrow> (TransportType \<times> bytes \<times> bytes) option" where
  "event_write fdb (Receive ty f, rs) =
     (case tm_contents (fdb_tm fdb) ty of
        None \<Rightarrow> None
      | Some tr \<Rightarrow> (case frame_write tr f of None \<Rightarrow> None | Some (k, v) \<Rightarrow> Some (ty, k, v)))"
| "event_write fdb (Work p ev, rs) = None"

text \<open>The writes of a run, in the order in which they were accepted.\<close>

definition sys_writes ::
    "('e, 't, 'g, 'c, 'l) FDB \<Rightarrow> (sys_event \<times> bytes list) list \<Rightarrow> (TransportType \<times> bytes \<times> bytes) list" where
  "sys_writes fdb evs = List.map_filter (event_write fdb) evs"

lemma sys_writes_snoc:
  "sys_writes fdb (evs @ [e]) = sys_writes fdb evs @ (case event_write fdb e of None \<Rightarrow> [] | Some x \<Rightarrow> [x])"
  by (simp add: sys_writes_def map_filter_def split: option.split)

lemma sys_writes_append: "sys_writes fdb (evs @ evs') = sys_writes fdb evs @ sys_writes fdb evs'"
  by (simp add: sys_writes_def map_filter_def)

lemma sys_writes_Nil [simp]: "sys_writes fdb [] = []"
  by (simp add: sys_writes_def map_filter_def)

section \<open>A launched instance is wired\<close>

definition quic_actions :: "('e, 't, 'g, 'c, 'l) AnyTransport \<Rightarrow> bool" where
  "quic_actions tr \<longleftrightarrow> (\<forall>s. tr = TrQuic s \<longrightarrow>
     dom (map_of (quic_handlerRegistry s)) \<subseteq> {WriteHandlerType, ReadHandlerType})"

definition sys_wired :: "('e, 't, 'g, 'c, 'l) FDB \<Rightarrow> TransportType set \<Rightarrow> (TransportType \<Rightarrow> nat) \<Rightarrow> bool" where
  "sys_wired fdb tys ptr \<longleftrightarrow> inj_on ptr tys \<and>
     (\<forall>ty \<in> tys. ptr ty < length (fdb_writers fdb) \<and>
        (\<exists>tr. tm_contents (fdb_tm fdb) ty = Some tr \<and> transport_wired tr (ptr ty) \<and> quic_actions tr))"

lemma sys_wiredD:
  assumes "sys_wired fdb tys ptr" and "ty \<in> tys"
  shows "ptr ty < length (fdb_writers fdb)"
    and "tm_contents (fdb_tm fdb) ty = Some tr \<Longrightarrow> transport_wired tr (ptr ty) \<and> quic_actions tr"
  using assms by (auto simp: sys_wired_def)

lemma quic_actions_simps [simp]:
  "quic_actions (TrDummy d)" "quic_actions (TrUds u)" "quic_actions (TrTcp t)" "quic_actions (TrUdp v)"
  "quic_actions (TrQuic s) \<longleftrightarrow> dom (map_of (quic_handlerRegistry s)) \<subseteq> {WriteHandlerType, ReadHandlerType}"
  by (simp_all add: quic_actions_def)

abbreviation fdb_quic_actions :: "('e, 't, 'g, 'c, 'l) FDB \<Rightarrow> bool" where
  "fdb_quic_actions fdb \<equiv> (\<forall>tr \<in> ran (tm_contents (fdb_tm fdb)). quic_actions tr)"

lemma fdb_quic_actions_set:
  "fdb_quic_actions fdb \<Longrightarrow> quic_actions tr \<Longrightarrow> fdb_quic_actions (set_transport fdb ty tr)"
  by (auto simp: ran_def split: if_splits)

lemma GetTransport_ran: "GetTransportByType fdb ty = Inr tr \<Longrightarrow> tr \<in> ran (tm_contents (fdb_tm fdb))"
  by (auto simp: GetTransportByType_def tmr.get_Inr_iff ranI)

lemma tRegistry_quic_actions:
  assumes "tRegistry ty = Some fn" and "fn fdb = Ret (Inr fdb')" and "fdb_quic_actions fdb"
  shows "fdb_quic_actions fdb'"
proof -
  obtain bw where bw: "NewBatchWriter 512 500000000 15 = Ret bw" using writer_of_registry by blast
  let ?fdb = "fdb\<lparr>fdb_writers := fdb_writers fdb @ [bw]\<rparr>"
  have fn: "fn = tRegistry_quic \<or> fn = tRegistry_tcp \<or> fn = tRegistry_uds \<or> fn = tRegistry_udp"
    using assms(1) by (auto simp: tRegistry_def split: if_splits)
  have "\<exists>ty tr. fdb' = set_transport ?fdb ty tr \<and> quic_actions tr"
    using fn
  proof (elim disjE)
    assume q: "fn = tRegistry_quic"
    obtain s where s: "GetTransportByType fdb QUICTransportType = Inr (TrQuic s)"
      using assms(2) by (auto simp: q tRegistry_quic_def bw split: sum.split_asm AnyTransport.split_asm)
    have "dom (map_of (quic_handlerRegistry s)) \<subseteq> {WriteHandlerType, ReadHandlerType}"
      using bspec [OF assms(3) GetTransport_ran [OF s]] by simp
    then have "dom (map_of (quic_handlerRegistry (Quic_RegisterHandler
        (Quic_RegisterHandler s WriteHandlerType h) ReadHandlerType h'))) \<subseteq> {WriteHandlerType, ReadHandlerType}" for h h'
      by (auto simp: Quic_RegisterHandler_def)
    then have "quic_actions (TrQuic (Quic_RegisterHandler
        (Quic_RegisterHandler s WriteHandlerType h) ReadHandlerType h'))" for h h' by simp
    moreover have "\<exists>h h'. fdb' = set_transport ?fdb QUICTransportType (TrQuic (Quic_RegisterHandler
        (Quic_RegisterHandler s WriteHandlerType h) ReadHandlerType h'))"
      using assms(2) by (auto simp: q tRegistry_quic_def bw s Let_def)
    ultimately show ?thesis by blast
  next
    assume "fn = tRegistry_tcp"
    then have "\<exists>s. fdb' = set_transport ?fdb TCPTransportType (TrTcp s)"
      using assms(2) by (auto simp: tRegistry_tcp_def bw Let_def split: sum.split_asm AnyTransport.split_asm)
    then show ?thesis using quic_actions_simps(3) by blast
  next
    assume "fn = tRegistry_uds"
    then have "\<exists>s. fdb' = set_transport ?fdb UDSTransportType (TrUds s)"
      using assms(2) by (auto simp: tRegistry_uds_def bw Let_def split: sum.split_asm AnyTransport.split_asm)
    then show ?thesis using quic_actions_simps(2) by blast
  next
    assume "fn = tRegistry_udp"
    then have "\<exists>s. fdb' = set_transport ?fdb UDPTransportType (TrUdp s)"
      using assms(2) by (auto simp: tRegistry_udp_def bw Let_def split: sum.split_asm AnyTransport.split_asm)
    then show ?thesis using quic_actions_simps(4) by blast
  qed
  then obtain ty' tr where eq: "fdb' = set_transport ?fdb ty' tr" and tr: "quic_actions tr" by blast
  show ?thesis unfolding eq by (rule fdb_quic_actions_set [OF _ tr]) (use assms(3) in simp)
qed

lemma Transport_Start_quic_actions:
  "Transport_Start se ty tr = Ret (r, tr') \<Longrightarrow> quic_actions tr \<Longrightarrow> quic_actions tr'"
  by (cases tr) (auto simp: go_bind_Ret_iff Quic_Start_def Let_def split: sum.split_asm)

lemma start_transports_quic_actions:
  "start_transports se fdb tys = Ret (None, errs, fdb') \<Longrightarrow> fdb_quic_actions fdb \<Longrightarrow> fdb_quic_actions fdb'"
proof (induction tys arbitrary: fdb errs)
  case (Cons ty tys)
  show ?case
  proof (rule start_transports_Cons [OF Cons.prems(1)])
    fix fn fdb0 tr r tr1 errs1
    assume fn: "tRegistry ty = Some fn" "fn fdb = Ret (Inr fdb0)"
      and tr: "GetTransportByType fdb0 ty = Inr tr" "Transport_Start se ty tr = Ret (r, tr1)"
      and rest: "start_transports se (set_transport fdb0 ty tr1) tys = Ret (None, errs1, fdb')"
    have q: "fdb_quic_actions fdb0" using tRegistry_quic_actions [OF fn] Cons.prems(2) by blast
    then have "quic_actions tr1"
      using Transport_Start_quic_actions [OF tr(2)] GetTransport_ran [OF tr(1)] by blast
    then show ?case using Cons.IH [OF rest] fdb_quic_actions_set [OF q] by blast
  qed
qed simp

lemma New_quic_actions:
  assumes "New ne cnf = Ret (Inr fdb)"
  shows "fdb_quic_actions fdb" and "fdb_writers fdb = []"
proof -
  obtain dbM tm where tm: "new_transports ne NewTransportManager (cfg_Transports cnf) = Ret (Inr tm)"
    and fdb: "fdb = \<lparr>fdb_config = cnf, fdb_tm = tm, fdb_dbManager = dbM, fdb_writers = []\<rparr>"
    using New_ok [OF assms] by metis
  have "quic_fresh tm" using new_transports_quic_fresh [OF tm] by (simp add: quic_fresh_def)
  then show "fdb_quic_actions fdb"
    by (auto simp: fdb quic_fresh_def quic_actions_def ran_def)
  show "fdb_writers fdb = []" by (simp add: fdb)
qed

lemma launched_wired:
  assumes "launched se ne cnf tys fdb db" and "db_ok db"
  obtains ptr where "sys_wired fdb (set tys) ptr" "world_ok (sys_world fdb db)"
    "\<forall>bw \<in> set (fdb_writers fdb). fresh_writer bw"
proof -
  obtain fdb0 errs where new: "New ne cnf = Ret (Inr fdb0)"
    and st: "start_transports se fdb0 tys = Ret (None, errs, fdb)"
    using assms(1) by (auto simp: launched_def)
  have w: "\<forall>bw \<in> set (fdb_writers fdb). bw_inv bw \<and> fresh_writer bw"
    using start_transports_other [OF st] New_quic_actions(2) [OF new] by auto
  obtain ptr where "inj_on ptr (set tys)"
    and ptr: "\<forall>ty \<in> set tys. ptr ty < length (fdb_writers fdb) \<and> fdb_wired fdb ty (ptr ty)"
    using start_transports_wired [OF st] by blast
  moreover have "fdb_quic_actions fdb"
    using start_transports_quic_actions [OF st] New_quic_actions(1) [OF new] by blast
  ultimately have "sys_wired fdb (set tys) ptr"
    by (fastforce simp: sys_wired_def fdb_wired_def ran_def)
  then show thesis using that w assms(2) by (auto simp: world_ok_def sys_world_def)
qed

section \<open>What a read does to the world\<close>

lemma quic_receive_effect:
  assumes "transport_wired (TrQuic s) p" and "quic_actions (TrQuic s)"
    and "Transport_receive (TrQuic s) w f = Ret (w', rs)"
  shows "case frame_write (TrQuic s) f of
      None \<Rightarrow> w' = w
    | Some (k, v) \<Rightarrow> is_key k \<and> writer_BufferWrite p k v w = Ret w' \<and> rs = [[0]]"
proof -
  let ?st = "\<lparr>st_results = [], st_out = []\<rparr> :: stream"
  obtain st e where hs: "handleStream s w ?st [(f, None)] = Ret (w', st, e)" and rs: "rs = st_out st"
    using assms(3) by (auto simp: go_bind_Ret_iff)
  obtain r where r: "Decode f = Ret r" using hs by (auto simp: go_bind_Ret_iff)
  show ?thesis
  proof (cases r)
    case (Inl err)
    then show ?thesis using hs by (simp add: r)
  next
    case (Inr m)
    have key: "is_key (msg_Key m)" using Decode_okD [of f m] r Inr by (simp add: is_key_def)
    show ?thesis
    proof (cases "map_of (quic_handlerRegistry s) (msg_Handler m)")
      case None
      then show ?thesis using hs assms(1) by (auto simp: r Inr)
    next
      case (Some h)
      have "msg_Handler m \<in> dom (map_of (quic_handlerRegistry s))" using Some by blast
      then consider "msg_Handler m = WriteHandlerType" | "msg_Handler m = ReadHandlerType"
        using assms(2) by auto
      then show ?thesis
      proof cases
        case 1
        then have "QuicWriteHandler_HandleMessage (NewQuicWriteHandler p) w ?st m = Ret (w', st)"
          using hs assms(1) by (auto simp: r Inr go_bind_Ret_iff)
        then show ?thesis
          using key rs 1 by (auto simp: r Inr QuicWriteHandler_HandleMessage_def NewQuicWriteHandler_def go_bind_Ret_iff)
      next
        case 2
        then have "QuicReadHandler_HandleMessage w ?st m = Ret (w', st)"
          using hs assms(1) by (auto simp: r Inr go_bind_Ret_iff)
        then show ?thesis using quic_read_handler [of w ?st m] 2 by (auto simp: r Inr)
      qed
    qed
  qed
qed

lemma receive_effect:
  assumes "transport_wired tr p" and "quic_actions tr" and "Transport_receive tr w f = Ret (w', rs)"
  shows "case frame_write tr f of
      None \<Rightarrow> w' = w
    | Some (k, v) \<Rightarrow> is_key k \<and> writer_BufferWrite p k v w = Ret w' \<and> rs = [[0]]"
proof (cases tr)
  case (TrQuic s)
  then show ?thesis using quic_receive_effect [of s p w f w' rs] assms by simp
next
  case (TrTcp s)
  then show ?thesis using tcpkv.serve_effect [of s p w f w'] assms by (auto simp: go_bind_Ret_iff)
next
  case (TrUdp s)
  then show ?thesis using udpkv.serve_effect [of s p w f w'] assms by (auto simp: go_bind_Ret_iff)
next
  case (TrUds s)
  then show ?thesis using udskv.serve_effect [of s p w f w'] assms by (auto simp: go_bind_Ret_iff)
qed (use assms in simp)

section \<open>Pending writes\<close>

text \<open>The writes a batch writer has accepted and not yet stored.\<close>

definition pending :: "BatchWriter \<Rightarrow> (bytes \<times> bytes) set" where
  "pending bw = {(k, v). \<exists>i < nat (bw_workers bw). (k, v) \<in> set (bw_buffers bw ! i) \<or>
     \<lparr>req_Key = k, req_Value = v\<rparr> \<in> set (bw_channels bw ! i)}"

lemma pending_quiescent: "quiescent bw \<Longrightarrow> pending bw = {}"
  by (auto simp: pending_def quiescent_def)

lemma pending_write:
  assumes "BufferWrite bw k v = Ret bw'"
  shows "pending bw' \<subseteq> insert (k, v) (pending bw)"
  unfolding BufferWrite_Ret(1) [OF assms]
  by (auto simp: pending_def nth_update_if split: if_splits)

lemma pending_buffered:
  assumes "bw_wf bw" and "i < nat (bw_workers bw)" and "bw_channels bw ! i \<noteq> []"
  shows "pending (buffered bw i) \<subseteq> pending bw"
proof -
  obtain r q where rq: "bw_channels bw ! i = r # q" using assms(3) by (cases "bw_channels bw ! i") auto
  note at = buffered_at [OF assms(1,2), unfolded rq list.sel]
  have "(k, v) \<in> pending bw" if "j < nat (bw_workers bw)"
    and "(k, v) \<in> set (bw_buffers (buffered bw i) ! j) \<or>
      \<lparr>req_Key = k, req_Value = v\<rparr> \<in> set (bw_channels (buffered bw i) ! j)" for j k v
  proof (cases "j = i")
    case True
    then have "(k, v) \<in> set (bw_buffers bw ! i) \<or> \<lparr>req_Key = k, req_Value = v\<rparr> \<in> set (r # q)"
      using that(2) set_AList_update [of "req_Key r" "req_Value r" "bw_buffers bw ! i"] by (auto simp: at)
    then show ?thesis using assms(2) rq unfolding pending_def by auto
  next
    case False
    then show ?thesis using that unfolding pending_def by (auto simp: at)
  qed
  then show ?thesis by (auto simp: pending_def [of "buffered bw i"])
qed

lemma pending_clear:
  "pending (bw\<lparr>bw_buffers := (bw_buffers bw)[i := []]\<rparr>) \<subseteq> pending bw"
  by (auto simp: pending_def nth_update_if split: if_splits)

lemma pending_upd [simp]:
  "pending (bw\<lparr>bw_running := r\<rparr>) = pending bw" "pending (bw\<lparr>bw_stopChannel := c\<rparr>) = pending bw"
  by (simp_all add: pending_def)

lemma pending_flush:
  assumes "bw_wf bw" and "db_ok db" and "iter_order ord" and "i < nat (bw_workers bw)"
    and "flush ord bw db i = (bw', db', err)"
  shows "pending bw' \<subseteq> pending bw"
    and "db_store db' k = Some v \<Longrightarrow> db_store db k = Some v \<or> (k, v) \<in> pending bw"
    and "k \<notin> fst ` pending bw \<Longrightarrow> db_store db' k = db_store db k"
proof -
  show "pending bw' \<subseteq> pending bw" using flush_bw [OF assms(5)] pending_clear by simp
  have "distinct (map fst (bw_buffers bw ! i))" using assms(1,4) by (simp add: bw_wf_def worker_wf_def)
  note st = flush_db(2) [OF assms(2,3) this assms(5)]
  have sub: "(k, v) \<in> pending bw" if "map_of (bw_buffers bw ! i) k = Some v" for k v
    using map_of_SomeD [OF that] assms(4) by (auto simp: pending_def)
  show "db_store db' k = Some v \<Longrightarrow> db_store db k = Some v \<or> (k, v) \<in> pending bw"
    using sub by (auto simp: st map_add_Some_iff split: if_splits)
  show "k \<notin> fst ` pending bw \<Longrightarrow> db_store db' k = db_store db k"
    using sub by (cases "map_of (bw_buffers bw ! i) k") (force simp: st map_add_def)+
qed

text \<open>What a step may do: it adds nothing pending and stores only what was pending.\<close>

definition settles :: "BatchWriter \<Rightarrow> ('e, 't) Db \<Rightarrow> BatchWriter \<Rightarrow> ('e, 't) Db \<Rightarrow> bool" where
  "settles bw db bw' db' \<longleftrightarrow> pending bw' \<subseteq> pending bw \<and>
    (\<forall>k v. db_store db' k = Some v \<longrightarrow> db_store db k = Some v \<or> (k, v) \<in> pending bw) \<and>
    (\<forall>k. k \<notin> fst ` pending bw \<longrightarrow> db_store db' k = db_store db k)"

lemma settles_refl: "pending bw' \<subseteq> pending bw \<Longrightarrow> settles bw db bw' db"
  by (simp add: settles_def)

lemma settles_flush:
  assumes "bw_wf bw" and "db_ok db" and "iter_order ord" and "i < nat (bw_workers bw)"
    and "flush ord bw db i = (bw', db', err)" and "pending bw \<subseteq> pending bw0"
  shows "settles bw0 db bw' db'"
proof -
  have "k \<notin> fst ` pending bw" if "k \<notin> fst ` pending bw0" for k using that assms(6) by blast
  then show ?thesis
    unfolding settles_def using pending_flush [OF assms(1-5)] assms(6) by blast
qed

lemma settles_step:
  assumes "bw_step s ev err s'" and "worker_event ev" and "bw_wf (fst s)" and "db_ok (snd s)"
  shows "settles (fst s) (snd s) (fst s') (snd s')"
  using assms
proof (cases rule: bw_step.cases)
  case (step_recv i bw ord db bw' db')
  have wf: "bw_wf bw" and ok: "db_ok db" using assms(3,4) step_recv by simp_all
  have i: "i < nat (bw_workers bw)" using step_recv wf by (simp add: bw_wfD)
  have ch: "bw_channels bw ! i \<noteq> []" using step_recv by (auto simp: worker_recv_eq)
  note sub = pending_buffered [OF wf i ch] and wf' = bw_wf_buffered [OF wf i ch]
  show ?thesis
  proof (cases "flush ord (buffered bw i) db i = (bw', db', err)")
    case True
    then have "settles bw db bw' db'" using settles_flush [OF wf' ok] step_recv i sub by simp
    then show ?thesis by (simp add: step_recv)
  next
    case False
    then have "bw' = buffered bw i" "db' = db" using step_recv ch by (auto simp: worker_recv_eq split: if_splits)
    then show ?thesis using settles_refl [OF sub] by (simp add: step_recv)
  qed
next
  case (step_tick i bw ord db bw' db')
  then show ?thesis
    using assms settles_flush [of bw db ord i bw' db' err bw] by (simp add: worker_tick_def bw_wfD)
next
  case (step_stop i bw ord db bw' db')
  obtain bw1 where fl: "flush ord bw db i = (bw1, db', err)" and bw': "bw' = bw1\<lparr>bw_running := (bw_running bw1)[i := False]\<rparr>"
    using step_stop by (auto simp: worker_stop_def split: if_splits prod.split_asm)
  then have "settles bw db bw1 db'"
    using assms settles_flush [OF _ _ _ _ fl, of bw] step_stop by (simp add: bw_wfD)
  then show ?thesis by (simp add: step_stop bw' settles_def)
next
  case (step_flush_and_stop bw bw' db)
  then show ?thesis by (auto simp: FlushAndStop_def go_bind_Ret_iff intro: settles_refl)
qed simp_all

section \<open>The invariant of the system\<close>

text \<open>The writes accepted over the transports whose handlers hold the pointer \<open>p\<close>.\<close>

definition via ::
    "('e, 't, 'g, 'c, 'l) FDB \<Rightarrow> (TransportType \<Rightarrow> nat) \<Rightarrow> (sys_event \<times> bytes list) list \<Rightarrow> nat \<Rightarrow>
     (bytes \<times> bytes) set" where
  "via fdb ptr evs p = {(k, v). \<exists>ty. ptr ty = p \<and> (ty, k, v) \<in> set (sys_writes fdb evs)}"

definition sys_inv ::
    "('e, 't, 'g, 'c, 'l) FDB \<Rightarrow> TransportType set \<Rightarrow> (TransportType \<Rightarrow> nat) \<Rightarrow> ('e, 't) Db \<Rightarrow>
     (sys_event \<times> bytes list) list \<Rightarrow> ('e, 't) hworld \<Rightarrow> bool" where
  "sys_inv fdb tys ptr db evs w \<longleftrightarrow>
     world_ok w \<and> length (w_writers w) = length (fdb_writers fdb) \<and>
     (\<forall>(ty, k, v) \<in> set (sys_writes fdb evs). ty \<in> tys) \<and>
     (\<forall>p < length (w_writers w). pending (w_writers w ! p) \<subseteq> via fdb ptr evs p) \<and>
     (\<forall>k v. db_store (w_db w) k = Some v \<longrightarrow>
        db_store db k = Some v \<or> (\<exists>ty. (ty, k, v) \<in> set (sys_writes fdb evs)))"

lemma sys_inv_pending:
  "sys_inv fdb tys ptr db evs w \<Longrightarrow> p < length (w_writers w) \<Longrightarrow> pending (w_writers w ! p) \<subseteq> via fdb ptr evs p"
  by (simp add: sys_inv_def)

lemma sys_inv_store:
  "sys_inv fdb tys ptr db evs w \<Longrightarrow> db_store (w_db w) k = Some v \<Longrightarrow>
   db_store db k = Some v \<or> (\<exists>ty. (ty, k, v) \<in> set (sys_writes fdb evs))"
  by (simp add: sys_inv_def)

lemma via_mono: "set (sys_writes fdb evs) \<subseteq> set (sys_writes fdb evs') \<Longrightarrow> via fdb ptr evs p \<subseteq> via fdb ptr evs' p"
  by (auto simp: via_def)

text \<open>A received frame either changes nothing or is one accepted write.\<close>

lemma sys_receive_cases:
  assumes "sys_wired fdb tys ptr" and "sys_step fdb tys w (Receive ty f) rs err w'"
  obtains (none) "event_write fdb (Receive ty f, rs) = None" "w' = w" "err = None"
  | (one) k v where "event_write fdb (Receive ty f, rs) = Some (ty, k, v)" "is_key k" "rs = [[0]]"
      "writer_BufferWrite (ptr ty) k v w = Ret w'" "ty \<in> tys" "ptr ty < length (fdb_writers fdb)" "err = None"
proof -
  obtain tr where ty: "ty \<in> tys" and tr: "tm_contents (fdb_tm fdb) ty = Some tr"
    and rc: "Transport_receive tr w f = Ret (w', rs)" and err: "err = None"
    using assms(2) by (rule sys_receiveE)
  have wired: "transport_wired tr (ptr ty)" "quic_actions tr" "ptr ty < length (fdb_writers fdb)"
    using assms(1) ty tr by (auto simp: sys_wired_def)
  note eff = receive_effect [OF wired(1,2) rc]
  show thesis
  proof (cases "frame_write tr f")
    case None
    then show thesis using none eff tr err by simp
  next
    case (Some kv)
    obtain k v where "kv = (k, v)" by (cases kv)
    then show thesis using one [of k v] eff tr Some ty wired(3) err by simp
  qed
qed

lemma sys_inv_step:
  assumes wired: "sys_wired fdb tys ptr" and inv: "sys_inv fdb tys ptr db evs w"
    and step: "sys_step fdb tys w ev rs err w'"
  shows "sys_inv fdb tys ptr db (evs @ [(ev, rs)]) w'"
proof (cases ev)
  case (Receive ty f)
  note wr = sys_writes_snoc [of fdb evs "(ev, rs)"]
  show ?thesis
    using wired step [unfolded Receive]
  proof (cases rule: sys_receive_cases)
    case none
    then show ?thesis using inv wr by (simp add: sys_inv_def via_def Receive)
  next
    case (one k v)
    have wr': "sys_writes fdb (evs @ [(ev, rs)]) = sys_writes fdb evs @ [(ty, k, v)]"
      using wr one(1) by (simp add: Receive)
    have ok: "world_ok w" and p: "ptr ty < length (w_writers w)" using inv one(6) by (auto simp: sys_inv_def)
    obtain bw' where bw': "BufferWrite (w_writers w ! ptr ty) k v = Ret bw'"
      and w': "w' = w\<lparr>w_writers := (w_writers w)[ptr ty := bw']\<rparr>"
      using writer_BufferWrite_cases [OF one(4)] .
    have mono: "via fdb ptr evs q \<subseteq> via fdb ptr (evs @ [(ev, rs)]) q" for q
      by (rule via_mono) (auto simp: wr')
    have "pending (w_writers w' ! q) \<subseteq> via fdb ptr (evs @ [(ev, rs)]) q" if "q < length (w_writers w)" for q
    proof (cases "q = ptr ty")
      case True
      have "pending bw' \<subseteq> insert (k, v) (via fdb ptr evs q)"
        using pending_write [OF bw'] sys_inv_pending [OF inv that] True by blast
      moreover have "(k, v) \<in> via fdb ptr (evs @ [(ev, rs)]) q" by (auto simp: via_def wr' True)
      ultimately show ?thesis using mono [of q] p True by (auto simp: w')
    next
      case False
      then show ?thesis using sys_inv_pending [OF inv that] mono [of q] by (simp add: w')
    qed
    moreover have "db_store db k' = Some v' \<or> (\<exists>ty. (ty, k', v') \<in> set (sys_writes fdb (evs @ [(ev, rs)])))"
      if "db_store (w_db w) k' = Some v'" for k' v'
      using sys_inv_store [OF inv that] by (auto simp: wr')
    ultimately show ?thesis
      using writer_BufferWrite_ok(1,2,3) [OF ok p one(2,4)] inv one(5)
      unfolding sys_inv_def by (simp add: wr')
  qed
next
  case (Work p bev)
  have wr: "sys_writes fdb (evs @ [(ev, rs)]) = sys_writes fdb evs"
    by (simp add: sys_writes_snoc Work)
  obtain bw' db' where p: "p < length (w_writers w)" and ev: "worker_event bev"
    and st: "bw_step (w_writers w ! p, w_db w) bev err (bw', db')"
    and w': "w' = w\<lparr>w_db := db', w_writers := (w_writers w)[p := bw']\<rparr>"
    using step [unfolded Work] by (rule sys_workE)
  have ok: "bw_inv (w_writers w ! p)" "db_ok (w_db w)"
    using inv p by (auto simp: sys_inv_def dest: world_okD)
  then have se: "settles (w_writers w ! p) (w_db w) bw' db'"
    using settles_step [OF st ev] by (simp add: bw_inv_def)
  have "world_ok w'"
    using inv bw_inv_step [OF st] db_ok_step [OF st] ok set_update_subset_insert [of "w_writers w" p bw']
    by (auto simp: world_ok_def w' sys_inv_def)
  moreover have "pending (w_writers w' ! q) \<subseteq> via fdb ptr evs q" if "q < length (w_writers w)" for q
    using sys_inv_pending [OF inv that] se p unfolding settles_def by (cases "q = p") (auto simp: w')
  moreover have "db_store db k = Some v \<or> (\<exists>ty. (ty, k, v) \<in> set (sys_writes fdb evs))"
    if "db_store db' k = Some v" for k v
    using se that sys_inv_store [OF inv] sys_inv_pending [OF inv p] unfolding settles_def via_def by blast
  ultimately show ?thesis
    using inv by (auto simp: sys_inv_def wr via_def w')
qed

lemma sys_inv_init:
  assumes "world_ok (sys_world fdb db)" and "\<forall>bw \<in> set (fdb_writers fdb). fresh_writer bw"
  shows "sys_inv fdb tys ptr db [] (sys_world fdb db)"
  using assms pending_quiescent by (auto simp: sys_inv_def sys_world_def fresh_writer_def)

lemma sys_inv_run:
  assumes "sys_run fdb tys w evs errs w'" and "sys_wired fdb tys ptr" and "sys_inv fdb tys ptr db [] w"
  shows "sys_inv fdb tys ptr db evs w'"
  using assms by (induction rule: sys_run.induct) (auto intro: sys_inv_step)

section \<open>Keys written over one transport\<close>

text \<open>The specification: the accepted writes, in order, applied to the initial contents.\<close>

definition apply_writes ::
    "(bytes \<rightharpoonup> bytes) \<Rightarrow> (TransportType \<times> bytes \<times> bytes) list \<Rightarrow> (bytes \<rightharpoonup> bytes)" where
  "apply_writes m ws = foldl (\<lambda>m (ty, k, v). m(k \<mapsto> v)) m ws"

lemma apply_writes_snoc: "apply_writes m (ws @ [(ty, k, v)]) = (apply_writes m ws)(k \<mapsto> v)"
  by (simp add: apply_writes_def)

definition owned :: "TransportType \<Rightarrow> bytes \<Rightarrow> (TransportType \<times> bytes \<times> bytes) list \<Rightarrow> bool" where
  "owned ty k ws \<longleftrightarrow> (\<forall>ty' v. (ty', k, v) \<in> set ws \<longrightarrow> ty' = ty)"

lemma owned_via:
  assumes "sys_wired fdb tys ptr" and "sys_inv fdb tys ptr db evs w" and "ty \<in> tys"
    and "owned ty k (sys_writes fdb evs)" and "q \<noteq> ptr ty"
  shows "k \<notin> fst ` via fdb ptr evs q"
  using assms by (fastforce simp: via_def owned_def)

lemma world_view_cong:
  "w_writers w' ! p = w_writers w ! p \<Longrightarrow> db_store (w_db w') k = db_store (w_db w) k \<Longrightarrow>
   world_view p w' k = world_view p w k"
  by (simp add: world_view_def bw_view_def map_add_def split: option.split)

lemma owned_view_step:
  assumes wired: "sys_wired fdb tys ptr" and inv: "sys_inv fdb tys ptr db evs w" and ty: "ty \<in> tys"
    and step: "sys_step fdb tys w ev rs None w'" and own: "owned ty k (sys_writes fdb (evs @ [(ev, rs)]))"
    and view: "world_view (ptr ty) w k = apply_writes m (sys_writes fdb evs) k"
  shows "world_view (ptr ty) w' k = apply_writes m (sys_writes fdb (evs @ [(ev, rs)])) k"
proof (cases ev)
  case (Receive ty' f)
  note wr = sys_writes_snoc [of fdb evs "(ev, rs)"]
  show ?thesis
    using wired step [unfolded Receive]
  proof (cases rule: sys_receive_cases)
    case none
    then show ?thesis using view wr by (simp add: Receive)
  next
    case (one k' v)
    have wr': "sys_writes fdb (evs @ [(ev, rs)]) = sys_writes fdb evs @ [(ty', k', v)]"
      using wr one(1) by (simp add: Receive)
    have ok: "world_ok w" and p: "ptr ty' < length (w_writers w)" using inv one(6) by (auto simp: sys_inv_def)
    note bw = writer_BufferWrite_ok [OF ok p one(2,4)]
    show ?thesis
    proof (cases "ptr ty = ptr ty'")
      case True
      then show ?thesis using bw(4) view by (simp add: wr' apply_writes_snoc)
    next
      case False
      then have "k' \<noteq> k" using own by (auto simp: wr' owned_def)
      then show ?thesis using bw(5) [OF False] view by (simp add: wr' apply_writes_snoc)
    qed
  qed
next
  case (Work p bev)
  have wr: "sys_writes fdb (evs @ [(ev, rs)]) = sys_writes fdb evs"
    by (simp add: sys_writes_snoc Work)
  obtain bw' db' where p: "p < length (w_writers w)" and ev: "worker_event bev"
    and st: "bw_step (w_writers w ! p, w_db w) bev None (bw', db')"
    and w': "w' = w\<lparr>w_db := db', w_writers := (w_writers w)[p := bw']\<rparr>"
    using step [unfolded Work] by (rule sys_workE)
  have ok: "bw_wf (w_writers w ! p)" "db_ok (w_db w)"
    using inv p by (auto simp: sys_inv_def bw_inv_def dest: world_okD)
  have "world_view (ptr ty) w' k = world_view (ptr ty) w k"
  proof (cases "p = ptr ty")
    case True
    have "spec_step m' bev = m'" for m' using ev by (cases bev) auto
    then show ?thesis
      using bw_step_refines [OF st] ok p True by (simp add: world_view_def w')
  next
    case False
    have "k \<notin> fst ` pending (w_writers w ! p)"
      using owned_via [OF wired inv ty, of k p] own False sys_inv_pending [OF inv p] by (auto simp: wr)
    then have "db_store db' k = db_store (w_db w) k"
      using settles_step [OF st ev] ok by (simp add: settles_def)
    then show ?thesis using False by (intro world_view_cong) (simp_all add: w')
  qed
  then show ?thesis using view by (simp add: wr)
qed

lemma owned_view:
  assumes "sys_run fdb tys w evs errs w'" and "errs = []" and "sys_wired fdb tys ptr"
    and "sys_inv fdb tys ptr db [] w" and "ty \<in> tys" and "owned ty k (sys_writes fdb evs)"
    and "world_view (ptr ty) w k = m k"
  shows "world_view (ptr ty) w' k = apply_writes m (sys_writes fdb evs) k"
  using assms
proof (induction rule: sys_run.induct)
  case (sys_nil w)
  then show ?case by (simp add: apply_writes_def)
next
  case (sys_snoc w evs errs w' ev rs err w'')
  have err: "err = None" "errs = []" using sys_snoc.prems(1) by (auto split: option.splits)
  have own: "owned ty k (sys_writes fdb evs)"
    using sys_snoc.prems(5) by (auto simp: owned_def sys_writes_snoc split: option.splits)
  have inv: "sys_inv fdb tys ptr db evs w'" using sys_inv_run [OF sys_snoc.hyps(1)] sys_snoc.prems by blast
  show ?case
    by (rule owned_view_step [OF sys_snoc.prems(2) inv sys_snoc.prems(4) sys_snoc.hyps(2) [unfolded err(1)]
          sys_snoc.prems(5)]) (rule sys_snoc.IH [OF err(2) sys_snoc.prems(2-4) own sys_snoc.prems(6)])
qed

section \<open>Draining the system\<close>

lemma sys_run_trans:
  assumes "sys_run fdb tys w' evs' errs' w''" and "sys_run fdb tys w evs errs w'"
  shows "sys_run fdb tys w (evs @ evs') (errs @ errs') w''"
  using assms
proof (induction rule: sys_run.induct)
  case (sys_snoc w1 evs1 errs1 w2 ev rs err w3)
  then show ?case using sys_run.sys_snoc [OF sys_snoc.IH sys_snoc.hyps(2)] by simp
qed simp

lemma lift_bw_run:
  assumes "bw_run s evs errs s'" and "\<forall>k v. EWrite k v \<notin> set evs" and "p < length (w_writers w)"
    and "s = (w_writers w ! p, w_db w)"
  shows "sys_run fdb tys w (map (\<lambda>e. (Work p e, [])) evs) errs
    (w\<lparr>w_db := snd s', w_writers := (w_writers w)[p := fst s']\<rparr>)"
  using assms
proof (induction rule: bw_run.induct)
  case (run_nil s)
  then show ?case by (simp add: sys_nil)
next
  case (run_step s evs errs s' ev err s'')
  let ?w = "w\<lparr>w_db := snd s', w_writers := (w_writers w)[p := fst s']\<rparr>"
  have "worker_event ev" using run_step.prems(1) by (cases ev) auto
  moreover have "bw_step (w_writers ?w ! p, w_db ?w) ev err (fst s'', snd s'')"
    using run_step.hyps(2) run_step.prems(2) by simp
  ultimately have "sys_step fdb tys ?w (Work p ev) [] err
      (?w\<lparr>w_db := snd s'', w_writers := (w_writers ?w)[p := fst s'']\<rparr>)"
    using run_step.prems(2) by (intro sys_work) simp_all
  from sys_snoc [OF run_step.IH this] show ?case using run_step.prems by simp
qed

text \<open>Events of the workers alone.\<close>

definition workers_only :: "(sys_event \<times> bytes list) list \<Rightarrow> bool" where
  "workers_only evs \<longleftrightarrow> (\<forall>(e, rs) \<in> set evs. \<exists>p ev. e = Work p ev)"

lemma workers_only_simps [simp]:
  "workers_only []" "workers_only (evs @ evs') \<longleftrightarrow> workers_only evs \<and> workers_only evs'"
  "workers_only (map (\<lambda>e. (Work p e, [])) bevs)"
  by (simp_all add: workers_only_def ball_Un)

lemma workers_only_writes: "workers_only evs \<Longrightarrow> sys_writes fdb evs = []"
  by (induction evs) (auto simp: workers_only_def sys_writes_def map_filter_simps)

text \<open>One writer on its own: what it had accepted is stored over whatever the others stored.\<close>

lemma drain_writer:
  assumes "world_ok w" and "p < length (w_writers w)" and "accepting (db_mdbx (w_db w))"
    and "\<forall>i < nat (bw_workers (w_writers w ! p)). bw_running (w_writers w ! p) ! i"
  obtains evs bw' db' where
    "sys_run fdb tys w evs [] (w\<lparr>w_db := db', w_writers := (w_writers w)[p := bw']\<rparr>)" "workers_only evs"
    "quiescent bw'" "db_store db' = world_view p w" "db_mdbx db' = db_mdbx (w_db w)" "bw_inv bw'" "db_ok db'"
proof -
  have inv: "bw_inv (w_writers w ! p)" "db_ok (w_db w)" using world_okD [OF assms(1)] assms(2) by auto
  obtain evs bw' db' where d: "bw_run (w_writers w ! p, w_db w) evs [] (bw', db')" "\<forall>k v. EWrite k v \<notin> set evs"
    "quiescent bw'" "db_store db' = bw_view (w_writers w ! p) (w_db w)" "db_mdbx db' = db_mdbx (w_db w)"
    using writer_drains [OF inv assms(3,4)] by metis
  show thesis
    using that [OF _ workers_only_simps(3) d(3)] lift_bw_run [OF d(1,2) assms(2) refl, of fdb tys] d(4,5)
      bw_run_inv [OF d(1)] bw_run_db_ok [OF d(1)] inv by (simp add: world_view_def)
qed

text \<open>Two writers one after the other: the second one drained has the last word.\<close>

lemma drain_two:
  assumes "world_ok w" and "p < length (w_writers w)" and "q < length (w_writers w)" and "p \<noteq> q"
    and "accepting (db_mdbx (w_db w))"
    and "\<forall>i < nat (bw_workers (w_writers w ! p)). bw_running (w_writers w ! p) ! i"
    and "\<forall>i < nat (bw_workers (w_writers w ! q)). bw_running (w_writers w ! q) ! i"
  obtains evs bw1 bw2 db1 db2 where
    "sys_run fdb tys w evs [] (w\<lparr>w_db := db1, w_writers := (w_writers w)[q := bw2, p := bw1]\<rparr>)"
    "workers_only evs" "quiescent bw1" "quiescent bw2"
    "db_store db1 = bw_view (w_writers w ! p) db2" "db_mdbx db2 = db_mdbx (w_db w)"
proof -
  obtain evs2 bw2 db2 where d2:
    "sys_run fdb tys w evs2 [] (w\<lparr>w_db := db2, w_writers := (w_writers w)[q := bw2]\<rparr>)"
    "workers_only evs2" "quiescent bw2" "db_store db2 = world_view q w"
    "db_mdbx db2 = db_mdbx (w_db w)" "bw_inv bw2" "db_ok db2"
    using drain_writer [OF assms(1,3,5,7)] .
  let ?w2 = "w\<lparr>w_db := db2, w_writers := (w_writers w)[q := bw2]\<rparr>"
  have ok2: "world_ok ?w2"
    using assms(1) d2(6,7) set_update_subset_insert [of "w_writers w" q bw2] by (auto simp: world_ok_def)
  have w2: "w_writers ?w2 ! p = w_writers w ! p" "p < length (w_writers ?w2)" "accepting (db_mdbx (w_db ?w2))"
    using assms(2,4,5) d2(5) by simp_all
  obtain evs1 bw1 db1 where d1:
    "sys_run fdb tys ?w2 evs1 [] (?w2\<lparr>w_db := db1, w_writers := (w_writers ?w2)[p := bw1]\<rparr>)"
    "workers_only evs1" "quiescent bw1" "db_store db1 = world_view p ?w2"
    "db_mdbx db1 = db_mdbx (w_db ?w2)" "bw_inv bw1" "db_ok db1"
    by (rule drain_writer [OF ok2 w2(2,3)]) (use assms(6) w2(1) in simp)
  have "sys_run fdb tys w (evs2 @ evs1) [] (w\<lparr>w_db := db1, w_writers := (w_writers w)[q := bw2, p := bw1]\<rparr>)"
    using sys_run_trans [OF d1(1) d2(1)] by simp
  moreover have "workers_only (evs2 @ evs1)" using d1(2) d2(2) by simp
  ultimately show thesis using that [OF _ _ d1(3) d2(3)] d1(4) d2(5) w2(1) by (simp add: world_view_def)
qed

definition workers_run :: "('e, 't) hworld \<Rightarrow> bool" where
  "workers_run w \<longleftrightarrow> (\<forall>bw \<in> set (w_writers w). \<forall>i < nat (bw_workers bw). bw_running bw ! i)"

lemma sys_drain:
  assumes "n \<le> length (w_writers w)" and "world_ok w" and "workers_run w" and "accepting (db_mdbx (w_db w))"
  shows "\<exists>evs w'. sys_run fdb tys w evs [] w' \<and> workers_only evs \<and>
    (\<forall>p < n. quiescent (w_writers w' ! p)) \<and> length (w_writers w') = length (w_writers w) \<and>
    world_ok w' \<and> workers_run w' \<and> db_mdbx (w_db w') = db_mdbx (w_db w)"
  using assms(1)
proof (induction n)
  case 0
  then show ?case using assms by (intro exI [of _ "[]"] exI [of _ w]) (auto intro: sys_nil)
next
  case (Suc n)
  then obtain evs w1 where r: "sys_run fdb tys w evs [] w1" "workers_only evs"
    "\<forall>p < n. quiescent (w_writers w1 ! p)" "length (w_writers w1) = length (w_writers w)"
    "world_ok w1" "workers_run w1" "db_mdbx (w_db w1) = db_mdbx (w_db w)" by auto
  have n: "n < length (w_writers w1)" using Suc.prems r(4) by simp
  have inv: "bw_inv (w_writers w1 ! n)" "db_ok (w_db w1)" using world_okD [OF r(5)] n by auto
  have run: "\<forall>i < nat (bw_workers (w_writers w1 ! n)). bw_running (w_writers w1 ! n) ! i"
    using r(6) n by (auto simp: workers_run_def)
  obtain bevs bw' db' where d: "bw_run (w_writers w1 ! n, w_db w1) bevs [] (bw', db')"
    "\<forall>k v. EWrite k v \<notin> set bevs"
    "\<forall>i < nat (bw_workers (w_writers w1 ! n)). bw_channels bw' ! i = [] \<and> bw_buffers bw' ! i = []"
    "bw_running bw' = bw_running (w_writers w1 ! n)" "bw_workers bw' = bw_workers (w_writers w1 ! n)"
    "db_mdbx db' = db_mdbx (w_db w1)"
    using drain_workers [OF inv(1) run, of "w_db w1" "nat (bw_workers (w_writers w1 ! n))"] assms(4) r(7) by auto
  let ?w = "w1\<lparr>w_db := db', w_writers := (w_writers w1)[n := bw']\<rparr>" and ?evs = "map (\<lambda>e. (Work n e, [])) bevs"
  have "sys_run fdb tys w (evs @ ?evs) [] ?w"
    using sys_run_trans [OF lift_bw_run [OF d(1,2) n refl] r(1)] by simp
  moreover have "workers_only (evs @ ?evs)" using r(2) by simp
  moreover have "quiescent bw'" using d(3,5) by (simp add: quiescent_def)
  then have "\<forall>p < Suc n. quiescent (w_writers ?w ! p)" using r(3) n by (auto simp: less_Suc_eq)
  moreover have "world_ok ?w"
    using bw_run_inv [OF d(1)] bw_run_db_ok [OF d(1)] inv r(5) set_update_subset_insert [of "w_writers w1" n bw']
    by (auto simp: world_ok_def)
  moreover have "workers_run ?w"
    using r(6) run d(4,5) set_update_subset_insert [of "w_writers w1" n bw'] by (auto simp: workers_run_def)
  ultimately show ?case using r(4,7) d(6) by (intro exI [of _ "evs @ ?evs"] exI [of _ ?w]) simp
qed

section \<open>Reads\<close>

text \<open>The key a read of a transport asks for.\<close>

fun frame_read :: "('e, 't, 'g, 'c, 'l) AnyTransport \<Rightarrow> bytes \<Rightarrow> bytes option" where
  "frame_read (TrDummy s) f = None"
| "frame_read (TrQuic s) f =
     (case Decode f of
        Ret (Inr m) \<Rightarrow> if msg_Handler m = ReadHandlerType then Some (msg_Key m) else None
      | _ \<Rightarrow> None)"
| "frame_read (TrUds s) f = gnet_read f"
| "frame_read (TrTcp s) f = gnet_read f"
| "frame_read (TrUdp s) f = gnet_read f"

text \<open>What a read may answer; over QUIC the value follows its length.\<close>

definition answers :: "('e, 't) Db \<Rightarrow> bytes \<Rightarrow> bytes list \<Rightarrow> bool" where
  "answers db k rs \<longleftrightarrow> rs \<noteq> [] \<and>
     (last rs = read_error \<or> last rs = no_value \<or> db_store db k = Some (last rs))"

lemma answers_read_reply: "db_ok db \<Longrightarrow> answers db k [read_reply db k]"
  by (rule Db_Get_cases [of db k]) (auto simp: answers_def read_reply_def)

lemma answers_quic: "db_ok db \<Longrightarrow> msg_Handler m \<noteq> WriteHandlerType \<Longrightarrow> answers db (msg_Key m) (quic_reply db m)"
  by (rule Db_Get_cases [of db "msg_Key m"]) (auto simp: answers_def quic_reply_def)

lemma receive_read:
  assumes "transport_wired tr p" and "db_ok (w_db w)" and "Transport_receive tr w f = Ret (w', rs)"
    and "frame_read tr f = Some k"
  shows "answers (w_db w) k rs"
proof (cases tr)
  case (TrQuic s)
  obtain m where m: "Decode f = Ret (Inr m)" "msg_Handler m = ReadHandlerType" "k = msg_Key m"
    using assms(4) by (auto simp: TrQuic split: go.split_asm sum.split_asm if_splits)
  have "rs = quic_reply (w_db w) m"
    using assms(1,3) m quic_read_handler_out [of "\<lparr>st_results = [], st_out = []\<rparr>" m w] by (auto simp: TrQuic)
  then show ?thesis using answers_quic [OF assms(2), of m] m by simp
next
  case (TrTcp s)
  then show ?thesis
    using tcpkv.serve_gnet_read [of s f k w] assms answers_read_reply by auto
next
  case (TrUdp s)
  then show ?thesis
    using udpkv.serve_gnet_read [of s f k w] assms answers_read_reply by auto
next
  case (TrUds s)
  then show ?thesis
    using udskv.serve_gnet_read [of s f k w] assms answers_read_reply by auto
qed (use assms in simp)

section \<open>Keys with one owner\<close>

lemma owned_stored:
  assumes "launched se ne cnf tys fdb db" and "db_ok db"
    and "sys_run fdb (set tys) (sys_world fdb db) evs [] w"
    and "ty \<in> set tys" and "owned ty k (sys_writes fdb evs)"
    and "\<forall>bw \<in> set (w_writers w). quiescent bw"
  shows "db_store (w_db w) k = apply_writes (db_store db) (sys_writes fdb evs) k"
proof -
  obtain ptr where l: "sys_wired fdb (set tys) ptr" "world_ok (sys_world fdb db)"
    "\<forall>bw \<in> set (fdb_writers fdb). fresh_writer bw" using launched_wired [OF assms(1,2)] .
  have p: "ptr ty < length (fdb_writers fdb)" using l(1) assms(4) by (simp add: sys_wired_def)
  note init = sys_inv_init [OF l(2,3), of "set tys" ptr]
  have view: "world_view q u = db_store (w_db u)"
    if "world_ok u" and "q < length (w_writers u)" and "quiescent (w_writers u ! q)" for q u
    using that(3) world_okD(2) [OF that(1,2)] by (simp add: world_view_def bw_inv_def quiescent_view)
  have "world_view (ptr ty) (sys_world fdb db) = db_store db"
    using view [OF l(2), of "ptr ty"] p l(3) by (simp add: sys_world_def fresh_writer_def)
  then have "world_view (ptr ty) w k = apply_writes (db_store db) (sys_writes fdb evs) k"
    using owned_view [OF assms(3) refl l(1) init assms(4,5)] by simp
  moreover have "world_ok w" "ptr ty < length (w_writers w)"
    using sys_inv_run [OF assms(3) l(1) init] p by (auto simp: sys_inv_def)
  ultimately show ?thesis using view [of w "ptr ty"] assms(6) by simp
qed

lemma two_steps:
  assumes "sys_run fdb tys w [(e1, r1), (e2, r2)] [] w2"
  obtains w1 where "sys_step fdb tys w e1 r1 None w1" "sys_step fdb tys w1 e2 r2 None w2"
proof -
  have "sys_run fdb tys w ([(e1, r1)] @ [(e2, r2)]) [] w2" using assms by simp
  then obtain w1 where "sys_run fdb tys w ([] @ [(e1, r1)]) [] w1" "sys_step fdb tys w1 e2 r2 None w2"
    by (rule sys_run_snocE) (auto split: option.split_asm)
  moreover from this(1) have "sys_step fdb tys w e1 r1 None w1"
    by (rule sys_run_snocE) (auto split: option.split_asm elim: sys_run_NilE)
  ultimately show thesis using that by blast
qed

lemma sys_receive_write:
  assumes "sys_wired fdb tys ptr" and "sys_step fdb tys w (Receive ty f) rs err w'"
    and "event_write fdb (Receive ty f, rs) = Some (ty, k, v)"
  shows "\<exists>bw'. is_key k \<and> BufferWrite (w_writers w ! ptr ty) k v = Ret bw' \<and> rs = [[0]] \<and> ty \<in> tys \<and>
    ptr ty < length (fdb_writers fdb) \<and> w' = w\<lparr>w_writers := (w_writers w)[ptr ty := bw']\<rparr>"
  using assms(1,2)
proof (cases rule: sys_receive_cases)
  case none
  then show ?thesis using assms(3) by simp
next
  case (one k' v')
  then show ?thesis using assms(3) by (auto elim: writer_BufferWrite_cases)
qed

lemma launched_drain:
  assumes "launched se ne cnf tys fdb db" and "db_ok db"
    and "sys_run fdb (set tys) (sys_world fdb db) evs [] w"
    and "workers_run w" and "accepting (db_mdbx (w_db w))"
  shows "\<exists>evs' w'. sys_run fdb (set tys) w evs' [] w' \<and> workers_only evs' \<and>
    (\<forall>bw \<in> set (w_writers w'). quiescent bw)"
proof -
  obtain ptr where l: "sys_wired fdb (set tys) ptr" "world_ok (sys_world fdb db)"
    "\<forall>bw \<in> set (fdb_writers fdb). fresh_writer bw" using launched_wired [OF assms(1,2)] .
  have ok: "world_ok w"
    using sys_inv_run [OF assms(3) l(1) sys_inv_init [OF l(2,3)]] by (simp add: sys_inv_def)
  obtain evs' w' where d: "sys_run fdb (set tys) w evs' [] w'" "workers_only evs'"
    "\<forall>p < length (w_writers w). quiescent (w_writers w' ! p)" "length (w_writers w') = length (w_writers w)"
    using sys_drain [OF order_refl ok assms(4,5)] by metis
  then have "\<forall>bw \<in> set (w_writers w'). quiescent bw" by (auto simp: in_set_conv_nth)
  with d(1,2) show ?thesis by blast
qed

section \<open>Stopping\<close>

text \<open>\<open>Stop\<close> touches the transports only.\<close>

lemma FDB_Stop_frame:
  "FDB_Stop sp fdb tys = Ret (r, fdb') \<Longrightarrow>
   fdb_writers fdb' = fdb_writers fdb \<and> fdb_dbManager fdb' = fdb_dbManager fdb"
proof (induction tys arbitrary: fdb)
  case (Cons ty tys)
  then show ?case
    by (fastforce simp: go_bind_Ret_iff Let_def set_transport_def split: sum.splits option.splits prod.splits)
qed simp

lemma pending_accepted:
  assumes "BufferWrite bw k v = Ret bw'" and "bw_wf bw"
  shows "insert (k, v) (pending bw) \<subseteq> pending bw'"
proof -
  let ?i = "workerID bw k"
  have bw': "bw' = bw\<lparr>bw_channels := (bw_channels bw)[?i := bw_channels bw ! ?i @ [\<lparr>req_Key = k, req_Value = v\<rparr>]]\<rparr>"
    by (rule BufferWrite_Ret(1) [OF assms(1)])
  have i: "?i < nat (bw_workers bw)" "?i < length (bw_channels bw)"
    using assms(2) by (simp_all add: bw_wfD workerID_less)
  have "set (bw_channels bw ! j) \<subseteq> set (bw_channels bw' ! j)" for j by (auto simp: bw' nth_update_if)
  then have "pending bw \<subseteq> pending bw'" by (fastforce simp: pending_def bw')
  moreover have "(k, v) \<in> pending bw'" using i by (auto simp: pending_def bw' intro!: exI [of _ ?i])
  ultimately show ?thesis by blast
qed

text \<open>As long as no worker has taken a step, every accepted write waits in the channel of a worker.\<close>

definition all_pending ::
    "('e, 't, 'g, 'c, 'l) FDB \<Rightarrow> (sys_event \<times> bytes list) list \<Rightarrow> ('e, 't) hworld \<Rightarrow> bool" where
  "all_pending fdb evs w \<longleftrightarrow>
     (\<forall>(ty, k, v) \<in> set (sys_writes fdb evs). \<exists>p < length (w_writers w). (k, v) \<in> pending (w_writers w ! p))"

lemma receive_run_pending:
  assumes "sys_run fdb tys w evs errs w'" and "\<forall>(e, rs) \<in> set evs. \<exists>ty f. e = Receive ty f"
    and "sys_wired fdb tys ptr" and "sys_inv fdb tys ptr db [] w"
  shows "w_db w' = w_db w \<and> all_pending fdb evs w' \<and>
    (\<forall>(e, rs) \<in> set evs. event_write fdb (e, rs) \<noteq> None \<longrightarrow> rs = [[0]])"
  using assms
proof (induction rule: sys_run.induct)
  case (sys_nil w)
  then show ?case by (simp add: all_pending_def)
next
  case (sys_snoc w evs errs w1 ev rs err w2)
  have IH: "w_db w1 = w_db w" "all_pending fdb evs w1"
    "\<forall>(e, rs) \<in> set evs. event_write fdb (e, rs) \<noteq> None \<longrightarrow> rs = [[0]]" using sys_snoc by simp_all
  have inv: "sys_inv fdb tys ptr db evs w1" by (rule sys_inv_run [OF sys_snoc.hyps(1) sys_snoc.prems(2,3)])
  obtain ty f where ev: "ev = Receive ty f" using sys_snoc.prems(1) by auto
  note wr = sys_writes_snoc [of fdb evs "(ev, rs)"]
  show ?case
    using sys_snoc.prems(2) sys_snoc.hyps(2) [unfolded ev]
  proof (cases rule: sys_receive_cases)
    case none
    then show ?thesis using IH wr by (simp add: all_pending_def ev)
  next
    case (one k v)
    have p: "ptr ty < length (w_writers w1)" using inv one by (simp add: sys_inv_def)
    obtain bw' where bw': "BufferWrite (w_writers w1 ! ptr ty) k v = Ret bw'"
      and w2: "w2 = w1\<lparr>w_writers := (w_writers w1)[ptr ty := bw']\<rparr>"
      using one by (auto simp: writer_BufferWrite_def go_bind_Ret_iff)
    have "world_ok w1" using inv by (simp add: sys_inv_def)
    from world_okD(2) [OF this p] have "bw_wf (w_writers w1 ! ptr ty)" by (simp add: bw_inv_def)
    note new = pending_accepted [OF bw' this]
    have keep: "pending (w_writers w1 ! q) \<subseteq> pending (w_writers w2 ! q)" for q
      using new p by (auto simp: w2 nth_update_if)
    have "(k, v) \<in> pending (w_writers w2 ! ptr ty)" using new p by (simp add: w2)
    then show ?thesis
      using IH wr one p keep by (fastforce simp: all_pending_def ev w2)
  qed
qed

section \<open>A concrete instance\<close>

text \<open>The sample configuration with its TCP and UDP transports started, and a write over each.\<close>

definition both :: "TransportType list" where
  "both = [TCPTransportType, UDPTransportType]"

lemma set_both [simp]: "TCPTransportType \<in> set both" "UDPTransportType \<in> set both"
  by (simp_all add: both_def)

definition put_frame :: "bytes \<Rightarrow> bytes" where
  "put_frame v = WriteHandlerType # sample_key @ v"

lemma gnet_write_put: "v \<noteq> [] \<Longrightarrow> gnet_write (put_frame v) = Some (sample_key, v)"
  by (cases v) (simp_all add: gnet_write_def put_frame_def)

lemma sample_launch:
  "\<exists>(fdb :: (mem_store, mem_store, unit, unit, unit) FDB) s u. launched sample_start sample_env sample_config both fdb (mem_db None []) \<and>
     tm_contents (fdb_tm fdb) TCPTransportType = Some (TrTcp s) \<and>
     tm_contents (fdb_tm fdb) UDPTransportType = Some (TrUdp u)"
proof -
  obtain bw where bw: "NewBatchWriter 512 500000000 15 = Ret bw" using writer_of_registry by blast
  have "\<exists>fdb s u. start_transports sample_start sample_fdb both = Ret (None, [], fdb) \<and>
     tm_contents (fdb_tm fdb) TCPTransportType = Some (TrTcp s) \<and>
     tm_contents (fdb_tm fdb) UDPTransportType = Some (TrUdp u)"
    using bw by (simp add: both_def tRegistry_def tRegistry_tcp_def tRegistry_udp_def sample_fdb_def GetTransportByType_def
        GetTransport_def Let_def set_transport_def Tcp_Start_def Udp_Start_def sample_start_def chan_defs
        transport_types tm_contents_def)
  moreover have "GetDb (fdb_dbManager sample_fdb) ''fdb'' = Inr (mem_db None [])"
    by (simp add: GetDb_def sample_fdb_def)
  ultimately show ?thesis unfolding launched_def using sample_New by blast
qed

lemma fresh_BufferWrite:
  assumes "bw_inv bw" and "fresh_writer bw"
  obtains bw' where "BufferWrite bw k v = Ret bw'"
  using assms workerID_less [of bw k] by (auto simp: BufferWrite_def Let_def bw_inv_def bw_wf_def fresh_writer_def quiescent_def)

lemma fresh_write_runs:
  assumes "BufferWrite bw k v = Ret bw'" and "fresh_writer bw"
  shows "\<forall>i < nat (bw_workers bw'). bw_running bw' ! i"
  using assms(2) by (simp add: BufferWrite_Ret(1) [OF assms(1)] fresh_writer_def)

text \<open>A write over a transport of a state in which its writer is new.\<close>

lemma put_step:
  assumes "sys_wired fdb tys ptr" and "ty \<in> tys" and "tm_contents (fdb_tm fdb) ty = Some tr"
    and "(\<exists>s. tr = TrTcp s) \<or> (\<exists>u. tr = TrUdp u)" and "v \<noteq> []"
    and "bw_inv (w_writers w ! ptr ty)" and "fresh_writer (w_writers w ! ptr ty)"
  obtains bw' where "sys_step fdb tys w (Receive ty (put_frame v)) [[0]] None
      (w\<lparr>w_writers := (w_writers w)[ptr ty := bw']\<rparr>)"
    "event_write fdb (Receive ty (put_frame v), [[0]]) = Some (ty, sample_key, v)"
    "\<forall>i < nat (bw_workers bw'). bw_running bw' ! i"
proof -
  obtain bw' where bw': "BufferWrite (w_writers w ! ptr ty) sample_key v = Ret bw'"
    using fresh_BufferWrite [OF assms(6,7)] .
  have wired: "transport_wired tr (ptr ty)" using assms(1-3) by (auto simp: sys_wired_def)
  note g = gnet_write_put [OF assms(5)]
  have "writer_BufferWrite (ptr ty) sample_key v w = Ret (w\<lparr>w_writers := (w_writers w)[ptr ty := bw']\<rparr>)"
    by (simp add: writer_BufferWrite_def bw')
  then have "Transport_receive tr w (put_frame v) = Ret (w\<lparr>w_writers := (w_writers w)[ptr ty := bw']\<rparr>, [[0]])"
    using assms(4) wired by (auto simp: tcpkv.serve_gnet_write [OF _ g] udpkv.serve_gnet_write [OF _ g])
  moreover have "event_write fdb (Receive ty (put_frame v), [[0]]) = Some (ty, sample_key, v)"
    using assms(3,4) g by auto
  ultimately show thesis
    using that [OF sys_receive [OF assms(2,3)]] fresh_write_runs [OF bw' assms(7)] by blast
qed

text \<open>The instance after a write over TCP, and after another one over UDP.\<close>

lemma sample_writes:
  obtains fdb :: "(mem_store, mem_store, unit, unit, unit) FDB" and s and w w' :: "(mem_store, mem_store) hworld" where
    "launched sample_start sample_env sample_config both fdb (mem_db None [])"
    "sys_run fdb (set both) (sys_world fdb (mem_db None []))
       [(Receive TCPTransportType (put_frame [1]), [[0]])] [] w"
    "sys_writes fdb [(Receive TCPTransportType (put_frame [1]), [[0]])] = [(TCPTransportType, sample_key, [1])]"
    "workers_run w" "w_db w = mem_db None []"
    "sys_run fdb (set both) (sys_world fdb (mem_db None []))
       [(Receive TCPTransportType (put_frame [1]), [[0]]), (Receive UDPTransportType (put_frame [2]), [[0]])] [] w'"
    "sys_writes fdb [(Receive TCPTransportType (put_frame [1]), [[0]]), (Receive UDPTransportType (put_frame [2]), [[0]])] =
       [(TCPTransportType, sample_key, [1]), (UDPTransportType, sample_key, [2])]"
    "tm_contents (fdb_tm fdb) TCPTransportType = Some (TrTcp s)" "Tcp_handler s ReadHandlerType = Some TCPReadHandler_HandleMessage"
proof -
  let ?tys = "set both"
  obtain fdb :: "(mem_store, mem_store, unit, unit, unit) FDB" and s u where
    l: "launched sample_start sample_env sample_config both fdb (mem_db None [])"
    and tr: "tm_contents (fdb_tm fdb) TCPTransportType = Some (TrTcp s)"
      "tm_contents (fdb_tm fdb) UDPTransportType = Some (TrUdp u)"
    using sample_launch by blast
  let ?w0 = "sys_world fdb (mem_db None [])"
  obtain ptr where p: "sys_wired fdb ?tys ptr" "world_ok ?w0" "\<forall>bw \<in> set (fdb_writers fdb). fresh_writer bw"
    using launched_wired [OF l mem_db_ok] .
  have lt: "ptr ty < length (fdb_writers fdb)" if "ty \<in> ?tys" for ty using p(1) that by (auto simp: sys_wired_def)
  have neq: "ptr TCPTransportType \<noteq> ptr UDPTransportType"
    using p(1) by (auto simp: sys_wired_def both_def transport_types)
  have fresh: "bw_inv (fdb_writers fdb ! ptr ty)" "fresh_writer (fdb_writers fdb ! ptr ty)" if "ty \<in> ?tys" for ty
    using world_okD(2) [OF p(2), of "ptr ty"] p(3) lt [OF that] by (simp_all add: sys_world_def)
  obtain bw1 where s1: "sys_step fdb ?tys ?w0 (Receive TCPTransportType (put_frame [1])) [[0]] None
      (?w0\<lparr>w_writers := (w_writers ?w0)[ptr TCPTransportType := bw1]\<rparr>)"
    "event_write fdb (Receive TCPTransportType (put_frame [1]), [[0]]) = Some (TCPTransportType, sample_key, [1])"
    "\<forall>i < nat (bw_workers bw1). bw_running bw1 ! i"
    by (rule put_step [OF p(1) _ tr(1), of "[1]" ?w0]) (use fresh in \<open>simp_all add: sys_world_def\<close>)
  let ?w1 = "?w0\<lparr>w_writers := (w_writers ?w0)[ptr TCPTransportType := bw1]\<rparr>"
  obtain bw2 where s2: "sys_step fdb ?tys ?w1 (Receive UDPTransportType (put_frame [2])) [[0]] None
      (?w1\<lparr>w_writers := (w_writers ?w1)[ptr UDPTransportType := bw2]\<rparr>)"
    "event_write fdb (Receive UDPTransportType (put_frame [2]), [[0]]) = Some (UDPTransportType, sample_key, [2])"
    by (rule put_step [OF p(1) _ tr(2), of "[2]" ?w1]) (use fresh neq in \<open>simp_all add: sys_world_def\<close>)
  have r1: "sys_run fdb ?tys ?w0 [(Receive TCPTransportType (put_frame [1]), [[0]])] [] ?w1"
    using sys_snoc [OF sys_nil s1(1)] by simp
  have run: "workers_run ?w1"
    using p(3) s1(3) set_update_subset_insert [of "fdb_writers fdb" "ptr TCPTransportType" bw1]
    by (auto simp: workers_run_def sys_world_def fresh_writer_def)
  have rh: "Tcp_handler s ReadHandlerType = Some TCPReadHandler_HandleMessage"
    using sys_wiredD(2) [OF p(1) set_both(1) tr(1)] by simp
  show thesis
    by (rule that [OF l r1 _ run _ _ _ tr(1) rh, where w' = "?w1\<lparr>w_writers := (w_writers ?w1)[ptr UDPTransportType := bw2]\<rparr>"])
      (use sys_snoc [OF r1 s2(1)] s1(2) s2(2) in \<open>simp_all add: sys_world_def sys_writes_def map_filter_simps\<close>)
qed

section \<open>Properties\<close>









text \<open>Two writes over different transports, as they are found in the state.\<close>

lemma two_receives:
  assumes "launched se ne cnf tys fdb db" and "db_ok db"
    and "sys_run fdb (set tys) (sys_world fdb db) [(Receive ty1 f1, r1), (Receive ty2 f2, r2)] [] w"
    and "sys_writes fdb [(Receive ty1 f1, r1), (Receive ty2 f2, r2)] = [(ty1, k, v1), (ty2, k, v2)]"
    and "ty1 \<noteq> ty2" and "ws = fdb_writers fdb"
  obtains p1 p2 bw1 bw2 where "p1 \<noteq> p2" "p1 < length ws" "p2 < length ws" "is_key k" "r1 = [[0]]" "r2 = [[0]]"
    "BufferWrite (ws ! p1) k v1 = Ret bw1" "BufferWrite (ws ! p2) k v2 = Ret bw2"
    "w = \<lparr>w_db = db, w_writers = ws[p1 := bw1, p2 := bw2]\<rparr>" "world_ok w" "bw_inv (ws ! p1)"
    "\<forall>bw \<in> set ws. fresh_writer bw"
proof -
  obtain ptr where l: "sys_wired fdb (set tys) ptr" "world_ok (sys_world fdb db)"
    "\<forall>bw \<in> set ws. fresh_writer bw" using launched_wired [OF assms(1,2)] assms(6) by metis
  let ?p1 = "ptr ty1" and ?p2 = "ptr ty2"
  obtain w1 where s1: "sys_step fdb (set tys) (sys_world fdb db) (Receive ty1 f1) r1 None w1"
    and s2: "sys_step fdb (set tys) w1 (Receive ty2 f2) r2 None w"
    using two_steps [OF assms(3)] .
  have ev: "event_write fdb (Receive ty1 f1, r1) = Some (ty1, k, v1)" "event_write fdb (Receive ty2 f2, r2) = Some (ty2, k, v2)"
    using assms(4) by (auto simp: sys_writes_def map_filter_simps split: option.split_asm)
  obtain bw1 where b1: "is_key k" "BufferWrite (ws ! ?p1) k v1 = Ret bw1" "r1 = [[0]]"
    "?p1 < length ws" "ty1 \<in> set tys" "w1 = \<lparr>w_db = db, w_writers = ws[?p1 := bw1]\<rparr>"
    using sys_receive_write [OF l(1) s1 ev(1)] by (auto simp: sys_world_def assms(6))
  have "ty2 \<in> set tys" using s2 by (auto elim: sys_receiveE)
  then have p: "?p1 \<noteq> ?p2" using l(1) assms(5) b1(5) by (auto simp: sys_wired_def dest: inj_onD)
  obtain bw2 where b2: "BufferWrite (ws ! ?p2) k v2 = Ret bw2" "r2 = [[0]]" "?p2 < length ws"
    "w = \<lparr>w_db = db, w_writers = ws[?p1 := bw1, ?p2 := bw2]\<rparr>"
    using sys_receive_write [OF l(1) s2 ev(2)] p by (auto simp: b1(6) assms(6))
  have "world_ok w"
    using sys_inv_run [OF assms(3) l(1) sys_inv_init [OF l(2)]] l(3) by (simp add: sys_inv_def assms(6))
  moreover have "bw_inv (ws ! ?p1)" using world_okD(2) [OF l(2), of ?p1] b1(4) by (simp add: sys_world_def assms(6))
  ultimately show thesis
    using that [OF p b1(4) b2(3) b1(1) b1(3) b2(2) b1(2) b2(1) b2(4)] l(3) by blast
qed

text \<open>
  C6. Across transports the order of acknowledged writes is not kept: when a key is written over
  one transport and, after that write was acknowledged, over another one, the workers can store
  both without an error so that the database ends up with the first value and nothing pending,
  because every transport has a batch writer of its own.
\<close>

theorem later_write_overwritten:
  assumes "launched se ne cnf tys fdb db" and "db_ok db" and "accepting (db_mdbx db)"
    and "sys_run fdb (set tys) (sys_world fdb db) [(Receive ty1 f1, r1), (Receive ty2 f2, r2)] [] w"
    and "sys_writes fdb [(Receive ty1 f1, r1), (Receive ty2 f2, r2)] = [(ty1, k, v1), (ty2, k, v2)]"
    and "ty1 \<noteq> ty2"
  shows "r1 = [[0]] \<and> r2 = [[0]] \<and>
    (\<exists>evs w'. sys_run fdb (set tys) w evs [] w' \<and> workers_only evs \<and>
       (\<forall>bw \<in> set (w_writers w'). quiescent bw) \<and> db_store (w_db w') k = Some v1)"
proof -
  let ?ws = "fdb_writers fdb"
  obtain p1 p2 bw1 bw2 where p: "p1 \<noteq> p2" "p1 < length ?ws" "p2 < length ?ws"
    and b: "is_key k" "r1 = [[0]]" "r2 = [[0]]" "BufferWrite (?ws ! p1) k v1 = Ret bw1" "BufferWrite (?ws ! p2) k v2 = Ret bw2"
    and w: "w = \<lparr>w_db = db, w_writers = ?ws[p1 := bw1, p2 := bw2]\<rparr>" and ok: "world_ok w" "bw_inv (?ws ! p1)"
    and fresh: "\<forall>bw \<in> set ?ws. fresh_writer bw"
    using two_receives [OF assms(1,2,4-6) refl] .
  have w': "w_writers w ! p1 = bw1" "w_writers w ! p2 = bw2" "p1 < length (w_writers w)" "p2 < length (w_writers w)"
    using p by (simp_all add: w)
  have run: "\<forall>i < nat (bw_workers bw'). bw_running bw' ! i"
    if "BufferWrite (?ws ! q) k v = Ret bw'" and "q < length ?ws" for q v bw'
    using fresh that(2) by (simp add: BufferWrite_Ret(1) [OF that(1)] fresh_writer_def)
  have acc: "accepting (db_mdbx (w_db w))" using assms(3) by (simp add: w)
  obtain evs bw1' bw2' db1 db2 where d:
    "sys_run fdb (set tys) w evs [] (w\<lparr>w_db := db1, w_writers := (w_writers w)[p2 := bw2', p1 := bw1']\<rparr>)"
    "workers_only evs" "quiescent bw1'" "quiescent bw2'" "db_store db1 = bw_view (w_writers w ! p1) db2"
    "db_mdbx db2 = db_mdbx (w_db w)"
    by (rule drain_two [OF ok(1) w'(3,4) p(1) acc]) (use run [OF b(4) p(2)] run [OF b(5) p(3)] w' in simp_all)
  have "db_store db1 k = Some v1"
    using view_write [OF _ b(4), of db2] ok(2) d(5) w'(1) by (simp add: bw_inv_def)
  moreover have "\<forall>bw \<in> set ((w_writers w)[p2 := bw2', p1 := bw1']). quiescent bw"
    using fresh d(3,4) set_update_subset_insert [of "?ws[p2 := bw2']" p1 bw1']
      set_update_subset_insert [of ?ws p2 bw2'] p(1)
    by (auto simp: w list_update_swap fresh_writer_def)
  ultimately show ?thesis
    using b(2,3) d(1,2)
    by (intro conjI exI [of _ evs]
        exI [of _ "w\<lparr>w_db := db1, w_writers := (w_writers w)[p2 := bw2', p1 := bw1']\<rparr>"]) simp_all
qed

theorem later_write_overwritten_witness:
  "\<exists>(fdb :: (mem_store, mem_store, unit, unit, unit) FDB) evs w.
     sys_run fdb (set both) (sys_world fdb (mem_db None [])) evs [] w \<and>
     sys_writes fdb evs = [(TCPTransportType, sample_key, [1]), (UDPTransportType, sample_key, [2])] \<and>
     db_store (w_db w) sample_key = Some [1]"
proof -
  let ?evs = "[(Receive TCPTransportType (put_frame [1]), [[0]]), (Receive UDPTransportType (put_frame [2]), [[0]])]"
  obtain fdb :: "(mem_store, mem_store, unit, unit, unit) FDB" and s and w w' :: "(mem_store, mem_store) hworld" where
    l: "launched sample_start sample_env sample_config both fdb (mem_db None [])"
    and run: "sys_run fdb (set both) (sys_world fdb (mem_db None [])) ?evs [] w'"
    and wr: "sys_writes fdb ?evs = [(TCPTransportType, sample_key, [1]), (UDPTransportType, sample_key, [2])]"
    by (rule sample_writes)
  have acc: "accepting (db_mdbx (mem_db None []))" by (simp add: mem_db_def mem_mdbx_accepting)
  have neq: "TCPTransportType \<noteq> UDPTransportType" by (simp add: transport_types)
  obtain evs w'' where d: "sys_run fdb (set both) w' evs [] w''" "workers_only evs"
    "db_store (w_db w'') sample_key = Some [1]"
    using later_write_overwritten [OF l mem_db_ok acc run wr neq] by metis
  show ?thesis
    using sys_run_trans [OF d(1) run] workers_only_writes [OF d(2)] d(3) wr
    by (intro exI [of _ fdb] exI [of _ "?evs @ evs"] exI [of _ w'']) (simp add: sys_writes_append del: append.simps)
qed



end
