(* ===== verification/Client_Session.thy ===== *)
theory Client_Session
  imports Tcp_Client Server_System
begin

text \<open>
  A client of \<^verbatim>\<open>src/client/tcp.go\<close> connected to a running instance. The connection carries two
  streams of bytes: each side hands over the bytes it sends, and is called back with some of the
  bytes that have not been read yet, however the network cut or joined them. Meanwhile the other
  transports of the instance and the workers of its batch writers go on.
\<close>

section \<open>Steps of a session\<close>

text \<open>
  The instance, the state of the application the client's handlers work on, and the bytes on
  their way to the server and back.
\<close>

record ('e, 't, 'a) session =
  ss_world :: "('e, 't) hworld"
  ss_app :: 'a
  ss_up :: bytes
  ss_down :: bytes

text \<open>
  The client sends; the server's callback reads some bytes and answers; the client's callback
  reads some bytes; the instance does something else than reading from this connection.
\<close>

datatype session_event = Send bytes | Serve bytes "bytes list" | Deliver bytes | Elsewhere sys_event "bytes list"

inductive session_step ::
    "('e, 't, 'g, 'c, 'l) FDB \<Rightarrow> TransportType set \<Rightarrow> ('a, 'k, 'n) TCPTransport \<Rightarrow>
     ('e, 't, 'a) session \<Rightarrow> session_event \<Rightarrow> error option \<Rightarrow> ('e, 't, 'a) session \<Rightarrow> bool"
  for fdb tys t where
  ss_send: "TCPTransport_Send (\<lambda>c d. None) t data = None \<Longrightarrow>
    session_step fdb tys t s (Send data) None (s\<lparr>ss_up := ss_up s @ data\<rparr>)"
| ss_serve: "ss_up s = f @ rest \<Longrightarrow> f \<noteq> [] \<Longrightarrow>
    sys_step fdb tys (ss_world s) (Receive TCPTransportType f) rs None w' \<Longrightarrow>
    session_step fdb tys t s (Serve f rs) None
      (s\<lparr>ss_world := w', ss_up := rest, ss_down := ss_down s @ concat rs\<rparr>)"
| ss_deliver: "ss_down s = d @ rest \<Longrightarrow> d \<noteq> [] \<Longrightarrow>
    client_OnTraffic t (ss_app s) (Inr d) = (a', ActNone) \<Longrightarrow>
    session_step fdb tys t s (Deliver d) None (s\<lparr>ss_app := a', ss_down := rest\<rparr>)"
| ss_elsewhere: "(\<forall>f. ev \<noteq> Receive TCPTransportType f) \<Longrightarrow>
    sys_step fdb tys (ss_world s) ev rs err w' \<Longrightarrow>
    session_step fdb tys t s (Elsewhere ev rs) err (s\<lparr>ss_world := w'\<rparr>)"

inductive session_run ::
    "('e, 't, 'g, 'c, 'l) FDB \<Rightarrow> TransportType set \<Rightarrow> ('a, 'k, 'n) TCPTransport \<Rightarrow>
     ('e, 't, 'a) session \<Rightarrow> session_event list \<Rightarrow> error list \<Rightarrow> ('e, 't, 'a) session \<Rightarrow> bool"
  for fdb tys t where
  session_nil: "session_run fdb tys t s [] [] s"
| session_snoc: "session_run fdb tys t s evs errs s' \<Longrightarrow> session_step fdb tys t s' ev err s'' \<Longrightarrow>
    session_run fdb tys t s (evs @ [ev]) (errs @ (case err of None \<Rightarrow> [] | Some e \<Rightarrow> [e])) s''"

text \<open>The session of a client that connects to a launched instance.\<close>

definition new_session :: "('e, 't, 'g, 'c, 'l) FDB \<Rightarrow> ('e, 't) Db \<Rightarrow> 'a \<Rightarrow> ('e, 't, 'a) session" where
  "new_session fdb db app = \<lparr>ss_world = sys_world fdb db, ss_app = app, ss_up = [], ss_down = []\<rparr>"

section \<open>What a session sends, reads and answers\<close>

fun sent_of :: "session_event \<Rightarrow> bytes list" where
  "sent_of (Send data) = [data]"
| "sent_of _ = []"

fun served_of :: "session_event \<Rightarrow> bytes list" where
  "served_of (Serve f rs) = [f]"
| "served_of _ = []"

fun replies_of :: "session_event \<Rightarrow> bytes list" where
  "replies_of (Serve f rs) = rs"
| "replies_of _ = []"

fun delivered_of :: "session_event \<Rightarrow> bytes list" where
  "delivered_of (Deliver d) = [d]"
| "delivered_of _ = []"

fun sys_of :: "session_event \<Rightarrow> (sys_event \<times> bytes list) list" where
  "sys_of (Serve f rs) = [(Receive TCPTransportType f, rs)]"
| "sys_of (Elsewhere ev rs) = [(ev, rs)]"
| "sys_of _ = []"

definition sent :: "session_event list \<Rightarrow> bytes list" where
  "sent evs = concat (map sent_of evs)"

definition served :: "session_event list \<Rightarrow> bytes list" where
  "served evs = concat (map served_of evs)"

definition replies :: "session_event list \<Rightarrow> bytes list" where
  "replies evs = concat (map replies_of evs)"

definition delivered :: "session_event list \<Rightarrow> bytes list" where
  "delivered evs = concat (map delivered_of evs)"

definition sys_events :: "session_event list \<Rightarrow> (sys_event \<times> bytes list) list" where
  "sys_events evs = concat (map sys_of evs)"

lemmas session_trace = sent_def served_def replies_def delivered_def sys_events_def

text \<open>The streams keep all bytes in order.\<close>

lemma session_streams:
  "session_run fdb tys t s evs errs s' \<Longrightarrow>
   ss_up s @ concat (sent evs) = concat (served evs) @ ss_up s' \<and>
   ss_down s @ concat (replies evs) = concat (delivered evs) @ ss_down s'"
proof (induction rule: session_run.induct)
  case (session_snoc s evs errs s' ev err s'')
  then show ?case by (cases rule: session_step.cases [OF session_snoc(2)]) (auto simp: session_trace simp flip: append_assoc)
qed (simp add: session_trace)

lemma session_sys_run:
  "session_run fdb tys t s evs errs s' \<Longrightarrow> sys_run fdb tys (ss_world s) (sys_events evs) errs (ss_world s')"
proof (induction rule: session_run.induct)
  case (session_nil s)
  then show ?case by (simp add: session_trace sys_nil)
next
  case (session_snoc s evs errs s' ev err s'')
  note step = sys_snoc [OF session_snoc.IH]
  show ?case
    using session_snoc(2)
  proof cases
    case (ss_serve f rest rs w')
    then show ?thesis using step [OF ss_serve(6)] by (simp add: session_trace)
  next
    case (ss_elsewhere ev rs w')
    then show ?thesis using step [OF ss_elsewhere(4)] by (simp add: session_trace)
  qed (use session_snoc.IH in \<open>simp_all add: session_trace\<close>)
qed

lemma session_app:
  "session_run fdb tys t s evs errs s' \<Longrightarrow>
   ss_app s' = foldl (\<lambda>a d. fst (client_OnTraffic t a (Inr d))) (ss_app s) (delivered evs)"
proof (induction rule: session_run.induct)
  case (session_snoc s evs errs s' ev err s'')
  from session_snoc(2) session_snoc.IH show ?case by cases (simp_all add: session_trace)
qed (simp add: session_trace)

text \<open>What the workers do is part of a session.\<close>

lemma session_run_trans:
  assumes "session_run fdb tys t s' evs' errs' s''" and "session_run fdb tys t s evs errs s'"
  shows "session_run fdb tys t s (evs @ evs') (errs @ errs') s''"
  using assms
proof (induction rule: session_run.induct)
  case (session_snoc s1 evs1 errs1 s2 ev err s3)
  then show ?case using session_run.session_snoc [OF session_snoc.IH session_snoc.hyps(2)] by simp
qed simp

definition elsewhere :: "(sys_event \<times> bytes list) list \<Rightarrow> session_event list" where
  "elsewhere evs = map (\<lambda>(e, rs). Elsewhere e rs) evs"

lemma elsewhere_trace [simp]:
  "sent (elsewhere evs) = []" "served (elsewhere evs) = []" "replies (elsewhere evs) = []"
  "delivered (elsewhere evs) = []" "sys_events (elsewhere evs) = evs"
  by (induction evs) (auto simp: elsewhere_def session_trace)

lemma session_workers:
  "sys_run fdb tys w evs errs w' \<Longrightarrow> workers_only evs \<Longrightarrow> w = ss_world s \<Longrightarrow>
   session_run fdb tys t s (elsewhere evs) errs (s\<lparr>ss_world := w'\<rparr>)"
proof (induction rule: sys_run.induct)
  case (sys_nil w)
  then show ?case by (simp add: elsewhere_def session_nil)
next
  case (sys_snoc w evs errs w' ev rs err w'')
  have "session_step fdb tys t (s\<lparr>ss_world := w'\<rparr>) (Elsewhere ev rs) err (s\<lparr>ss_world := w'\<rparr>\<lparr>ss_world := w''\<rparr>)"
    using sys_snoc by (intro ss_elsewhere) (auto simp: workers_only_def)
  then show ?case using session_snoc [OF sys_snoc.IH] sys_snoc.prems by (simp add: elsewhere_def)
qed

section \<open>The requests of a session\<close>

text \<open>The specification: the requests of the client, in order, applied to the contents.\<close>

fun apply_request :: "(bytes \<rightharpoonup> bytes) \<Rightarrow> bytes \<Rightarrow> (bytes \<rightharpoonup> bytes)" where
  "apply_request m f = (case gnet_write f of None \<Rightarrow> m | Some (k, v) \<Rightarrow> m(k \<mapsto> v))"

text \<open>What the instance accepted from elsewhere.\<close>

definition tcp_writes :: "('e, 't, 'g, 'c, 'l) FDB \<Rightarrow> session_event list \<Rightarrow> (bytes \<times> bytes) list" where
  "tcp_writes fdb evs = map snd (filter (\<lambda>(ty, k, v). ty = TCPTransportType) (sys_writes fdb (sys_events evs)))"

lemma tcp_writes_snoc:
  "tcp_writes fdb (evs @ [ev]) = tcp_writes fdb evs @ tcp_writes fdb [ev]"
  by (simp add: tcp_writes_def session_trace sys_writes_append)

lemma tcp_writes_single [simp]:
  "tcp_writes fdb [Send d] = []"
  "tcp_writes fdb [Deliver d] = []"
  "(\<forall>f. ev \<noteq> Receive TCPTransportType f) \<Longrightarrow> tcp_writes fdb [Elsewhere ev rs] = []"
  "tm_contents (fdb_tm fdb) TCPTransportType = Some (TrTcp srv) \<Longrightarrow>
   tcp_writes fdb [Serve f rs] = List.map_filter gnet_write [f]"
proof -
  show "tcp_writes fdb [Elsewhere ev rs] = []" if "\<forall>f. ev \<noteq> Receive TCPTransportType f"
    using that by (cases ev) (auto simp: tcp_writes_def session_trace sys_writes_def map_filter_simps
      split: option.split)
qed (auto simp: tcp_writes_def session_trace sys_writes_def map_filter_simps split: option.split)

lemma map_filter_append: "List.map_filter f (xs @ ys) = List.map_filter f xs @ List.map_filter f ys"
  by (simp add: map_filter_def)

lemma tcp_writes_served:
  assumes "session_run fdb tys t s evs errs s'" and "tm_contents (fdb_tm fdb) TCPTransportType = Some (TrTcp srv)"
  shows "tcp_writes fdb evs = List.map_filter gnet_write (served evs)"
  using assms
proof (induction rule: session_run.induct)
  case (session_snoc s evs errs s' ev err s'')
  note IH = session_snoc.IH [OF session_snoc.prems]
  from session_snoc(2) show ?case
    by cases (simp_all add: tcp_writes_snoc IH session_snoc.prems map_filter_append served_def map_filter_simps(2)
      del: map_filter_simps)
qed (simp add: tcp_writes_def session_trace map_filter_simps)

lemma apply_writes_owned:
  "owned ty k ws \<Longrightarrow> m k = m' k \<Longrightarrow>
   apply_writes m ws k = foldl (\<lambda>m (k, v). m(k \<mapsto> v)) m' (map snd (filter (\<lambda>(ty', k, v). ty' = ty) ws)) k"
proof (induction ws rule: rev_induct)
  case (snoc w ws)
  obtain ty' k' v where w: "w = (ty', k', v)" by (cases w)
  then show ?case using snoc by (auto simp: apply_writes_def owned_def)
qed (simp add: apply_writes_def)

lemma apply_requests_filter:
  "foldl (\<lambda>m (k, v). m(k \<mapsto> v)) m (List.map_filter gnet_write fs) = foldl apply_request m fs"
  by (induction fs arbitrary: m) (auto simp: map_filter_simps split: option.split)

section \<open>Replies\<close>

lemma tcp_replies_once:
  assumes "transport_wired (TrTcp srv) p" and "Tcp_OnTraffic srv w (Inr f) = Ret (w', rs, a)"
  shows "length rs = 1"
  using assms(2)
proof (rule tcp.serve_cases)
  fix h assume "is_action (hd f)" "Tcp_handler srv (hd f) = Some h" "h w f = Ret (w', rs)"
  then show "length rs = 1"
    using assms(1) tcph.wh_one_reply [of _ w f w' rs] tcph.rh_one_reply [of w f w' rs] by (auto simp: is_action_def)
qed auto

lemma tcp_receive_once:
  assumes "sys_wired fdb tys ptr" and "tm_contents (fdb_tm fdb) TCPTransportType = Some (TrTcp srv)"
    and "sys_step fdb tys w (Receive TCPTransportType f) rs err w'"
  shows "length rs = 1"
proof -
  have "TCPTransportType \<in> tys" "Transport_receive (TrTcp srv) w f = Ret (w', rs)"
    using assms(2,3) by (auto elim!: sys_receiveE)
  moreover from this(1) have "transport_wired (TrTcp srv) (ptr TCPTransportType)"
    using sys_wiredD(2) [OF assms(1) _ assms(2)] by simp
  ultimately show ?thesis using tcp_replies_once [of srv] by (auto simp: go_bind_Ret_iff)
qed

lemma session_replies_once:
  assumes "session_run fdb tys t s evs errs s'" and "sys_wired fdb tys ptr"
    and "tm_contents (fdb_tm fdb) TCPTransportType = Some (TrTcp srv)"
  shows "length (replies evs) = length (served evs)"
  using assms
proof (induction rule: session_run.induct)
  case (session_snoc s evs errs s' ev err s'')
  from session_snoc(2) show ?case
    by cases (use session_snoc tcp_receive_once [OF session_snoc.prems] in \<open>simp_all add: session_trace\<close>)
qed (simp add: session_trace)

text \<open>While the server reads nothing but requests to write, it answers nothing but the success code.\<close>

lemma session_acks:
  assumes "session_run fdb tys t s evs errs s'" and "sys_wired fdb tys ptr"
    and "tm_contents (fdb_tm fdb) TCPTransportType = Some (TrTcp srv)"
    and "\<forall>f \<in> set (served evs). gnet_write f \<noteq> None"
  shows "replies evs = replicate (length (served evs)) [0]"
  using assms
proof (induction rule: session_run.induct)
  case (session_snoc s evs errs s' ev err s'')
  have IH: "replies evs = replicate (length (served evs)) [0]"
    using session_snoc.IH session_snoc.prems by (simp add: session_trace)
  from session_snoc(2) show ?case
  proof cases
    case (ss_serve f rest rs w')
    obtain k v where "gnet_write f = Some (k, v)" using session_snoc.prems(3) ss_serve by (auto simp: session_trace)
    then have "event_write fdb (Receive TCPTransportType f, rs) = Some (TCPTransportType, k, v)"
      using session_snoc.prems(2) by simp
    then have "rs = [[0]]" using sys_receive_write [OF session_snoc.prems(1) ss_serve(6)] by blast
    then show ?thesis using IH ss_serve by (simp add: session_trace replicate_append_same)
  qed (use IH in \<open>simp_all add: session_trace\<close>)
qed (simp add: session_trace)

lemma delivered_nonempty:
  "session_run fdb tys t s evs errs s' \<Longrightarrow> [] \<notin> set (delivered evs)"
proof (induction rule: session_run.induct)
  case (session_snoc s evs errs s' ev err s'')
  from session_snoc(2) session_snoc.IH show ?case by cases (auto simp: session_trace)
qed (simp add: session_trace)

lemma length_concat_ge: "[] \<notin> set xss \<Longrightarrow> length xss \<le> length (concat xss)"
proof (induction xss)
  case (Cons xs xss)
  then show ?case by (cases xs) auto
qed simp

lemma length_concat_single: "\<forall>xs \<in> set xss. length xs = 1 \<Longrightarrow> length (concat xss) = length xss"
  by (induction xss) auto

text \<open>A handler that counts is called once for each chunk of success codes.\<close>

lemma count_deliveries:
  assumes "map_of (tt_handlers t) WriteSuccessMessageType = Some (\<lambda>n d. (None, n + 1 :: nat))"
    and "[] \<notin> set ds" and "set (concat ds) \<subseteq> {0}"
  shows "foldl (\<lambda>a d. fst (client_OnTraffic t a (Inr d))) n ds = n + length ds"
  using assms(2,3)
proof (induction ds arbitrary: n)
  case (Cons d ds)
  obtain d' where d: "d = 0 # d'" using Cons.prems by (cases d) auto
  have "fst (client_OnTraffic t n (Inr d)) = n + 1"
    using assms(1) by (simp add: client_OnTraffic_def d WriteSuccessMessageType_def)
  then show ?case using Cons by simp
qed simp

section \<open>Writes in a session\<close>

lemma fresh_channel: "fresh_writer bw \<Longrightarrow> bw_wf bw \<Longrightarrow> bw_channels bw ! workerID bw k = []"
  using workerID_less [of bw k] by (simp add: fresh_writer_def quiescent_def bw_wfD)

text \<open>A new writer accepts two writes.\<close>

lemma fresh_two_writes:
  assumes "bw_wf bw" and "fresh_writer bw"
  obtains bw1 bw2 where "BufferWrite bw k v = Ret bw1" "BufferWrite bw1 k' v' = Ret bw2"
    "\<forall>i < nat (bw_workers bw2). bw_running bw2 ! i"
proof -
  let ?i = "workerID bw k"
  let ?bw1 = "bw\<lparr>bw_channels := (bw_channels bw)[?i := [\<lparr>req_Key = k, req_Value = v\<rparr>]]\<rparr>"
  have w: "0 < bw_workers bw" using assms(1) by (simp add: bw_wf_def)
  have b1: "BufferWrite bw k v = Ret ?bw1"
    using fresh_channel [OF assms(2,1), of k] w by (simp add: BufferWrite_def Let_def)
  have "length (bw_channels ?bw1 ! workerID ?bw1 k') \<le> 1"
    using fresh_channel [OF assms(2,1), of k'] by (simp add: nth_update_if)
  then obtain bw2 where b2: "BufferWrite ?bw1 k' v' = Ret bw2" using w by (auto simp: BufferWrite_def Let_def)
  have "\<forall>i < nat (bw_workers bw2). bw_running bw2 ! i"
    using assms(2) by (simp add: BufferWrite_Ret(1) [OF b2] fresh_writer_def)
  then show thesis using that [OF b1 b2] by blast
qed

lemma tcp_write_step:
  assumes "sys_wired fdb tys ptr" and "TCPTransportType \<in> tys"
    and "tm_contents (fdb_tm fdb) TCPTransportType = Some (TrTcp srv)"
    and "length k = 32" and "v \<noteq> []" and "BufferWrite (w_writers w ! ptr TCPTransportType) k v = Ret bw'"
  shows "sys_step fdb tys w (Receive TCPTransportType (WriteHandlerType # k @ v)) [[0]] None
      (w\<lparr>w_writers := (w_writers w)[ptr TCPTransportType := bw']\<rparr>)"
    and "event_write fdb (Receive TCPTransportType (WriteHandlerType # k @ v), rs) = Some (TCPTransportType, k, v)"
proof -
  have g: "gnet_write (WriteHandlerType # k @ v) = Some (k, v)"
    using assms(4,5) by (cases v) (simp_all add: gnet_write_def)
  then show "event_write fdb (Receive TCPTransportType (WriteHandlerType # k @ v), rs) = Some (TCPTransportType, k, v)"
    using assms(3) by simp
  have "transport_wired (TrTcp srv) (ptr TCPTransportType)"
    using sys_wiredD(2) [OF assms(1-3)] by simp
  then have "Transport_receive (TrTcp srv) w (WriteHandlerType # k @ v) =
      Ret (w\<lparr>w_writers := (w_writers w)[ptr TCPTransportType := bw']\<rparr>, [[0]])"
    using assms(6) by (simp add: tcpkv.serve_gnet_write [OF _ g] writer_BufferWrite_def)
  then show "sys_step fdb tys w (Receive TCPTransportType (WriteHandlerType # k @ v)) [[0]] None
      (w\<lparr>w_writers := (w_writers w)[ptr TCPTransportType := bw']\<rparr>)"
    using sys_receive [OF assms(2,3)] by blast
qed

lemma session_send:
  "tt_conn t = Some c \<Longrightarrow> session_step fdb tys t s (Send d) None (s\<lparr>ss_up := ss_up s @ d\<rparr>)"
  by (intro ss_send) (simp add: TCPTransport_Send_def)

text \<open>Two requests to write that are read one by one, however the client sent them.\<close>

definition two_served :: "session_event list \<Rightarrow> bytes \<Rightarrow> bytes \<Rightarrow> session_event list" where
  "two_served ups f f' = ups @ [Serve f [[0]], Serve f' [[0]]]"

lemma two_served_session:
  assumes "launched se ne cnf tys fdb db" and "db_ok db" and "TCPTransportType \<in> set tys"
    and "tm_contents (fdb_tm fdb) TCPTransportType = Some (TrTcp srv)"
    and "tt_conn t = Some c" and "length k = 32" and "length k' = 32" and "v \<noteq> []" and "v' \<noteq> []"
    and "f = WriteHandlerType # k @ v" and "f' = WriteHandlerType # k' @ v'"
    and "ups = [Send (f @ f')] \<or> ups = [Send f, Send f']"
  obtains s where "session_run fdb (set tys) t (new_session fdb db app) (two_served ups f f') [] s"
    "sys_writes fdb (sys_events (two_served ups f f')) = [(TCPTransportType, k, v), (TCPTransportType, k', v')]"
    "ss_up s = []" "ss_down s = [0, 0]" "ss_app s = app" "workers_run (ss_world s)" "w_db (ss_world s) = db"
proof -
  let ?ty = "TCPTransportType" and ?s0 = "new_session fdb db app"
  obtain ptr where l: "sys_wired fdb (set tys) ptr" "world_ok (sys_world fdb db)"
    "\<forall>bw \<in> set (fdb_writers fdb). fresh_writer bw" using launched_wired [OF assms(1,2)] .
  have p: "ptr ?ty < length (fdb_writers fdb)" using sys_wiredD(1) [OF l(1) assms(3)] .
  have bw: "bw_wf (fdb_writers fdb ! ptr ?ty)" "fresh_writer (fdb_writers fdb ! ptr ?ty)"
    using world_okD(2) [OF l(2), of "ptr ?ty"] l(3) p by (simp_all add: sys_world_def bw_inv_def)
  obtain bw1 bw2 where b: "BufferWrite (fdb_writers fdb ! ptr ?ty) k v = Ret bw1" "BufferWrite bw1 k' v' = Ret bw2"
    and run2: "\<forall>i < nat (bw_workers bw2). bw_running bw2 ! i"
    using fresh_two_writes [OF bw] .
  let ?w1 = "sys_world fdb db\<lparr>w_writers := (fdb_writers fdb)[ptr ?ty := bw1]\<rparr>"
  let ?w2 = "sys_world fdb db\<lparr>w_writers := (fdb_writers fdb)[ptr ?ty := bw2]\<rparr>"
  note st1 = tcp_write_step [OF l(1) assms(3,4,6,8), of "sys_world fdb db" bw1, folded assms(10)]
  note st2 = tcp_write_step [OF l(1) assms(3,4,7,9), of ?w1 bw2, folded assms(11)]
  let ?s1 = "?s0\<lparr>ss_up := f @ f'\<rparr>"
  let ?s2 = "?s1\<lparr>ss_world := ?w1, ss_up := f', ss_down := [0]\<rparr>"
  let ?s3 = "?s2\<lparr>ss_world := ?w2, ss_up := [], ss_down := [0, 0]\<rparr>"
  have ne: "f \<noteq> []" "f' \<noteq> []" by (simp_all add: assms(10,11))
  note snd = session_send [OF assms(5), of fdb "set tys"]
  have "session_run fdb (set tys) t ?s0 ups [] ?s1"
    using assms(12) session_snoc [OF session_nil snd [of ?s0 "f @ f'"]]
      session_snoc [OF session_snoc [OF session_nil snd [of ?s0 f]] snd [of _ f']]
    by (auto simp: new_session_def)
  moreover have "session_step fdb (set tys) t ?s1 (Serve f [[0]]) None ?s2"
    using ss_serve [of ?s1 f f' fdb "set tys" "[[0]]" ?w1 t] st1(1) b(1) ne by (simp add: new_session_def sys_world_def)
  moreover have "session_step fdb (set tys) t ?s2 (Serve f' [[0]]) None ?s3"
    using ss_serve [of ?s2 f' "[]" fdb "set tys" "[[0]]" ?w2 t] st2(1) b(2) p ne by (simp add: sys_world_def)
  ultimately have run: "session_run fdb (set tys) t ?s0 (two_served ups f f') [] ?s3"
    unfolding two_served_def using session_snoc [OF session_snoc] by fastforce
  have wr: "sys_writes fdb (sys_events (two_served ups f f')) = [(?ty, k, v), (?ty, k', v')]"
    using st1(2) st2(2) b p assms(12) by (auto simp: sys_world_def session_trace sys_writes_def map_filter_simps two_served_def)
  have "workers_run ?w2"
    using l(3) run2 set_update_subset_insert [of "fdb_writers fdb" "ptr ?ty" bw2]
    by (auto simp: workers_run_def sys_world_def fresh_writer_def)
  then show thesis using that [OF run wr] by (simp add: sys_world_def new_session_def)
qed

section \<open>A concrete session\<close>

text \<open>A connected client that counts the success codes, and a write of it that the workers store.\<close>

definition sample_client :: "(nat, unit, unit) TCPTransport" where
  "sample_client = fst (client_OnOpen (TCPTransport_RegisterHandler (NewTCPTransport ''127.0.0.1:5011'')
     WriteSuccessMessageType (\<lambda>n d. (None, n + 1))) ())"

lemma sample_client_conn: "tt_conn sample_client = Some ()"
  and sample_client_handler: "map_of (tt_handlers sample_client) WriteSuccessMessageType = Some (\<lambda>n d. (None, n + 1))"
  by (simp_all add: sample_client_def client_OnOpen_def TCPTransport_RegisterHandler_def NewTCPTransport_def)

lemma sample_two_served:
  obtains fdb :: "(mem_store, mem_store, unit, unit, unit) FDB" and srv s where
    "launched sample_start sample_env sample_config both fdb (mem_db None [])"
    "tm_contents (fdb_tm fdb) TCPTransportType = Some (TrTcp srv)"
    "session_run fdb (set both) sample_client (new_session fdb (mem_db None []) 0)
       (two_served [Send (put_frame [1]), Send (put_frame [2])] (put_frame [1]) (put_frame [2])) [] s"
    "sys_writes fdb (sys_events (two_served [Send (put_frame [1]), Send (put_frame [2])] (put_frame [1]) (put_frame [2]))) =
       [(TCPTransportType, sample_key, [1]), (TCPTransportType, sample_key, [2])]"
    "ss_down s = [0, 0]" "ss_app s = 0" "workers_run (ss_world s)" "w_db (ss_world s) = mem_db None []"
proof -
  obtain fdb :: "(mem_store, mem_store, unit, unit, unit) FDB" and srv where
    l: "launched sample_start sample_env sample_config both fdb (mem_db None [])"
    and tr: "tm_contents (fdb_tm fdb) TCPTransportType = Some (TrTcp srv)"
    using sample_launch by blast
  have k: "length sample_key = 32" by simp
  show thesis
    by (rule two_served_session [OF l mem_db_ok set_both(1) tr sample_client_conn k k _ _ put_frame_def put_frame_def,
        where ups = "[Send (put_frame [1]), Send (put_frame [2])]" and app = 0])
      (use that [OF l tr] in simp_all)
qed

section \<open>Properties\<close>



text \<open>
  C11. Acknowledgements: while the server reads nothing but requests to write, the client's handler
  for the success code is called at most once for each write that was accepted, and exactly once
  for each when every byte of the answers is delivered on its own; codes that arrive together
  reach it as one.
\<close>

theorem client_acks_accepted:
  assumes "launched se ne cnf tys fdb db" and "db_ok db"
    and "tm_contents (fdb_tm fdb) TCPTransportType = Some (TrTcp srv)"
    and "session_run fdb (set tys) t (new_session fdb db (0 :: nat)) evs errs s"
    and "map_of (tt_handlers t) WriteSuccessMessageType = Some (\<lambda>n d. (None, n + 1))"
    and "\<forall>f \<in> set (served evs). gnet_write f \<noteq> None"
  shows "ss_app s \<le> length (tcp_writes fdb evs) \<and>
    (ss_down s = [] \<and> (\<forall>d \<in> set (delivered evs). length d = 1) \<longrightarrow> ss_app s = length (tcp_writes fdb evs))"
proof -
  obtain ptr where l: "sys_wired fdb (set tys) ptr" using launched_wired [OF assms(1,2)] .
  have n: "length (tcp_writes fdb evs) = length (served evs)"
    using assms(6) unfolding tcp_writes_served [OF assms(4,3)] by (induction "served evs") (auto simp: map_filter_def)
  have "concat (replies evs) = replicate (length (served evs)) 0"
    unfolding session_acks [OF assms(4) l assms(3,6)] by (induction "length (served evs)") simp_all
  then have down: "concat (delivered evs) @ ss_down s = replicate (length (served evs)) 0"
    using session_streams [OF assms(4)] by (simp add: new_session_def)
  then have "set (concat (delivered evs)) \<subseteq> {0}"
    by (metis Un_subset_iff set_append set_replicate_conv_if subset_refl empty_subsetI)
  then have app: "ss_app s = length (delivered evs)"
    using session_app [OF assms(4)] count_deliveries [OF assms(5) delivered_nonempty [OF assms(4)], of 0]
    by (simp add: new_session_def)
  have "length (concat (delivered evs)) + length (ss_down s) = length (served evs)"
    using arg_cong [OF down, of length] by simp
  then show ?thesis
    using app n length_concat_ge [OF delivered_nonempty [OF assms(4)]] length_concat_single [of "delivered evs"] by auto
qed

theorem client_acks_accepted_witness:
  "\<exists>(fdb :: (mem_store, mem_store, unit, unit, unit) FDB) evs s.
     session_run fdb (set both) sample_client (new_session fdb (mem_db None []) 0) evs [] s \<and>
     length (tcp_writes fdb evs) = 2 \<and> ss_app s = 2"
proof -
  let ?evs = "two_served [Send (put_frame [1]), Send (put_frame [2])] (put_frame [1]) (put_frame [2])"
  obtain fdb :: "(mem_store, mem_store, unit, unit, unit) FDB" and srv s where
    l: "launched sample_start sample_env sample_config both fdb (mem_db None [])"
    and tr: "tm_contents (fdb_tm fdb) TCPTransportType = Some (TrTcp srv)"
    and run: "session_run fdb (set both) sample_client (new_session fdb (mem_db None []) 0) ?evs [] s"
    and wr: "sys_writes fdb (sys_events ?evs) = [(TCPTransportType, sample_key, [1]), (TCPTransportType, sample_key, [2])]"
    and s: "ss_down s = [0, 0]"
    by (rule sample_two_served)
  have st: "session_step fdb (set both) sample_client s (Deliver [0]) None
      (s\<lparr>ss_app := ss_app s + 1, ss_down := rest\<rparr>)"
    if "ss_down s = 0 # rest" for s :: "(mem_store, mem_store, nat) session" and rest
    by (rule ss_deliver) (use that sample_client_handler in \<open>simp_all add: client_OnTraffic_def WriteSuccessMessageType_def\<close>)
  let ?all = "?evs @ [Deliver [0], Deliver [0]]" and ?s = "s\<lparr>ss_app := ss_app s + 2, ss_down := []\<rparr>"
  have run': "session_run fdb (set both) sample_client (new_session fdb (mem_db None []) 0) ?all [] ?s"
    using session_snoc [OF session_snoc [OF run st [OF s]] st] by simp
  have n: "length (tcp_writes fdb ?all) = 2"
    using wr by (simp add: tcp_writes_def session_trace)
  have served: "served ?all = [put_frame [1], put_frame [2]]" and del: "delivered ?all = [[0], [0]]"
    by (simp_all add: session_trace two_served_def)
  have "ss_app ?s = length (tcp_writes fdb ?all)"
    using client_acks_accepted [OF l mem_db_ok tr run' sample_client_handler] unfolding served del
    by (simp add: gnet_write_put)
  then show ?thesis using run' n by metis
qed

text \<open>
  C10. The bytes of a value can be taken for requests: the client sends one write, whose value
  contains the bytes of another; if the network delivers it in two parts, cut before these, the
  instance acknowledges two writes, stores the first part of the value under the client's key, and
  the workers can store a value under the key that only occurs inside of the client's value.
\<close>

theorem tcp_value_taken_for_request:
  assumes "launched se ne cnf tys fdb db" and "db_ok db" and "TCPTransportType \<in> set tys"
    and "tm_contents (fdb_tm fdb) TCPTransportType = Some (TrTcp srv)" and "accepting (db_mdbx db)"
    and "tt_conn t = Some c" and "length k = 32" and "length k' = 32" and "k \<noteq> k'" and "v \<noteq> []" and "v' \<noteq> []"
  shows "\<exists>evs s evs' w. session_run fdb (set tys) t (new_session fdb db app) evs [] s \<and>
    sent evs = [WriteHandlerType # k @ v @ (WriteHandlerType # k' @ v')] \<and> ss_up s = [] \<and>
    replies evs = [[0], [0]] \<and> sys_run fdb (set tys) (ss_world s) evs' [] w \<and> workers_only evs' \<and>
    db_store (w_db w) k = Some v \<and> db_store (w_db w) k' = Some v'"
proof -
  let ?ty = "TCPTransportType" and ?s0 = "new_session fdb db app"
  let ?f = "WriteHandlerType # k @ v" and ?f' = "WriteHandlerType # k' @ v'"
  obtain s where run: "session_run fdb (set tys) t ?s0 (two_served [Send (?f @ ?f')] ?f ?f') [] s"
    and wr: "sys_writes fdb (sys_events (two_served [Send (?f @ ?f')] ?f ?f')) = [(?ty, k, v), (?ty, k', v')]"
    and s: "ss_up s = []" "workers_run (ss_world s)" "w_db (ss_world s) = db"
    using two_served_session [OF assms(1-4,6-8,10,11) refl refl disjI1 [OF refl]] .
  have sys: "sys_run fdb (set tys) (sys_world fdb db) (sys_events (two_served [Send (?f @ ?f')] ?f ?f')) [] (ss_world s)"
    using session_sys_run [OF run] by (simp add: new_session_def)
  obtain evs' w where d: "sys_run fdb (set tys) (ss_world s) evs' [] w" "workers_only evs'"
    "\<forall>bw \<in> set (w_writers w). quiescent bw"
    using launched_drain [OF assms(1,2) sys s(2)] assms(5) s(3) by auto
  let ?all = "sys_events (two_served [Send (?f @ ?f')] ?f ?f') @ evs'"
  have wr': "sys_writes fdb ?all = [(?ty, k, v), (?ty, k', v')]" unfolding sys_writes_append wr workers_only_writes [OF d(2)] by simp
  have all: "sys_run fdb (set tys) (sys_world fdb db) ?all [] w" using sys_run_trans [OF d(1) sys] by simp
  have "db_store (w_db w) x = apply_writes (db_store db) [(?ty, k, v), (?ty, k', v')] x" for x
    using owned_stored [OF assms(1,2) all assms(3) _ d(3), of x] unfolding wr' by (simp add: owned_def)
  then have "db_store (w_db w) k = Some v" "db_store (w_db w) k' = Some v'"
    using assms(9) by (simp_all add: apply_writes_def)
  moreover have "sent (two_served [Send (?f @ ?f')] ?f ?f') = [?f @ ?f']" "replies (two_served [Send (?f @ ?f')] ?f ?f') = [[0], [0]]"
    by (simp_all add: two_served_def session_trace)
  ultimately show ?thesis using run d(1,2) s(1) by fastforce
qed

theorem tcp_value_taken_for_request_witness:
  "\<exists>(fdb :: (mem_store, mem_store, unit, unit, unit) FDB) evs s.
     session_run fdb (set both) sample_client (new_session fdb (mem_db None []) 0) evs [] s \<and>
     sent evs = [put_frame ([1] @ WriteHandlerType # replicate 32 2 @ [3])] \<and> replies evs = [[0], [0]]"
proof -
  obtain fdb :: "(mem_store, mem_store, unit, unit, unit) FDB" and srv where
    l: "launched sample_start sample_env sample_config both fdb (mem_db None [])"
    and tr: "tm_contents (fdb_tm fdb) TCPTransportType = Some (TrTcp srv)"
    using sample_launch by blast
  have acc: "accepting (db_mdbx (mem_db None []))" by (simp add: mem_db_def mem_mdbx_accepting)
  have "(replicate 32 1 :: bytes) \<noteq> replicate 32 2" by (simp add: replicate_eq_replicate)
  from tcp_value_taken_for_request [OF l mem_db_ok set_both(1) tr acc sample_client_conn _ _ this, of "[1]" "[3]" 0]
  show ?thesis by (fastforce simp: put_frame_def)
qed

end
