(* ===== verification/Writer_Stop.thy ===== *)
theory Writer_Stop
  imports Batch_Writer
begin

text \<open>
  Stopping the batch writer of \<^verbatim>\<open>src/db/writer.go\<close>: after \<open>FlushAndStop\<close> the workers can all return, and
  once they have, nothing but the requests that still wait in their channels is lost.
\<close>

section \<open>Workers that have returned hold nothing\<close>

definition returned_empty :: "BatchWriter \<Rightarrow> bool" where
  "returned_empty bw \<longleftrightarrow> (\<forall>i < nat (bw_workers bw). \<not> bw_running bw ! i \<longrightarrow> bw_buffers bw ! i = [])"

lemma returned_empty_step:
  "bw_step s ev err s' \<Longrightarrow> bw_wf (fst s) \<Longrightarrow> returned_empty (fst s) \<Longrightarrow> returned_empty (fst s')"
proof (induction rule: bw_step.induct)
  case (step_write k bw v bw' db)
  then show ?case using BufferWrite_Ret(1) [OF step_write(2)] by (simp add: returned_empty_def)
next
  case (step_recv j bw ord db bw' db' err)
  then have j: "j < nat (bw_workers bw)" by (auto simp: bw_wfD)
  have ne: "bw_channels bw ! j \<noteq> []" using step_recv(4) by (auto simp: worker_recv_eq)
  note at = buffered_at [OF step_recv.prems(1) [unfolded fst_conv] j]
  have "bw_running bw' = bw_running bw \<and> bw_workers bw' = bw_workers bw \<and>
      (\<forall>i. i \<noteq> j \<longrightarrow> bw_buffers bw' ! i = bw_buffers bw ! i)"
    using step_recv(4) flush_bw [of ord "buffered bw j" db j bw' db' err] at(4)
    by (auto simp: worker_recv_eq ne split: if_splits)
  then show ?case using step_recv(2) step_recv.prems by (metis fst_conv returned_empty_def)
next
  case (step_tick j bw ord db bw' db' err)
  then show ?case
    using flush_bw [of ord bw db j bw' db' err] by (auto simp: worker_tick_def returned_empty_def nth_update_if)
next
  case (step_stop j bw ord db bw' db' err)
  from step_stop(4) obtain bw1 where fl: "flush ord bw db j = (bw1, db', err)"
    and bw': "bw' = bw1\<lparr>bw_running := (bw_running bw1)[j := False]\<rparr>"
    by (auto simp: worker_stop_def split: if_splits prod.splits)
  then show ?case
    using step_stop flush_bw [OF fl] by (auto simp: bw' returned_empty_def nth_update_if bw_wfD split: if_splits)
next
  case (step_flush_and_stop bw bw' db)
  then show ?case by (auto simp: FlushAndStop_def chan_close_def returned_empty_def split: if_splits)
qed

lemma returned_empty_run:
  "bw_run s evs errs s' \<Longrightarrow> bw_inv (fst s) \<Longrightarrow> returned_empty (fst s) \<Longrightarrow> returned_empty (fst s')"
proof (induction rule: bw_run.induct)
  case (run_step s evs errs s' ev err s'')
  then show ?case
    using returned_empty_step [OF run_step(2)] bw_run_inv [OF run_step(1)] by (simp add: bw_inv_def)
qed simp

lemma queued_None: "(\<forall>r \<in> set q. req_Key r \<noteq> k) \<Longrightarrow> queued q k = None"
  by (auto simp: queued_def map_of_eq_None_iff)

section \<open>All workers can return\<close>

lemma stop_workers:
  assumes "bw_wf bw" and "\<forall>i < nat (bw_workers bw). bw_running bw ! i" and "accepting (db_mdbx db)"
    and "\<not> ch_closed (bw_stopChannel bw)" and "m \<le> nat (bw_workers bw)"
  shows "\<exists>bw' db'. bw_run (bw, db) (EFlushAndStop # map EStop [0..<m]) [] (bw', db') \<and>
    bw_channels bw' = bw_channels bw \<and> bw_workers bw' = bw_workers bw \<and> db_mdbx db' = db_mdbx db \<and>
    length (bw_running bw') = nat (bw_workers bw) \<and> ch_closed (bw_stopChannel bw') \<and>
    (\<forall>i < nat (bw_workers bw). bw_running bw' ! i \<longleftrightarrow> m \<le> i)"
  using assms(5)
proof (induction m)
  case 0
  have "bw_step (bw, db) EFlushAndStop None (bw\<lparr>bw_stopChannel := bw_stopChannel bw\<lparr>ch_closed := True\<rparr>\<rparr>, db)"
    using assms(4) by (intro step_flush_and_stop) (simp add: FlushAndStop_def chan_close_def)
  from bw_run_one [OF this] show ?case using assms(1,2)
    by (intro exI [of _ "bw\<lparr>bw_stopChannel := bw_stopChannel bw\<lparr>ch_closed := True\<rparr>\<rparr>"] exI [of _ db]) (simp add: bw_wfD)
next
  case (Suc m)
  then obtain bw1 db1 where r: "bw_run (bw, db) (EFlushAndStop # map EStop [0..<m]) [] (bw1, db1)"
    "bw_channels bw1 = bw_channels bw" "bw_workers bw1 = bw_workers bw" "db_mdbx db1 = db_mdbx db"
    "length (bw_running bw1) = nat (bw_workers bw)" "ch_closed (bw_stopChannel bw1)"
    "\<forall>i < nat (bw_workers bw). bw_running bw1 ! i \<longleftrightarrow> m \<le> i" by auto
  obtain bw2 db2 err where fl: "flush (\<lambda>m. m) bw1 db1 m = (bw2, db2, err)" using prod_cases3 .
  have acc: "err = None" "db_mdbx db2 = db_mdbx db1"
    using flush_accepting [OF _ fl] assms(3) r(4) by auto
  let ?bw = "bw2\<lparr>bw_running := (bw_running bw2)[m := False]\<rparr>"
  have "bw_step (bw1, db1) (EStop m) None (?bw, db2)"
    using r(5-7) Suc.prems fl acc(1)
    by (intro step_stop [OF _ _ iter_order_id]) (simp_all add: worker_stop_def chan_recv_ready_def)
  from bw_run_trans [OF bw_run_one [OF this] r(1)]
  have "bw_run (bw, db) (EFlushAndStop # map EStop [0..<Suc m]) [] (?bw, db2)" by simp
  moreover have "\<forall>i < nat (bw_workers bw). bw_running ?bw ! i \<longleftrightarrow> Suc m \<le> i"
    using r(5,7) flush_bw [OF fl] by (auto simp: nth_update_if)
  ultimately show ?case using r flush_bw [OF fl] acc(2) by (intro exI [of _ ?bw] exI [of _ db2]) simp
qed

section \<open>A concrete run\<close>

text \<open>The writer with one pair in its buffer, and what stopping it does.\<close>

abbreviation sample_buffered :: BatchWriter where
  "sample_buffered \<equiv> sample_bw [[], []] [[], [(sample_key, [9])]] [True, True] False"

lemma sample_buffered_run:
  "bw_run (sample_new, mem_db None []) [EWrite sample_key [9], ERecv 1] [] (sample_buffered, mem_db None [])"
  using bw_run_trans [OF bw_run_one [OF sample_step_recv] bw_run_one [OF sample_step_write]] by simp

lemma sample_buffered_facts:
  "bw_inv sample_buffered" "\<forall>i < nat (bw_workers sample_buffered). bw_running sample_buffered ! i"
  "accepting (db_mdbx (mem_db None []))" "\<not> ch_closed (bw_stopChannel sample_buffered)"
  "\<forall>i < nat (bw_workers sample_buffered). bw_channels sample_buffered ! i = []"
  "map EStop [0..<nat (bw_workers sample_buffered)] = [EStop 0, EStop 1]"
  using bw_run_inv [OF sample_buffered_run] NewBatchWriter_inv [OF sample_NewBatchWriter]
  by (auto simp: sample_bw_def less_Suc_eq numeral_2_eq_2 upt_rec mem_db_def mem_mdbx_accepting)

section \<open>Properties\<close>

text \<open>
  C8. What a stopped writer has stored: when all workers have returned at the end of an error-free
  run, the database holds every accepted write, last write first, except for keys of which a
  request still waits in a channel.
\<close>

theorem stopped_writer_loses_only_queued:
  assumes "NewBatchWriter maxBatch interval workers = Ret bw" and "0 < workers" and "db_ok db"
    and "bw_run (bw, db) evs [] (bw', db')" and "\<forall>i < nat (bw_workers bw'). \<not> bw_running bw' ! i"
    and "\<forall>r \<in> set (bw_channels bw' ! workerID bw' k). req_Key r \<noteq> k"
  shows "db_store db' k = foldl spec_step (db_store db) evs k"
proof -
  have inv: "bw_inv bw" by (rule NewBatchWriter_inv [OF assms(1,2)])
  have "returned_empty bw" using assms(1) by (auto simp: NewBatchWriter_def returned_empty_def split: if_splits)
  then have "returned_empty bw'" using returned_empty_run [OF assms(4)] inv by simp
  moreover have "bw_wf bw'" using bw_run_inv [OF assms(4)] inv by (simp add: bw_inv_def)
  then have "workerID bw' k < nat (bw_workers bw')" by (simp add: bw_wfD workerID_less)
  ultimately have "bw_buffers bw' ! workerID bw' k = []" using assms(5) by (simp add: returned_empty_def)
  then have "db_store db' k = bw_view bw' db' k"
    using queued_None [OF assms(6)] by (simp add: bw_view_def map_add_def)
  also have "\<dots> = foldl spec_step (db_store db) evs k"
    using bw_run_refines [OF assms(4)] inv assms(3) NewBatchWriter_view [OF assms(1,2), of db] by simp
  finally show ?thesis .
qed

theorem stopped_writer_loses_only_queued_witness:
  "\<exists>bw' db'. bw_run (sample_new, mem_db None [])
       [EWrite sample_key [9], ERecv 1, EFlushAndStop, EStop 0, EStop 1] [] (bw', db') \<and>
     db_store db' sample_key = Some [9]"
proof -
  let ?n = "nat (bw_workers sample_buffered)"
  have wf: "bw_wf sample_buffered" using sample_buffered_facts(1) by (simp add: bw_inv_def)
  obtain bw' db' where r: "bw_run (sample_buffered, mem_db None []) [EFlushAndStop, EStop 0, EStop 1] [] (bw', db')"
    "bw_channels bw' = bw_channels sample_buffered" "bw_workers bw' = bw_workers sample_buffered"
    "\<forall>i < ?n. \<not> bw_running bw' ! i"
    using stop_workers [OF wf sample_buffered_facts(2-4) order_refl] unfolding sample_buffered_facts(6) by auto
  have run: "bw_run (sample_new, mem_db None []) [EWrite sample_key [9], ERecv 1, EFlushAndStop, EStop 0, EStop 1] []
      (bw', db')" using bw_run_trans [OF r(1) sample_buffered_run] by simp
  have ch: "bw_channels bw' ! workerID bw' sample_key = []"
    using sample_buffered_facts(5) r(2,3) workerID_less [of bw' sample_key] wf by (simp add: bw_wfD)
  have "db_store db' sample_key = foldl spec_step (db_store (mem_db None []))
      [EWrite sample_key [9], ERecv 1, EFlushAndStop, EStop 0, EStop 1] sample_key"
    by (rule stopped_writer_loses_only_queued [OF sample_NewBatchWriter _ mem_db_ok run]) (use r(3,4) ch in simp_all)
  then show ?thesis using run by auto
qed

text \<open>
  C9. Stopping completes: while the workers run, the engine accepts their transactions and the stop
  channel is open, \<open>FlushAndStop\<close> and one step of each worker bring all workers to return, without an
  error; if no request waits in a channel, the database then holds all accepted writes.
\<close>

theorem flush_and_stop_completes:
  assumes "bw_inv bw" and "db_ok db" and "\<forall>i < nat (bw_workers bw). bw_running bw ! i"
    and "accepting (db_mdbx db)" and "\<not> ch_closed (bw_stopChannel bw)"
  shows "\<exists>bw' db'. bw_run (bw, db) (EFlushAndStop # map EStop [0..<nat (bw_workers bw)]) [] (bw', db') \<and>
    (\<forall>i < nat (bw_workers bw'). \<not> bw_running bw' ! i) \<and> bw_channels bw' = bw_channels bw \<and>
    ((\<forall>i < nat (bw_workers bw). bw_channels bw ! i = []) \<longrightarrow> db_store db' = bw_view bw db)"
proof -
  have wf: "bw_wf bw" using assms(1) by (simp add: bw_inv_def)
  let ?evs = "EFlushAndStop # map EStop [0..<nat (bw_workers bw)]"
  obtain bw' db' where r: "bw_run (bw, db) ?evs [] (bw', db')" "bw_channels bw' = bw_channels bw"
    "bw_workers bw' = bw_workers bw" "\<forall>i < nat (bw_workers bw). \<not> bw_running bw' ! i"
    using stop_workers [OF wf assms(3-5) order_refl] by auto
  have "returned_empty bw'"
    using returned_empty_run [OF r(1)] assms(1,3) by (simp add: returned_empty_def)
  then have q: "quiescent bw'" if "\<forall>i < nat (bw_workers bw). bw_channels bw ! i = []"
    using that r(2-4) by (simp add: quiescent_def returned_empty_def)
  have "foldl spec_step m (map EStop xs) = m" for m xs by (induction xs) auto
  then have "bw_view bw' db' = bw_view bw db" using bw_run_refines [OF r(1)] assms(1,2) by simp
  moreover have "bw_wf bw'" using bw_run_inv [OF r(1)] assms(1) by (simp add: bw_inv_def)
  ultimately show ?thesis using r q quiescent_view [of bw' db'] by metis
qed

theorem flush_and_stop_completes_witness:
  "\<exists>bw' db'. bw_run (sample_buffered, mem_db None []) [EFlushAndStop, EStop 0, EStop 1] [] (bw', db') \<and>
     db_store db' sample_key = Some [9]"
proof -
  have "bw_view sample_buffered (mem_db None []) sample_key = Some [9]"
    by (simp add: bw_view_def) (simp add: sample_bw_def)
  then show ?thesis
    using flush_and_stop_completes [OF sample_buffered_facts(1) mem_db_ok sample_buffered_facts(2-4)]
      sample_buffered_facts(5) unfolding sample_buffered_facts(6) by metis
qed

end
