(* ===== verification/Receive_Buffers.thy ===== *)
theory Receive_Buffers
  imports Tcp_Server Quic_Server
begin

text \<open>
  The memory behind the values. In the other theories a slice is the list of its bytes; that is
  what a handler sees, but the value it hands to the batch writer of \<^verbatim>\<open>src/db/writer.go\<close> is a slice
  of the array its bytes were received into: of a buffer of the event loop over TCP
  (\<^verbatim>\<open>src/transports/tcp\<close>), of the array allocated for the read over QUIC (\<^verbatim>\<open>src/transports/quic\<close>).
  Channels and buffers of the writer hold the slice until a flush reads it. Here the arrays are a
  store, the writer holds slices, and its operations are those of the theory \<open>Batch_Writer\<close>.
\<close>

section \<open>Arrays and slices\<close>

type_synonym memory = "bytes list"

record slice =
  sl_array :: nat
  sl_lo :: nat
  sl_hi :: nat

definition load :: "memory \<Rightarrow> slice \<Rightarrow> bytes" where
  "load m s = take (sl_hi s - sl_lo s) (drop (sl_lo s) (m ! sl_array s))"

text \<open>\<^verbatim>\<open>s[lo:hi]\<close> of a slice.\<close>

definition reslice :: "slice \<Rightarrow> nat \<Rightarrow> nat \<Rightarrow> slice" where
  "reslice s lo hi = s\<lparr>sl_lo := sl_lo s + lo, sl_hi := sl_lo s + hi\<rparr>"

section \<open>The writer\<close>

type_synonym mbuffer = "(bytes \<times> slice) list"

record MemWriter =
  mw_channels :: "mbuffer list"
  mw_buffers :: "mbuffer list"
  mw_maxBatchSize :: int
  mw_flushInterval :: int
  mw_stopChannel :: sigchan
  mw_workers :: int
  mw_running :: "bool list"

definition mem_NewBatchWriter :: "int \<Rightarrow> int \<Rightarrow> int \<Rightarrow> MemWriter go" where
  "mem_NewBatchWriter maxBatchSize flushInterval workers =
     (if workers < 0 then Panic ''makeslice: len out of range''
      else if 0 < workers \<and> flushInterval \<le> 0 then Panic ''non-positive interval for NewTicker''
      else Ret \<lparr>mw_channels = replicate (nat workers) [],
                mw_buffers = replicate (nat workers) [],
                mw_maxBatchSize = maxBatchSize,
                mw_flushInterval = flushInterval,
                mw_stopChannel = make_chan 0,
                mw_workers = workers,
                mw_running = replicate (nat workers) True\<rparr>)"

definition mem_workerID :: "MemWriter \<Rightarrow> bytes \<Rightarrow> nat" where
  "mem_workerID mw key = unat (key ! 0) mod nat (mw_workers mw)"

definition mem_BufferWrite :: "MemWriter \<Rightarrow> bytes \<Rightarrow> slice \<Rightarrow> MemWriter go" where
  "mem_BufferWrite mw key value =
     (if mw_workers mw = 0 then Panic ''integer divide by zero''
      else
        let i = mem_workerID mw key; ch = mw_channels mw ! i
        in if length ch < chan_capacity
           then Ret (mw\<lparr>mw_channels := (mw_channels mw)[i := ch @ [(key, value)]]\<rparr>)
           else Blocked)"

text \<open>A flush reads the values out of the arrays as they are now.\<close>

definition loaded :: "memory \<Rightarrow> mbuffer \<Rightarrow> wbuffer" where
  "loaded m b = map (\<lambda>(k, s). (k, load m s)) b"

definition mem_flush ::
    "memory \<Rightarrow> (wbuffer \<Rightarrow> wbuffer) \<Rightarrow> MemWriter \<Rightarrow> ('e, 't) Db \<Rightarrow> nat \<Rightarrow>
     MemWriter \<times> ('e, 't) Db \<times> error option" where
  "mem_flush m ord mw db i =
     (if length (mw_buffers mw ! i) = 0 then (mw, db, None)
      else
        case Update (db_mdbx db) (db_env db)
               (\<lambda>txn vs. case OpenCursor (db_mdbx db) txn (Db_GetDBI db) of
                  Some err \<Rightarrow> (Some (Wrapped ''failed to open cursor'' err), txn, vs)
                | None \<Rightarrow>
                    (case put_all (db_mdbx db) (Db_GetDBI db) (ord (loaded m (mw_buffers mw ! i))) txn of
                       (err, txn) \<Rightarrow> (err, txn, vs))) no_vars of
          (err, env, vs) \<Rightarrow>
            (mw\<lparr>mw_buffers := (mw_buffers mw)[i := []]\<rparr>, db\<lparr>db_env := env\<rparr>, err))"

definition mem_recv ::
    "memory \<Rightarrow> (wbuffer \<Rightarrow> wbuffer) \<Rightarrow> MemWriter \<Rightarrow> ('e, 't) Db \<Rightarrow> nat \<Rightarrow>
     (MemWriter \<times> ('e, 't) Db \<times> error option) option" where
  "mem_recv m ord mw db i =
     (case mw_channels mw ! i of
        [] \<Rightarrow> None
      | (key, value) # ch \<Rightarrow>
          (let buf = AList.update key value (mw_buffers mw ! i);
               mw = mw\<lparr>mw_channels := (mw_channels mw)[i := ch],
                       mw_buffers := (mw_buffers mw)[i := buf]\<rparr>
           in if mw_maxBatchSize mw \<le> int (length (mw_buffers mw ! i))
              then Some (mem_flush m ord mw db i)
              else Some (mw, db, None)))"

definition mem_tick ::
    "memory \<Rightarrow> (wbuffer \<Rightarrow> wbuffer) \<Rightarrow> MemWriter \<Rightarrow> ('e, 't) Db \<Rightarrow> nat \<Rightarrow>
     MemWriter \<times> ('e, 't) Db \<times> error option" where
  "mem_tick m ord mw db i = mem_flush m ord mw db i"

definition mem_stop ::
    "memory \<Rightarrow> (wbuffer \<Rightarrow> wbuffer) \<Rightarrow> MemWriter \<Rightarrow> ('e, 't) Db \<Rightarrow> nat \<Rightarrow>
     (MemWriter \<times> ('e, 't) Db \<times> error option) option" where
  "mem_stop m ord mw db i =
     (if chan_recv_ready (mw_stopChannel mw)
      then case mem_flush m ord mw db i of
             (mw, db, err) \<Rightarrow> Some (mw\<lparr>mw_running := (mw_running mw)[i := False]\<rparr>, db, err)
      else None)"

definition mem_FlushAndStop :: "MemWriter \<Rightarrow> MemWriter go" where
  "mem_FlushAndStop mw =
     go_bind (chan_close (mw_stopChannel mw)) (\<lambda>c. Ret (mw\<lparr>mw_stopChannel := c\<rparr>))"

section \<open>The write handlers\<close>

text \<open>
  The TCP write handler is given the slice that \<^verbatim>\<open>c.Next(-1)\<close> returned: the key is copied, the
  value is a slice of the same array.
\<close>

definition mem_TCPWriteHandler :: "memory \<Rightarrow> MemWriter \<Rightarrow> slice \<Rightarrow> (MemWriter \<times> bytes list) go" where
  "mem_TCPWriteHandler m mw frame =
     (if sl_hi frame - sl_lo frame < 34 then Ret (mw, [[0x01]])
      else
        let key = go_copy 0 32 (load m (reslice frame 1 33)) (replicate 32 0);
            value = reslice frame 33 (sl_hi frame - sl_lo frame)
        in go_bind (mem_BufferWrite mw key value) (\<lambda>mw. Ret (mw, [[0x00]])))"

text \<open>
  One pass of the loop of \<open>handleStream\<close> in which \<open>Read\<close> yields \<open>data\<close> and no error: a fresh array
  of 4096 bytes, of which the decoded message has a slice. The effect on the writer and on the
  memory; the answers are those of \<open>handleStream\<close>.
\<close>

definition mem_handleStream :: "memory \<Rightarrow> MemWriter \<Rightarrow> bytes \<Rightarrow> (memory \<times> MemWriter) go" where
  "mem_handleStream m mw data =
     (let m = m @ [data @ replicate (4096 - length data) 0];
          buffer = \<lparr>sl_array = length m - 1, sl_lo = 0, sl_hi = length data\<rparr>
      in go_bind (Decode (load m buffer)) (\<lambda>r.
           case r of
             Inl err \<Rightarrow> Ret (m, mw)
           | Inr message \<Rightarrow>
               if msg_Handler message = WriteHandlerType
               then go_bind (mem_BufferWrite mw (msg_Key message)
                      (reslice buffer 37 (37 + length (msg_Data message)))) (\<lambda>mw. Ret (m, mw))
               else Ret (m, mw)))"

section \<open>Steps\<close>

text \<open>
  A step of the program or of the event loop, which reuses its buffers: \<open>MFill a bs\<close> stores
  received bytes at the beginning of the array \<open>a\<close>.
\<close>

datatype mem_event = MWrite bytes slice | MFill nat bytes | MAlloc bytes | MWork bw_event

definition fill :: "memory \<Rightarrow> nat \<Rightarrow> bytes \<Rightarrow> memory" where
  "fill m a bs = m[a := bs @ drop (length bs) (m ! a)]"

type_synonym ('e, 't) mem_state = "memory \<times> MemWriter \<times> ('e, 't) Db"

inductive mem_step ::
    "('e, 't) mem_state \<Rightarrow> mem_event \<Rightarrow> error option \<Rightarrow> ('e, 't) mem_state \<Rightarrow> bool" where
  m_write: "is_key k \<Longrightarrow> sl_array s < length m \<Longrightarrow> mem_BufferWrite mw k s = Ret mw' \<Longrightarrow>
    mem_step (m, mw, db) (MWrite k s) None (m, mw', db)"
| m_fill: "a < length m \<Longrightarrow> mem_step (m, mw, db) (MFill a bs) None (fill m a bs, mw, db)"
| m_alloc: "mem_step (m, mw, db) (MAlloc bs) None (m @ [bs], mw, db)"
| m_recv: "i < length (mw_running mw) \<Longrightarrow> mw_running mw ! i \<Longrightarrow> iter_order ord \<Longrightarrow>
    mem_recv m ord mw db i = Some (mw', db', err) \<Longrightarrow>
    mem_step (m, mw, db) (MWork (ERecv i)) err (m, mw', db')"
| m_tick: "i < length (mw_running mw) \<Longrightarrow> mw_running mw ! i \<Longrightarrow> iter_order ord \<Longrightarrow>
    mem_tick m ord mw db i = (mw', db', err) \<Longrightarrow>
    mem_step (m, mw, db) (MWork (ETick i)) err (m, mw', db')"
| m_stop: "i < length (mw_running mw) \<Longrightarrow> mw_running mw ! i \<Longrightarrow> iter_order ord \<Longrightarrow>
    mem_stop m ord mw db i = Some (mw', db', err) \<Longrightarrow>
    mem_step (m, mw, db) (MWork (EStop i)) err (m, mw', db')"
| m_flush_and_stop: "mem_FlushAndStop mw = Ret mw' \<Longrightarrow>
    mem_step (m, mw, db) (MWork EFlushAndStop) None (m, mw', db)"

section \<open>Abstraction\<close>

text \<open>The writer of the theory \<open>Batch_Writer\<close> that a writer with slices represents in a memory.\<close>

definition mw_abs :: "memory \<Rightarrow> MemWriter \<Rightarrow> BatchWriter" where
  "mw_abs m mw = \<lparr>
     bw_channels = map (map (\<lambda>(k, s). \<lparr>req_Key = k, req_Value = load m s\<rparr>)) (mw_channels mw),
     bw_buffers = map (loaded m) (mw_buffers mw),
     bw_maxBatchSize = mw_maxBatchSize mw, bw_flushInterval = mw_flushInterval mw,
     bw_stopChannel = mw_stopChannel mw, bw_workers = mw_workers mw, bw_running = mw_running mw\<rparr>"

definition pinned :: "MemWriter \<Rightarrow> nat set" where
  "pinned mw = (\<lambda>(k, s). sl_array s) ` (\<Union>(set ` set (mw_channels mw)) \<union> \<Union>(set ` set (mw_buffers mw)))"

text \<open>As many channels and buffers as workers, and slices of arrays that exist.\<close>

definition mem_wf :: "memory \<Rightarrow> MemWriter \<Rightarrow> bool" where
  "mem_wf m mw \<longleftrightarrow> 0 < mw_workers mw \<and> length (mw_channels mw) = nat (mw_workers mw) \<and>
     length (mw_buffers mw) = nat (mw_workers mw) \<and> length (mw_running mw) = nat (mw_workers mw) \<and>
     (\<forall>a \<in> pinned mw. a < length m)"

lemma load_reslice:
  "lo \<le> hi \<Longrightarrow> hi \<le> sl_hi s - sl_lo s \<Longrightarrow> load m (reslice s lo hi) = take (hi - lo) (drop lo (load m s))"
  by (simp add: load_def reslice_def drop_take min_def add.commute)

lemma load_fill: "sl_array s \<noteq> a \<Longrightarrow> load (fill m a bs) s = load m s"
  by (simp add: load_def fill_def)

lemma load_alloc: "sl_array s < length m \<Longrightarrow> load (m @ [bs]) s = load m s"
  by (simp add: load_def nth_append)

lemma mw_abs_cong:
  assumes "\<And>s. sl_array s \<in> pinned mw \<Longrightarrow> load m' s = load m s"
  shows "mw_abs m' mw = mw_abs m mw"
proof -
  have "load m' s = load m s" if "(k, s) \<in> set b" "b \<in> set (mw_channels mw) \<union> set (mw_buffers mw)" for k s b
    using that by (intro assms) (force simp: pinned_def)
  then show ?thesis by (auto simp: mw_abs_def loaded_def intro!: map_cong)
qed

lemma mw_abs_fill: "a \<notin> pinned mw \<Longrightarrow> mw_abs (fill m a bs) mw = mw_abs m mw"
  by (rule mw_abs_cong) (auto intro: load_fill)

lemma mw_abs_alloc: "mem_wf m mw \<Longrightarrow> mw_abs (m @ [bs]) mw = mw_abs m mw"
  by (rule mw_abs_cong) (auto simp: mem_wf_def intro: load_alloc)

section \<open>The operations commute with the abstraction\<close>

lemma loaded_update: "loaded m (AList.update k s b) = AList.update k (load m s) (loaded m b)"
  by (induction b) (auto simp: loaded_def)

lemma mw_abs_simps [simp]:
  "bw_workers (mw_abs m mw) = mw_workers mw" "bw_running (mw_abs m mw) = mw_running mw"
  "bw_maxBatchSize (mw_abs m mw) = mw_maxBatchSize mw" "bw_stopChannel (mw_abs m mw) = mw_stopChannel mw"
  "workerID (mw_abs m mw) k = mem_workerID mw k"
  by (simp_all add: mw_abs_def workerID_def mem_workerID_def)

lemma mw_abs_at:
  assumes "mem_wf m mw" and "i < nat (mw_workers mw)"
  shows "bw_channels (mw_abs m mw) ! i = map (\<lambda>(k, s). \<lparr>req_Key = k, req_Value = load m s\<rparr>) (mw_channels mw ! i)"
    and "bw_buffers (mw_abs m mw) ! i = loaded m (mw_buffers mw ! i)"
  using assms by (simp_all add: mw_abs_def mem_wf_def)

lemma mw_abs_upd:
  "mw_abs m (mw\<lparr>mw_channels := (mw_channels mw)[i := c]\<rparr>) =
     (mw_abs m mw)\<lparr>bw_channels := (bw_channels (mw_abs m mw))[i := map (\<lambda>(k, s). \<lparr>req_Key = k, req_Value = load m s\<rparr>) c]\<rparr>"
  "mw_abs m (mw\<lparr>mw_buffers := (mw_buffers mw)[i := b]\<rparr>) =
     (mw_abs m mw)\<lparr>bw_buffers := (bw_buffers (mw_abs m mw))[i := loaded m b]\<rparr>"
  "mw_abs m (mw\<lparr>mw_running := r\<rparr>) = (mw_abs m mw)\<lparr>bw_running := r\<rparr>"
  "mw_abs m (mw\<lparr>mw_stopChannel := st\<rparr>) = (mw_abs m mw)\<lparr>bw_stopChannel := st\<rparr>"
  by (simp_all add: mw_abs_def map_update)

lemma mem_workerID_less: "mem_wf m mw \<Longrightarrow> mem_workerID mw k < nat (mw_workers mw)"
  by (simp add: mem_workerID_def mem_wf_def)

lemma abs_BufferWrite:
  assumes "mem_wf m mw"
  shows "BufferWrite (mw_abs m mw) k (load m s) = go_bind (mem_BufferWrite mw k s) (\<lambda>mw'. Ret (mw_abs m mw'))"
  using mw_abs_at(1) [OF assms mem_workerID_less [OF assms]]
  by (simp add: BufferWrite_def mem_BufferWrite_def Let_def mw_abs_upd)

definition abs_result ::
    "memory \<Rightarrow> MemWriter \<times> ('e, 't) Db \<times> error option \<Rightarrow> BatchWriter \<times> ('e, 't) Db \<times> error option" where
  "abs_result m r = (case r of (mw, db, err) \<Rightarrow> (mw_abs m mw, db, err))"

lemma loaded_Nil_iff [simp]: "loaded m b = [] \<longleftrightarrow> b = []"
  by (simp add: loaded_def)

lemma length_loaded [simp]: "length (loaded m b) = length b"
  by (simp add: loaded_def)

lemma loaded_Nil [simp]: "loaded m [] = []"
  by (simp add: loaded_def)

lemma abs_flush:
  assumes "mem_wf m mw" and "i < nat (mw_workers mw)"
  shows "flush ord (mw_abs m mw) db i = abs_result m (mem_flush m ord mw db i)"
  unfolding flush_def mem_flush_def mw_abs_at(2) [OF assms]
  by (auto simp: abs_result_def mw_abs_upd(2) split: prod.split)

lemma pinned_chan: "i < length (mw_channels mw) \<Longrightarrow> (k, s) \<in> set (mw_channels mw ! i) \<Longrightarrow> sl_array s \<in> pinned mw"
  by (force simp: pinned_def)

lemma pinned_buf: "i < length (mw_buffers mw) \<Longrightarrow> (k, s) \<in> set (mw_buffers mw ! i) \<Longrightarrow> sl_array s \<in> pinned mw"
  by (force simp: pinned_def)

lemma pinned_upd [simp]:
  "pinned (mw\<lparr>mw_running := r\<rparr>) = pinned mw" "pinned (mw\<lparr>mw_stopChannel := c\<rparr>) = pinned mw"
  by (simp_all add: pinned_def)

lemma pinned_subset:
  assumes "\<And>i k s. i < length (mw_channels mw') \<Longrightarrow> (k, s) \<in> set (mw_channels mw' ! i) \<Longrightarrow> sl_array s \<in> A"
    and "\<And>i k s. i < length (mw_buffers mw') \<Longrightarrow> (k, s) \<in> set (mw_buffers mw' ! i) \<Longrightarrow> sl_array s \<in> A"
  shows "pinned mw' \<subseteq> A"
  using assms by (fastforce simp: pinned_def in_set_conv_nth [of _ "mw_channels mw'"] in_set_conv_nth [of _ "mw_buffers mw'"])

definition mem_buffered :: "MemWriter \<Rightarrow> nat \<Rightarrow> MemWriter" where
  "mem_buffered mw i =
     (let (key, value) = hd (mw_channels mw ! i)
      in mw\<lparr>mw_channels := (mw_channels mw)[i := tl (mw_channels mw ! i)],
            mw_buffers := (mw_buffers mw)[i := AList.update key value (mw_buffers mw ! i)]\<rparr>)"

lemma mem_recv_eq:
  "mem_recv m ord mw db i =
     (if mw_channels mw ! i = [] then None
      else if mw_maxBatchSize mw \<le> int (length (mw_buffers (mem_buffered mw i) ! i))
      then Some (mem_flush m ord (mem_buffered mw i) db i)
      else Some (mem_buffered mw i, db, None))"
  by (auto simp: mem_recv_def mem_buffered_def Let_def split: list.split)

lemma mem_flush_mw:
  "mem_flush m ord mw db i = (mw', db', err) \<Longrightarrow> mw' = mw\<lparr>mw_buffers := (mw_buffers mw)[i := []]\<rparr>"
proof (cases "mw_buffers mw ! i = []")
  case True
  then have "(mw_buffers mw)[i := []] = mw_buffers mw" by (metis list_update_id)
  with True show "mem_flush m ord mw db i = (mw', db', err) \<Longrightarrow> ?thesis" by (simp add: mem_flush_def)
qed (auto simp: mem_flush_def split: prod.splits)

lemma mem_wf_clear: "mem_wf m mw \<Longrightarrow> mem_wf m (mw\<lparr>mw_buffers := (mw_buffers mw)[i := []]\<rparr>)"
proof -
  have "pinned (mw\<lparr>mw_buffers := (mw_buffers mw)[i := []]\<rparr>) \<subseteq> pinned mw"
    by (rule pinned_subset) (auto simp: nth_update_if pinned_chan pinned_buf split: if_splits)
  then show "mem_wf m mw \<Longrightarrow> ?thesis" by (auto simp: mem_wf_def)
qed

lemma mem_wf_buffered:
  assumes "mem_wf m mw" and "i < nat (mw_workers mw)" and "mw_channels mw ! i \<noteq> []"
  shows "mem_wf m (mem_buffered mw i)"
proof -
  obtain k s ch where c: "mw_channels mw ! i = (k, s) # ch" using assms(3) by (metis list.exhaust surj_pair)
  have i: "i < length (mw_channels mw)" "i < length (mw_buffers mw)" using assms(1,2) by (simp_all add: mem_wf_def)
  have "pinned (mem_buffered mw i) \<subseteq> pinned mw"
  proof (rule pinned_subset)
    fix j k' s' assume "j < length (mw_channels (mem_buffered mw i))" "(k', s') \<in> set (mw_channels (mem_buffered mw i) ! j)"
    then show "sl_array s' \<in> pinned mw"
      using pinned_chan [of j mw k' s'] c by (cases "j = i") (auto simp: mem_buffered_def nth_update_if)
  next
    fix j k' s' assume j: "j < length (mw_buffers (mem_buffered mw i))" "(k', s') \<in> set (mw_buffers (mem_buffered mw i) ! j)"
    have "sl_array s \<in> pinned mw" using pinned_chan [OF i(1), of k s] c by simp
    then show "sl_array s' \<in> pinned mw"
      using j pinned_buf [of j mw k' s'] i set_AList_update [of k s "mw_buffers mw ! i"]
      by (auto simp: mem_buffered_def c nth_update_if split: if_splits)
  qed
  then show ?thesis using assms(1) by (auto simp: mem_wf_def mem_buffered_def split: prod.split)
qed

lemma abs_buffered:
  assumes "mem_wf m mw" and "i < nat (mw_workers mw)" and "mw_channels mw ! i \<noteq> []"
  shows "mw_abs m (mem_buffered mw i) = buffered (mw_abs m mw) i"
proof -
  obtain k s ch where c: "mw_channels mw ! i = (k, s) # ch" using assms(3) by (metis list.exhaust surj_pair)
  have i: "i < length (mw_channels mw)" "i < length (mw_buffers mw)" using assms(1,2) by (simp_all add: mem_wf_def)
  show ?thesis using i by (simp add: mem_buffered_def buffered_def mw_abs_def c loaded_update map_update)
qed

lemma abs_recv:
  assumes "mem_wf m mw" and "i < nat (mw_workers mw)"
  shows "worker_recv ord (mw_abs m mw) db i = map_option (abs_result m) (mem_recv m ord mw db i)"
proof (cases "mw_channels mw ! i = []")
  case True
  then show ?thesis by (simp add: worker_recv_eq mem_recv_eq mw_abs_at [OF assms])
next
  case False
  note wf = mem_wf_buffered [OF assms False]
  have i: "i < nat (mw_workers (mem_buffered mw i))"
    using assms(2) by (simp add: mem_buffered_def split: prod.split)
  have "length (bw_buffers (buffered (mw_abs m mw) i) ! i) = length (mw_buffers (mem_buffered mw i) ! i)"
    using mw_abs_at(2) [OF wf i] by (simp add: abs_buffered [OF assms False])
  then show ?thesis
    using False abs_flush [OF wf i, of ord db] by (simp add: worker_recv_eq mem_recv_eq mw_abs_at [OF assms]
      abs_buffered [OF assms False] abs_result_def)
qed

lemma abs_stop:
  assumes "mem_wf m mw" and "i < nat (mw_workers mw)"
  shows "worker_stop ord (mw_abs m mw) db i = map_option (abs_result m) (mem_stop m ord mw db i)"
  by (auto simp: worker_stop_def mem_stop_def abs_flush [OF assms] abs_result_def mw_abs_upd split: prod.split)

lemma abs_FlushAndStop: "FlushAndStop (mw_abs m mw) = go_bind (mem_FlushAndStop mw) (\<lambda>mw. Ret (mw_abs m mw))"
  by (simp add: FlushAndStop_def mem_FlushAndStop_def chan_close_def mw_abs_upd)

lemma mem_BufferWrite_Ret:
  "mem_BufferWrite mw k s = Ret mw' \<Longrightarrow>
   mw' = mw\<lparr>mw_channels := (mw_channels mw)[mem_workerID mw k := mw_channels mw ! mem_workerID mw k @ [(k, s)]]\<rparr>"
  by (auto simp: mem_BufferWrite_def Let_def split: if_splits)

lemma mem_wf_write:
  assumes "mem_wf m mw" and "sl_array s < length m" and "mem_BufferWrite mw k s = Ret mw'"
  shows "mem_wf m mw'"
proof -
  note mw' = mem_BufferWrite_Ret [OF assms(3)]
  have "pinned mw' \<subseteq> insert (sl_array s) (pinned mw)"
    by (rule pinned_subset) (auto simp: mw' nth_update_if pinned_chan pinned_buf split: if_splits)
  then show ?thesis using assms(1,2) by (auto simp: mem_wf_def mw')
qed

section \<open>Simulation\<close>

fun abs_event :: "memory \<Rightarrow> mem_event \<Rightarrow> bw_event option" where
  "abs_event m (MWrite k s) = Some (EWrite k (load m s))"
| "abs_event m (MWork e) = Some e"
| "abs_event m _ = None"

text \<open>A step that overwrites no array the writer still holds a slice of.\<close>

definition reuses :: "(MemWriter \<Rightarrow> nat set) \<Rightarrow> MemWriter \<Rightarrow> mem_event \<Rightarrow> bool" where
  "reuses D mw ev \<longleftrightarrow> (case ev of MFill a bs \<Rightarrow> a \<in> D mw | _ \<Rightarrow> True)"

definition free_arrays :: "MemWriter \<Rightarrow> nat set" where
  "free_arrays mw = - pinned mw"

lemma mem_wf_step:
  assumes "mem_step (m, mw, db) ev err (m', mw', db')" and "mem_wf m mw"
  shows "mem_wf m' mw'"
  using assms(1)
proof cases
  case (m_write k s)
  then show ?thesis using assms(2) by (auto intro: mem_wf_write)
next
  case (m_recv i ord)
  then have "mem_wf m (mem_buffered mw i)"
    by (intro mem_wf_buffered [OF assms(2)]) (use assms(2) in \<open>auto simp: mem_recv_eq mem_wf_def\<close>)
  then show ?thesis
    using m_recv by (auto simp: mem_recv_eq dest!: mem_flush_mw intro: mem_wf_clear split: if_splits)
next
  case (m_stop i ord)
  have "mem_wf m (mw\<lparr>mw_buffers := (mw_buffers mw)[i := []]\<rparr>)" by (rule mem_wf_clear [OF assms(2)])
  then show ?thesis
    using m_stop by (auto simp: mem_stop_def mem_wf_def dest!: mem_flush_mw split: if_splits prod.splits)
next
  case (m_tick i ord)
  then show ?thesis using mem_wf_clear [OF assms(2), of i] by (auto simp: mem_tick_def dest!: mem_flush_mw)
qed (use assms(2) in \<open>auto simp: mem_wf_def fill_def mem_FlushAndStop_def chan_close_def split: if_splits\<close>)

lemma mem_step_simulates:
  assumes "mem_step (m, mw, db) ev err (m', mw', db')" and "mem_wf m mw" and "reuses free_arrays mw ev"
  shows "case abs_event m ev of None \<Rightarrow> mw_abs m' mw' = mw_abs m mw \<and> db' = db \<and> err = None
         | Some e \<Rightarrow> bw_step (mw_abs m mw, db) e err (mw_abs m' mw', db')"
  using assms(1)
proof cases
  case (m_write k s)
  then show ?thesis
    using abs_BufferWrite [OF assms(2), of k s] by (auto intro: bw_step.step_write)
next
  case (m_fill a bs)
  then show ?thesis using assms(3) by (simp add: reuses_def free_arrays_def mw_abs_fill)
next
  case (m_alloc bs)
  then show ?thesis using mw_abs_alloc [OF assms(2)] by simp
next
  case (m_recv i ord)
  have "i < nat (mw_workers mw)" using m_recv(3) assms(2) by (simp add: mem_wf_def)
  then show ?thesis
    using abs_recv [OF assms(2), of i ord db] m_recv by (auto simp: abs_result_def intro: bw_step.step_recv)
next
  case (m_tick i ord)
  have "i < nat (mw_workers mw)" using m_tick(3) assms(2) by (simp add: mem_wf_def)
  then show ?thesis
    using abs_flush [OF assms(2), of i ord db] m_tick
    by (auto simp: abs_result_def worker_tick_def mem_tick_def intro: bw_step.step_tick)
next
  case (m_stop i ord)
  have "i < nat (mw_workers mw)" using m_stop(3) assms(2) by (simp add: mem_wf_def)
  then show ?thesis
    using abs_stop [OF assms(2), of i ord db] m_stop by (auto simp: abs_result_def intro: bw_step.step_stop)
next
  case m_flush_and_stop
  then show ?thesis using abs_FlushAndStop [of m mw] by (auto intro: bw_step.step_flush_and_stop)
qed

text \<open>
  Runs under a discipline \<open>D\<close> of reuse, which says which arrays may be overwritten in a state. The trace records the
  writes with the values the slices had when the writes were accepted.
\<close>

inductive mem_run ::
    "(MemWriter \<Rightarrow> nat set) \<Rightarrow> ('e, 't) mem_state \<Rightarrow> bw_event list \<Rightarrow> error list \<Rightarrow> ('e, 't) mem_state \<Rightarrow> bool"
  for D :: "MemWriter \<Rightarrow> nat set" where
  mrun_nil: "mem_run D s [] [] s"
| mrun_step: "mem_run D s tr errs (m, mw, db) \<Longrightarrow> mem_step (m, mw, db) ev err s' \<Longrightarrow> reuses D mw ev \<Longrightarrow>
    mem_run D s (tr @ (case abs_event m ev of None \<Rightarrow> [] | Some e \<Rightarrow> [e]))
      (errs @ (case err of None \<Rightarrow> [] | Some e \<Rightarrow> [e])) s'"

lemma mem_run_simulates:
  assumes "mem_run free_arrays s tr errs s'" and "s = (m, mw, db)" and "mem_wf m mw" and "s' = (m', mw', db')"
  shows "mem_wf m' mw' \<and> bw_run (mw_abs m mw, db) tr errs (mw_abs m' mw', db')"
  using assms
proof (induction arbitrary: m' mw' db' rule: mem_run.induct)
  case (mrun_nil s)
  then show ?case by (auto intro: bw_run.run_nil)
next
  case (mrun_step s tr errs m1 mw1 db1 ev err s')
  have IH: "mem_wf m1 mw1" "bw_run (mw_abs m mw, db) tr errs (mw_abs m1 mw1, db1)"
    using mrun_step.IH mrun_step.prems(1,2) by auto
  note st = mem_step_simulates [OF mrun_step(2) [unfolded mrun_step.prems(3)] IH(1) mrun_step(3)]
    mem_wf_step [OF mrun_step(2) [unfolded mrun_step.prems(3)] IH(1)]
  show ?case
  proof (cases "abs_event m1 ev")
    case None
    then show ?thesis using st IH(2) by simp
  next
    case (Some e)
    then show ?thesis using st bw_run.run_step [OF IH(2)] by simp
  qed
qed

lemma mem_run_mono:
  "mem_run D s tr errs s' \<Longrightarrow> (\<And>mw. D mw \<subseteq> E mw) \<Longrightarrow> mem_run E s tr errs s'"
proof (induction rule: mem_run.induct)
  case (mrun_step s tr errs m mw db ev err s')
  then show ?case by (intro mem_run.mrun_step) (auto simp: reuses_def split: mem_event.splits)
qed (rule mem_run.mrun_nil)

section \<open>What holds whatever is overwritten\<close>

text \<open>The invariant of the writer speaks of keys and sizes only, so it does not depend on the memory.\<close>

lemma loaded_keys [simp]: "map fst (loaded m b) = map fst b" "dom (map_of (loaded m b)) = fst ` set b"
  by (simp_all add: loaded_def dom_map_of_conv_image_fst image_image split_def comp_def)

lemma bw_inv_memory:
  assumes "bw_inv (mw_abs m mw)"
  shows "bw_inv (mw_abs m' mw)"
proof -
  have r: "routed (mw_abs m' mw) = routed (mw_abs m mw)" by (simp add: fun_eq_iff routed_def)
  have len: "length (mw_channels mw) = nat (mw_workers mw)" "length (mw_buffers mw) = nat (mw_workers mw)"
    using assms by (simp_all add: bw_inv_def bw_wf_def mw_abs_def)
  have "worker_wf (mw_abs m' mw) i = worker_wf (mw_abs m mw) i" if "i < nat (mw_workers mw)" for i
    using that len unfolding worker_wf_def r by (simp add: mw_abs_def split_def)
  then have "bw_wf (mw_abs m' mw)" using assms by (simp add: bw_inv_def bw_wf_def) (simp add: mw_abs_def)
  moreover have "buffers_bounded (mw_abs m' mw)"
    using assms len by (simp add: bw_inv_def buffers_bounded_def) (simp add: mw_abs_def)
  ultimately show ?thesis by (simp add: bw_inv_def)
qed

lemma mem_step_inv:
  assumes "mem_step (m, mw, db) ev err (m', mw', db')" and "mem_wf m mw" and "bw_inv (mw_abs m mw)" and "db_ok db"
  shows "bw_inv (mw_abs m' mw') \<and> db_ok db'"
proof (cases "abs_event m ev")
  case None
  then have "mw' = mw" and "db' = db" using assms(1) by (auto elim!: mem_step.cases)
  then show ?thesis using assms(3,4) by (auto intro: bw_inv_memory)
next
  case (Some e)
  then have "reuses free_arrays mw ev" by (cases ev) (simp_all add: reuses_def)
  then have "bw_step (mw_abs m mw, db) e err (mw_abs m' mw', db')"
    using mem_step_simulates [OF assms(1,2)] Some by simp
  then show ?thesis using bw_inv_step db_ok_step assms(3,4) by fastforce
qed

lemma mem_run_inv:
  assumes "mem_run D s tr errs s'" and "s = (m, mw, db)" and "s' = (m', mw', db')"
    and "mem_wf m mw" and "bw_inv (mw_abs m mw)" and "db_ok db"
  shows "mem_wf m' mw' \<and> bw_inv (mw_abs m' mw') \<and> db_ok db'"
  using assms
proof (induction arbitrary: m' mw' db' rule: mem_run.induct)
  case (mrun_step s tr errs m1 mw1 db1 ev err s')
  then have IH: "mem_wf m1 mw1" "bw_inv (mw_abs m1 mw1)" "db_ok db1" by auto
  then show ?case
    using mem_wf_step mem_step_inv mrun_step(2) [unfolded mrun_step.prems(2)] by blast
qed auto

lemma mem_NewBatchWriter_abs:
  assumes "mem_NewBatchWriter maxBatch interval workers = Ret mw" and "0 < workers"
  shows "NewBatchWriter maxBatch interval workers = Ret (mw_abs m mw)" and "mem_wf m mw"
  using assms by (auto simp: mem_NewBatchWriter_def NewBatchWriter_def mw_abs_def mem_wf_def pinned_def split: if_splits)

lemma mem_fresh_inv:
  assumes "mem_NewBatchWriter maxBatch interval workers = Ret mw" and "0 < workers"
  shows "bw_inv (mw_abs m mw)"
  using NewBatchWriter_inv mem_NewBatchWriter_abs(1) [OF assms] assms(2) .

lemma mem_fresh_view:
  assumes "mem_NewBatchWriter maxBatch interval workers = Ret mw" and "0 < workers"
  shows "bw_view (mw_abs m mw) db = db_store db"
  by (rule NewBatchWriter_view [OF mem_NewBatchWriter_abs(1) [OF assms] assms(2)])

lemma drained_store:
  assumes "bw_inv bw" and "db_ok db" and "bw_run (bw, db) evs [] (bw', db')" and "quiescent bw'"
  shows "db_store db' = foldl spec_step (bw_view bw db) evs"
proof -
  have "bw_wf bw'" using bw_run_inv [OF assms(3)] assms(1) by (simp add: bw_inv_def)
  then have "bw_view bw' db' = db_store db'" using assms(4) by (rule quiescent_view)
  then show ?thesis using bw_run_refines [OF assms(3)] assms(1,2) by simp
qed

section \<open>Streams\<close>

text \<open>Passes of the loops of any number of QUIC streams, interleaved with the steps of the writer.\<close>

definition stream_event :: "bytes \<Rightarrow> bw_event list" where
  "stream_event data =
     (case Decode data of
        Ret (Inr message) \<Rightarrow>
          if msg_Handler message = WriteHandlerType then [EWrite (msg_Key message) (msg_Data message)] else []
      | _ \<Rightarrow> [])"

inductive stream_run ::
    "('e, 't) mem_state \<Rightarrow> bw_event list \<Rightarrow> error list \<Rightarrow> ('e, 't) mem_state \<Rightarrow> bool" where
  srun_nil: "stream_run s [] [] s"
| srun_read: "stream_run s tr errs (m, mw, db) \<Longrightarrow> length data \<le> 4096 \<Longrightarrow>
    mem_handleStream m mw data = Ret (m', mw') \<Longrightarrow>
    stream_run s (tr @ stream_event data) errs (m', mw', db)"
| srun_work: "stream_run s tr errs (m, mw, db) \<Longrightarrow> mem_step (m, mw, db) (MWork e) err s' \<Longrightarrow>
    stream_run s (tr @ [e]) (errs @ (case err of None \<Rightarrow> [] | Some e \<Rightarrow> [e])) s'"

abbreviation no_reuse :: "MemWriter \<Rightarrow> nat set" where
  "no_reuse \<equiv> \<lambda>mw. {}"

lemma load_fresh:
  "load (m @ [data @ pad]) \<lparr>sl_array = length m, sl_lo = 0, sl_hi = length data\<rparr> = data"
  by (simp add: load_def nth_append)

lemma mem_handleStream_run:
  assumes "mem_handleStream m mw data = Ret (m', mw')" and "mem_run no_reuse s tr errs (m, mw, db)"
  shows "mem_run no_reuse s (tr @ stream_event data) errs (m', mw', db)"
proof -
  let ?m = "m @ [data @ replicate (4096 - length data) 0]"
  have alloc: "mem_run no_reuse s tr errs (?m, mw, db)"
    using mem_run.mrun_step [OF assms(2) mem_step.m_alloc, of "data @ replicate (4096 - length data) 0"]
    by (simp add: reuses_def)
  show ?thesis
  proof (cases "\<exists>msg. Decode data = Ret (Inr msg) \<and> msg_Handler msg = WriteHandlerType")
    case False
    obtain r where r: "Decode data = Ret r"
      using assms(1) by (auto simp: mem_handleStream_def Let_def load_fresh go_bind_Ret_iff)
    have "m' = ?m \<and> mw' = mw \<and> stream_event data = []"
      using assms(1) False by (cases r) (auto simp: mem_handleStream_def Let_def load_fresh r stream_event_def)
    then show ?thesis using alloc by simp
  next
    case True
    then obtain msg where d: "Decode data = Ret (Inr msg)" and h: "msg_Handler msg = WriteHandlerType" by blast
    note ok = Decode_okD [OF d]
    define s where "s = reslice \<lparr>sl_array = length m, sl_lo = 0, sl_hi = length data\<rparr> 37 (37 + length (msg_Data msg))"
    have w: "mem_BufferWrite mw (msg_Key msg) s = Ret mw'" and m': "m' = ?m"
      using assms(1) h by (auto simp: mem_handleStream_def Let_def load_fresh d go_bind_Ret_iff s_def)
    have "load ?m s = msg_Data msg"
      using ok by (simp add: s_def load_def reslice_def nth_append)
    moreover have "is_key (msg_Key msg)" using ok by (simp add: is_key_def)
    moreover have "sl_array s < length ?m" by (simp add: s_def reslice_def)
    ultimately show ?thesis
      using mem_run.mrun_step [OF alloc mem_step.m_write [OF _ _ w]] d h
      by (simp add: m' stream_event_def reuses_def)
  qed
qed

lemma stream_run_mem_run: "stream_run s tr errs s' \<Longrightarrow> mem_run no_reuse s tr errs s'"
proof (induction rule: stream_run.induct)
  case (srun_nil s)
  show ?case by (rule mem_run.mrun_nil)
next
  case (srun_read s tr errs m mw db data m' mw')
  then show ?case by (intro mem_handleStream_run)
next
  case (srun_work s tr errs m mw db e err s')
  then show ?case using mem_run.mrun_step [of no_reuse s tr errs m mw db "MWork e" err s'] by (simp add: reuses_def)
qed

section \<open>Frames in a reused buffer\<close>

lemma mem_TCPWriteHandler_long:
  assumes "34 \<le> sl_hi f - sl_lo f" and "sl_hi f \<le> length (m ! sl_array f)"
  shows "mem_TCPWriteHandler m mw f =
    go_bind (mem_BufferWrite mw (take 32 (drop 1 (load m f))) (reslice f 33 (sl_hi f - sl_lo f)))
      (\<lambda>mw. Ret (mw, [[0x00]]))"
proof -
  have "length (load m f) = sl_hi f - sl_lo f" using assms by (simp add: load_def)
  then have "go_copy 0 32 (load m (reslice f 1 33)) (replicate 32 0) = take 32 (drop 1 (load m f))"
    using assms(1) load_reslice [of 1 33 f m] TCP_copy_key [of "load m f"] by simp
  then show ?thesis using assms(1) unfolding mem_TCPWriteHandler_def Let_def by simp
qed

text \<open>The handler on slices does what the handler of the theory \<open>Tcp_Server\<close> does on the bytes.\<close>

lemma mem_TCPWriteHandler_agrees:
  assumes "mem_wf m mw" and "sl_lo f \<le> sl_hi f" and "sl_hi f \<le> length (m ! sl_array f)"
    and "w_writers w ! p = mw_abs m mw"
  shows "TCPWriteHandler_HandleMessage (NewTCPWriteHandler p) w (load m f) =
    go_bind (mem_TCPWriteHandler m mw f) (\<lambda>(mw, sent). Ret (w\<lparr>w_writers := (w_writers w)[p := mw_abs m mw]\<rparr>, sent))"
proof -
  have len: "length (load m f) = sl_hi f - sl_lo f" using assms(2,3) by (simp add: load_def)
  show ?thesis
  proof (cases "sl_hi f - sl_lo f < 34")
    case True
    have "w\<lparr>w_writers := (w_writers w)[p := mw_abs m mw]\<rparr> = w"
      using assms(4) by (metis hworld.surjective hworld.update_convs(2) list_update_id)
    with True show ?thesis by (simp add: TCPWriteHandler_HandleMessage_def mem_TCPWriteHandler_def len)
  next
    case False
    then have "load m (reslice f 33 (sl_hi f - sl_lo f)) = drop 33 (load m f)"
      by (simp add: load_reslice len)
    with False show ?thesis
      using abs_BufferWrite [OF assms(1), of "take 32 (drop 1 (load m f))" "reslice f 33 (sl_hi f - sl_lo f)"]
        mem_TCPWriteHandler_long [of f m mw] assms(3,4) tcph.wh_long [of "load m f" p w]
      by (cases "mem_BufferWrite mw (take 32 (drop 1 (load m f))) (reslice f 33 (sl_hi f - sl_lo f))")
         (simp_all add: len writer_BufferWrite_def)
  qed
qed

lemma spec_other_key:
  "(\<And>v. EWrite k v \<notin> set evs) \<Longrightarrow> foldl spec_step st evs k = st k"
proof (induction evs arbitrary: st)
  case (Cons e evs)
  then show ?case by (cases e) auto
qed simp

text \<open>After the array of an accepted value was overwritten, the writer represents the new bytes.\<close>

lemma overwritten_view:
  assumes "mem_wf m mw" and "bw_inv (mw_abs m mw)" and "a < length m" and "is_key k"
    and "sl_array s = a" and "mem_BufferWrite mw k s = Ret mw'"
  shows "mem_wf (fill m a bs) mw'" and "bw_inv (mw_abs (fill m a bs) mw')"
    and "bw_view (mw_abs (fill m a bs) mw') db k = Some (load (fill m a bs) s)"
proof -
  let ?m = "fill m a bs"
  have wf: "mem_wf ?m mw" using assms(1) by (simp add: mem_wf_def fill_def)
  have inv: "bw_inv (mw_abs ?m mw)" by (rule bw_inv_memory [OF assms(2)])
  show "mem_wf ?m mw'" by (rule mem_wf_write [OF wf _ assms(6)]) (simp add: assms(3,5) fill_def)
  have w: "BufferWrite (mw_abs ?m mw) k (load ?m s) = Ret (mw_abs ?m mw')"
    using abs_BufferWrite [OF wf, of k s] assms(6) by simp
  show "bw_inv (mw_abs ?m mw')"
    using bw_inv_step [OF bw_step.step_write [OF assms(4) w, of "undefined :: (unit, unit) Db"]] inv by simp
  have "bw_wf (mw_abs ?m mw)" using inv by (simp add: bw_inv_def)
  then show "bw_view (mw_abs ?m mw') db k = Some (load ?m s)" using view_write [OF _ w, of db] by simp
qed

section \<open>Properties\<close>

text \<open>A writer with two workers and a batch size of three, and the steps that store a value of it.\<close>

definition sample_mw :: "mbuffer list \<Rightarrow> mbuffer list \<Rightarrow> MemWriter" where
  "sample_mw chs bufs =
     \<lparr>mw_channels = chs, mw_buffers = bufs, mw_maxBatchSize = 3, mw_flushInterval = 500000000,
      mw_stopChannel = make_chan 0, mw_workers = 2, mw_running = [True, True]\<rparr>"

lemma sample_mem_New: "mem_NewBatchWriter 3 500000000 2 = Ret (sample_mw [[], []] [[], []])"
  by (simp add: mem_NewBatchWriter_def sample_mw_def numeral_eq_Suc)

lemma sample_mem_workerID: "mem_workerID (sample_mw chs bufs) sample_key = 1"
  by (simp add: mem_workerID_def sample_mw_def numeral_eq_Suc)

lemma sample_mem_write:
  "mem_BufferWrite (sample_mw [[], []] [[], []]) sample_key s = Ret (sample_mw [[], [(sample_key, s)]] [[], []])"
  unfolding mem_BufferWrite_def sample_mem_workerID by (simp add: sample_mw_def Let_def)

lemma sample_mem_recv:
  "mem_step (m, sample_mw [[], [(sample_key, s)]] [[], []], db) (MWork (ERecv 1)) None
     (m, sample_mw [[], []] [[], [(sample_key, s)]], db)"
  by (rule m_recv [OF _ _ iter_order_id]) (simp_all add: mem_recv_def Let_def sample_mw_def)

lemma sample_mem_tick:
  "mem_step (m, sample_mw [[], []] [[], [(sample_key, s)]], mem_db None []) (MWork (ETick 1)) None
     (m, sample_mw [[], []] [[], []], mem_db None [(sample_key, load m s)])"
  by (rule m_tick [OF _ _ iter_order_id])
     (simp_all add: mem_tick_def mem_flush_def loaded_def sample_mw_def mem_db_def mem_mdbx_def
        mem_full_def Db_GetDBI_def)

lemma sample_mem_drains:
  assumes "mem_run D s0 tr [] (m, sample_mw [[], [(sample_key, s)]] [[], []], mem_db None [])"
  shows "mem_run D s0 (tr @ [ERecv 1, ETick 1]) []
    (m, sample_mw [[], []] [[], []], mem_db None [(sample_key, load m s)])"
proof -
  from mrun_step [OF assms sample_mem_recv] have one: "mem_run D s0 (tr @ [ERecv 1]) []
      (m, sample_mw [[], []] [[], [(sample_key, s)]], mem_db None [])" by (simp add: reuses_def)
  from mrun_step [OF one sample_mem_tick] show ?thesis by (simp add: reuses_def)
qed

lemma sample_mem_quiescent: "quiescent (mw_abs m (sample_mw [[], []] [[], []]))"
  by (auto simp: quiescent_def sample_mw_def mw_abs_def numeral_eq_Suc less_Suc_eq)

text \<open>
  C12. Holding slices is sound as long as no array is overwritten while the writer still holds a slice
  of it: along every such run in which no flush fails, whatever else is received into whichever
  other arrays, the writer represents the accepted writes with the values they had on acceptance,
  in the order of acceptance, and once nothing is pending these are the contents of the database.
\<close>

theorem safe_reuse_refines_map:
  assumes "mem_NewBatchWriter maxBatch interval workers = Ret mw" and "0 < workers" and "db_ok db"
    and "mem_run free_arrays (m, mw, db) tr [] (m', mw', db')"
  shows "bw_view (mw_abs m' mw') db' = foldl spec_step (db_store db) tr \<and>
    (quiescent (mw_abs m' mw') \<longrightarrow> db_store db' = foldl spec_step (db_store db) tr)"
proof -
  have run: "bw_run (mw_abs m mw, db) tr [] (mw_abs m' mw', db')"
    using mem_run_simulates [OF assms(4) refl mem_NewBatchWriter_abs(2) [OF assms(1,2)] refl] by simp
  have inv: "bw_inv (mw_abs m mw)" by (rule mem_fresh_inv [OF assms(1,2)])
  show ?thesis
    using bw_run_refines [OF run] drained_store [OF inv assms(3) run] inv assms(3)
      mem_fresh_view [OF assms(1,2), of m db] by simp
qed

theorem safe_reuse_refines_map_witness:
  "db_store (mem_db None [(sample_key, [9])]) = foldl spec_step Map.empty [EWrite sample_key [9], ERecv 1, ETick 1]"
proof -
  let ?s = "\<lparr>sl_array = 0, sl_lo = 1, sl_hi = 2\<rparr>"
  have w: "mem_step ([[8, 9]], sample_mw [[], []] [[], []], mem_db None []) (MWrite sample_key ?s) None
      ([[8, 9]], sample_mw [[], [(sample_key, ?s)]] [[], []], mem_db None [])"
    by (rule m_write [OF _ _ sample_mem_write]) (simp_all add: is_key_def)
  have "mem_run free_arrays ([[8, 9]], sample_mw [[], []] [[], []], mem_db None []) [EWrite sample_key [9]] []
      ([[8, 9]], sample_mw [[], [(sample_key, ?s)]] [[], []], mem_db None [])"
    using mrun_step [OF mrun_nil w] by (simp add: reuses_def load_def)
  note run = sample_mem_drains [OF this]
  show ?thesis
    using safe_reuse_refines_map [OF sample_mem_New _ mem_db_ok run] sample_mem_quiescent by (simp add: load_def)
qed

text \<open>
  C13. Values received over QUIC reach the database as they were sent: a stream reads every message
  into an array of its own, so whatever the streams receive after a write was accepted, and however their passes
  interleave with the workers, an error-free run that leaves nothing pending stores exactly the
  decoded writes in the order of acceptance.
\<close>

theorem quic_values_stable:
  assumes "mem_NewBatchWriter maxBatch interval workers = Ret mw" and "0 < workers" and "db_ok db"
    and "stream_run (m, mw, db) tr [] (m', mw', db')" and "quiescent (mw_abs m' mw')"
  shows "db_store db' = foldl spec_step (db_store db) tr"
proof -
  have "mem_run free_arrays (m, mw, db) tr [] (m', mw', db')"
    using stream_run_mem_run [OF assms(4)] by (rule mem_run_mono) simp
  then have run: "bw_run (mw_abs m mw, db) tr [] (mw_abs m' mw', db')"
    using mem_run_simulates mem_NewBatchWriter_abs(2) [OF assms(1,2)] by blast
  show ?thesis
    using drained_store [OF mem_fresh_inv [OF assms(1,2)] assms(3) run assms(5)]
      mem_fresh_view [OF assms(1,2), of m db] by simp
qed

theorem quic_values_stable_witness:
  "db_store (mem_db None [(sample_key, [9])]) = foldl spec_step Map.empty [EWrite sample_key [9], ERecv 1, ETick 1]"
proof -
  let ?msg = "\<lparr>msg_Handler = WriteHandlerType, msg_Key = sample_key, msg_Data = [9]\<rparr>"
  let ?m = "[wire ?msg @ replicate (4096 - length (wire ?msg)) 0]"
  let ?s = "reslice \<lparr>sl_array = 0, sl_lo = 0, sl_hi = length (wire ?msg)\<rparr> 37 38"
  let ?mw = "sample_mw [[], []] [[], []]"
  have len: "length (wire ?msg) = 38" by (simp add: wire_def PutUint32_def)
  have dec: "Decode (wire ?msg) = Ret (Inr ?msg)"
    using Decode_wire [of ?msg "[]"] by (simp add: wf_Message_def is_key_def)
  have h: "mem_handleStream [] ?mw (wire ?msg) = Ret (?m, sample_mw [[], [(sample_key, ?s)]] [[], []])"
    using load_fresh [of "[]" "wire ?msg"] dec sample_mem_write by (simp add: mem_handleStream_def Let_def)
  have ld: "load ?m ?s = [9]" by (simp add: load_def reslice_def wire_def PutUint32_def)
  have ev: "stream_event (wire ?msg) = [EWrite sample_key [9]]" by (simp add: stream_event_def dec)
  have "stream_run ([], ?mw, mem_db None []) [EWrite sample_key [9]] []
      (?m, sample_mw [[], [(sample_key, ?s)]] [[], []], mem_db None [])"
    using srun_read [OF srun_nil _ h] len ev by simp
  from srun_work [OF srun_work [OF this sample_mem_recv] sample_mem_tick]
  have run: "stream_run ([], ?mw, mem_db None []) [EWrite sample_key [9], ERecv 1, ETick 1] []
      (?m, ?mw, mem_db None [(sample_key, [9])])" using ld by simp
  show ?thesis
    using quic_values_stable [OF sample_mem_New _ mem_db_ok run sample_mem_quiescent] by simp
qed

text \<open>
  C14. A TCP write can store bytes its client never sent: once the event loop receives the next
  frame into the buffer of a frame that was answered with the success code, before the value was flushed, every
  error-free continuation that drains the writer and does not write the key again stores, under
  the key of the first frame, the bytes the second frame left at the place of the value.
\<close>

theorem tcp_reused_buffer_stored:
  assumes "mem_NewBatchWriter maxBatch interval workers = Ret mw0" and "0 < workers" and "db_ok db0"
    and "mem_run D (m0, mw0, db0) tr0 errs0 (m, mw, db)"
    and "a < length m" and "length f1 \<le> length (m ! a)"
    and "mem_TCPWriteHandler (fill m a f1) mw \<lparr>sl_array = a, sl_lo = 0, sl_hi = length f1\<rparr> = Ret (mw1, [[0x00]])"
    and "mem_run free_arrays (fill (fill m a f1) a f2, mw1, db) tr [] (m', mw', db')"
    and "quiescent (mw_abs m' mw')" and "\<And>v. EWrite (take 32 (drop 1 f1)) v \<notin> set tr"
  shows "db_store db' (take 32 (drop 1 f1)) =
    Some (take (length f1 - 33) (drop 33 (f2 @ drop (length f2) (f1 @ drop (length f1) (m ! a)))))"
proof -
  let ?m = "fill m a f1" and ?f = "\<lparr>sl_array = a, sl_lo = 0, sl_hi = length f1\<rparr>" and ?k = "take 32 (drop 1 f1)"
  define s where "s = reslice ?f 33 (length f1)"
  have inv: "mem_wf m mw" "bw_inv (mw_abs m mw)" "db_ok db"
    using mem_run_inv [OF assms(4) refl refl mem_NewBatchWriter_abs(2) mem_fresh_inv assms(3)] assms(1,2) by auto
  have wf: "mem_wf ?m mw" using inv(1) by (simp add: mem_wf_def fill_def)
  have len: "34 \<le> length f1"
    using assms(7) by (auto simp: mem_TCPWriteHandler_def split: if_splits)
  have ld: "load ?m ?f = f1" using assms(5) by (simp add: load_def fill_def)
  have "mem_TCPWriteHandler ?m mw ?f = go_bind (mem_BufferWrite mw ?k s) (\<lambda>mw. Ret (mw, [[0x00]]))"
    using assms(5,6) len mem_TCPWriteHandler_long [of ?f ?m mw] unfolding ld by (simp add: fill_def s_def)
  from this [symmetric, unfolded assms(7)] have "mem_BufferWrite mw ?k s = Ret mw1"
    by (simp add: go_bind_Ret_iff)
  note ov = overwritten_view [OF wf bw_inv_memory [OF inv(2)] _ _ _ this, of a]
  have side: "a < length ?m" "is_key ?k" "sl_array s = a"
    using assms(5) len by (simp_all add: fill_def is_key_def s_def reslice_def)
  have run: "bw_run (mw_abs (fill ?m a f2) mw1, db) tr [] (mw_abs m' mw', db')"
    using mem_run_simulates [OF assms(8) refl ov(1) [OF side] refl] by simp
  have "db_store db' ?k = Some (load (fill ?m a f2) s)"
    using drained_store [OF ov(2) [OF side] inv(3) run assms(9)] ov(3) [OF side, of f2 db]
      spec_other_key [OF assms(10)] by simp
  then show ?thesis using assms(5) len by (simp add: load_def fill_def s_def reslice_def)
qed

theorem tcp_reused_buffer_stored_witness:
  "db_store (mem_db None [(sample_key, [7])]) sample_key =
     Some (take 1 (drop 33 ((WriteHandlerType # replicate 32 2 @ [7]) @ replicate 30 0)))"
proof -
  let ?f1 = "WriteHandlerType # sample_key @ [9]" and ?f2 = "WriteHandlerType # replicate 32 2 @ [7]"
  let ?f = "\<lparr>sl_array = 0, sl_lo = 0, sl_hi = length ?f1\<rparr>" and ?m = "[replicate 64 0]"
  let ?s = "reslice ?f 33 34"
  have h: "mem_TCPWriteHandler (fill ?m 0 ?f1) (sample_mw [[], []] [[], []]) ?f =
      Ret (sample_mw [[], [(sample_key, ?s)]] [[], []], [[0x00]])"
    using mem_TCPWriteHandler_long [of ?f "fill ?m 0 ?f1" "sample_mw [[], []] [[], []]"] sample_mem_write [of ?s]
    by (simp add: fill_def load_def)
  have run: "mem_run free_arrays (fill (fill ?m 0 ?f1) 0 ?f2, sample_mw [[], [(sample_key, ?s)]] [[], []], mem_db None [])
      [ERecv 1, ETick 1] [] (fill (fill ?m 0 ?f1) 0 ?f2, sample_mw [[], []] [[], []], mem_db None [(sample_key, [7])])"
    using sample_mem_drains [OF mrun_nil, of free_arrays "fill (fill ?m 0 ?f1) 0 ?f2" ?s] by (simp add: fill_def load_def reslice_def)
  show ?thesis
    using tcp_reused_buffer_stored [OF sample_mem_New _ mem_db_ok mrun_nil _ _ h run sample_mem_quiescent] by simp
qed

end
