(* ===== verification/Spec2Isabelle.thy ===== *)
theory Spec2Isabelle
  imports Fdb Benchmark_Loopback Report_Printing Commands Client_Session Writer_Stop Receive_Buffers
begin

text \<open>
  A model of (f)db, a key-value database server: clients send framed messages over TCP, UDP, Unix
  domain sockets or QUIC; writes are collected by a batch writer and stored in MDBX, reads are
  answered from MDBX.

  \<^bold>\<open>Parts and theories.\<close> A request passes through a transport server, its handler, and the batch writer
  or the database; \<open>New\<close> and \<open>Start\<close> of the instance build and connect these parts from the
  configuration, and the commands drive the instance. In the order of the import graph:

  \<^item> \<open>Prelude\<close>: bytes, the three ways a Go call ends (\<open>Ret\<close>, \<open>Panic\<close>, \<open>Blocked\<close>), slices, errors,
    channels, big-endian integers and the lemmas shared by the components.
  \<^item> \<open>Types\<close> (\<^verbatim>\<open>types/types.go\<close>): transport types with parsing and printing, handler types.
  \<^item> \<open>Messages\<close> (\<^verbatim>\<open>messages/message.go\<close>): the wire format. \<open>Decode\<close> keeps the 32-bit arithmetic of its
    slice bound. Locale \<open>codec\<close>: prefix-free encodings.
  \<^item> \<open>Config\<close> (\<^verbatim>\<open>config/*.go\<close>): the configuration structs, lookups, TLS loading and the YAML decoding of
    transport entries.
  \<^item> \<open>Engine\<close>: the MDBX binding, which is not part of the repository, as a record of its methods with
    their documented behaviour (\<open>mdbx_ok\<close>), and an in-memory instance that satisfies it.
  \<^item> \<open>Database\<close> (\<^verbatim>\<open>db/mdbx.go\<close>, \<^verbatim>\<open>db/provider.go\<close>, \<^verbatim>\<open>errors/errors.go\<close>): the struct \<open>Db\<close>; the interface
    \<open>Provider\<close> is a record of methods and its contract the locale \<open>provider\<close>, interpreted on \<open>Db\<close>.
  \<^item> \<open>Batch_Writer\<close> (\<^verbatim>\<open>db/writer.go\<close>): requests, worker channels and buffers, \<open>flush\<close> and stop, as the
    step relation \<open>bw_step\<close> over events of clients and workers, which interleave freely; \<open>Writer_Stop\<close>:
    what stopping it stores and loses.
  \<^item> \<open>Db_Manager\<close> (\<^verbatim>\<open>db/manager.go\<close>): the databases by name.
  \<^item> \<open>Transport_Base\<close>: the state the handlers share (\<open>hworld\<close>: the database and the batch writers, a
    pointer being an index) and the interfaces of the servers as locales: \<open>frame_server\<close> (dispatch by
    the first byte), \<open>kv_handlers\<close> (the write and read handlers), \<open>kv_server\<close> (both together, with the
    end-to-end property) and \<open>ticking\<close> (start, stop and tick).
  \<^item> \<open>Tcp_Server\<close>, \<open>Udp_Server\<close>, \<open>Uds_Server\<close>, \<open>Dummy_Server\<close> (\<^verbatim>\<open>transports/tcp\<close>, \<open>udp\<close>, \<open>uds\<close>, \<open>dummy\<close>): the
    servers and handlers, each translated from its own sources, with interpretations of the locales.
  \<^item> \<open>Quic_Server\<close> (\<^verbatim>\<open>transports/quic\<close>): the accepting loops, the stream loop and the handlers.
  \<^item> \<open>Receive_Buffers\<close> (\<^verbatim>\<open>db/writer.go\<close>, \<^verbatim>\<open>transports/tcp/handler_write.go\<close>, \<^verbatim>\<open>transports/quic/server.go\<close>): the
    batch writer and the write handlers once more, with the arrays behind the values as a store and
    the values as slices of them.
  \<^item> \<open>Transport_Manager\<close> (\<^verbatim>\<open>transports/manager.go\<close>, \<^verbatim>\<open>client/client.go\<close>): registries, with the locales
    \<open>registry\<close> and \<open>removable_registry\<close>.
  \<^item> \<open>Tcp_Client\<close> (\<^verbatim>\<open>client/tcp.go\<close>, \<^verbatim>\<open>client/types.go\<close>): the client's TCP transport, its connection as a
    state machine.
  \<^item> \<open>Observability\<close> (\<^verbatim>\<open>logger\<close>, \<^verbatim>\<open>pprof\<close>, \<^verbatim>\<open>metrics\<close>): the choice and the configuration of the logger, the
    profiling server and the metrics exporter.
  \<^item> \<open>Fdb\<close> (\<^verbatim>\<open>fdb.go\<close>, \<^verbatim>\<open>registry.go\<close>): \<open>New\<close>, \<open>Start\<close>, \<open>Stop\<close> and the wiring of a transport to the database.
  \<^item> \<open>Server_System\<close>: a launched instance as one transition system, whose steps are frames on any
    transport and the steps of the workers of all batch writers.
  \<^item> \<open>Client_Session\<close> (\<^verbatim>\<open>client/tcp.go\<close> with the instance): a client's connection as two streams of bytes,
    cut and joined by the network, while the instance goes on.
  \<^item> \<open>Float64\<close>: 64-bit floating-point arithmetic on finite numbers, as rationals that are rounded to 53
    digits after each operation.
  \<^item> \<open>Benchmark_Report\<close>, \<open>Report_Printing\<close> (\<^verbatim>\<open>benchmark/report.go\<close>, \<^verbatim>\<open>benchmark/helpers.go\<close>): the report with
    percentiles, throughput and jitter, the messages the benchmark sends, and what is printed.
  \<^item> \<open>Suite_Base\<close>, \<open>Benchmark_Suites\<close>, \<open>Suite_Manager\<close> (\<^verbatim>\<open>benchmark/tcp.go\<close>, \<open>udp\<close>, \<open>uds\<close>, \<open>dummy\<close>, \<open>quic\<close>,
    \<^verbatim>\<open>benchmark/manager.go\<close>): the load generators; the goroutines of a run are program counters that take
    turns under a schedule, and share counters, a buffer pool and the histogram.
  \<^item> \<open>Benchmark_Loopback\<close>: the TCP, UDP and Unix socket benchmarks against the servers they measure, through
    the locale \<open>loop_generator\<close>.
  \<^item> \<open>Certs\<close> (\<^verbatim>\<open>certs\<close>, \<^verbatim>\<open>cmd/certs.go\<close>), \<open>Ebpf\<close> (\<^verbatim>\<open>helpers/ebpf.go\<close>, \<^verbatim>\<open>cmd/ebpf.go\<close>, \<^verbatim>\<open>transports/ebf\<close>): certificate
    generation with its PEM files; loading and inspecting the XDP program.
  \<^item> \<open>Cli\<close>, \<open>Commands\<close> (\<^verbatim>\<open>cmd\<close>, \<^verbatim>\<open>entrypoint\<close>): the command tree, flags with their defaults, and the
    actions of the commands.

  \<^bold>\<open>What is shown.\<close>

  \<^item> Components: the codec round trips and is prefix-free, and the inputs on which \<open>Decode\<close> panics are
    characterised. A database that obeys \<open>mdbx_ok\<close> reads back what was set. The batch writer refines a
    map with last-write-wins under every interleaving without a failed flush; its invariant holds in
    all reachable states; the workers can always drain it and can always be stopped; what a failed
    flush and a stop lose is stated exactly. The gnet servers answer each frame once and do not panic,
    and a write is read back once the writer is drained; a QUIC stream refines the same specification
    message by message.
  \<^item> Memory: with slices for values the same refinement holds as long as no array is overwritten that the
    writer still refers to; QUIC keeps to that, TCP does not, and what is then stored is stated.
  \<^item> The instance: \<open>New\<close> registers the configured transports, \<open>Start\<close> wires each to a writer of its own;
    in every run of a launched instance reads return only values that were written, the contents
    for a key follow the writes of its transport, and the instance can be drained; across transports
    the order of acknowledged writes is not kept, and stopping leaves acknowledged writes unwritten.
  \<^item> Client and instance: when each read of the server takes one request, the database holds what the client
    sent, in its order, and every request is answered; the client counts at most as many acknowledgements
    as writes were accepted; and a request cut by the network can be executed as two.
  \<^item> The benchmark: every schedule of a run ends within a bound and counts every message; percentiles are
    in range and in order, throughput and jitter within a bound of rounding errors; over TCP, UDP and
    Unix sockets the server has stored exactly what was sent.
  \<^item> The theorems of this theory: the three gnet handler pairs agree, QUIC differs from them in what it
    stores, TCP merges messages that arrive together, and late boot signals block.

  \<^bold>\<open>Conventions and bounds.\<close> Integers whose width matters are words (message lengths, sizes, bytes) or are
  wrapped explicitly (the 64-bit durations); others are \<open>int\<close> or \<open>nat\<close>. Go maps are association lists where
  their iteration or size matters; the order of iteration is a parameter. No definition uses fuel: the
  loops of the servers recurse over the list of inputs they are given, and \<open>Waiting\<close> says that a loop
  asks for more; concurrent runs follow an explicit list of events, quantified over in the theorems. A
  benchmark run of $n$ clients with $m$ messages each takes at most $n (6 m + 4)$ steps. The capacity of a
  worker channel (500000) and the read buffer of a QUIC stream (4096 bytes) are the sources' constants. What
  libraries outside the repository answer (MDBX, gnet, quic-go, YAML, zap, crypto, cilium/ebpf, the
  file system) is a parameter or an input. Log output is left out except where a loop's return is
  distinguished by it.

  \<^bold>\<open>Not modelled.\<close> \<^verbatim>\<open>transports/ebf/server.go\<close> is a comment as a whole. The read handlers' structs hold only
  the pointer to the one database and are not represented. The floating-point numbers are the finite
  ones, with an unbounded exponent. Data races are modelled where the sources leave a read and a write
  of the same variable apart (the histogram of the benchmark), at the level of these reads and writes.
  The eBPF program is C (\<^verbatim>\<open>c/src/ebpf_program.c\<close>), which the loader reads as an object file.
\<close>

section \<open>Properties that span components\<close>

text \<open>
  The TCP, UDP and Unix socket handlers are the same programs: on every frame and every
  state the three write handlers for the same batch writer do the same, and so do the three
  read handlers.
\<close>

theorem gnet_handlers_agree:
  "TCPWriteHandler_HandleMessage (NewTCPWriteHandler p) w f = UDPWriteHandler_HandleMessage (NewUDPWriteHandler p) w f \<and>
   UDPWriteHandler_HandleMessage (NewUDPWriteHandler p) w f = UDSWriteHandler_HandleMessage (NewUDSWriteHandler p) w f \<and>
   TCPReadHandler_HandleMessage w f = UDPReadHandler_HandleMessage w f \<and>
   UDPReadHandler_HandleMessage w f = UDSReadHandler_HandleMessage w f"
proof -
  have "TCPWriteHandler_HandleMessage (NewTCPWriteHandler p) w f = UDPWriteHandler_HandleMessage (NewUDPWriteHandler p) w f \<and>
    UDPWriteHandler_HandleMessage (NewUDPWriteHandler p) w f = UDSWriteHandler_HandleMessage (NewUDSWriteHandler p) w f"
    by (cases "length f < 34")
       (simp_all add: tcph.wh_short udph.wh_short udsh.wh_short tcph.wh_long udph.wh_long udsh.wh_long)
  moreover have "TCPReadHandler_HandleMessage w f = UDPReadHandler_HandleMessage w f \<and>
    UDPReadHandler_HandleMessage w f = UDSReadHandler_HandleMessage w f"
    by (cases "length f < 33")
       (simp_all add: tcph.rh_short udph.rh_short udsh.rh_short tcph.rh_long udph.rh_long udsh.rh_long)
  ultimately show ?thesis by blast
qed

text \<open>The parts of an encoded message a frame handler cuts out.\<close>

lemma wire_parts:
  assumes "wf_Message m"
  shows "take 32 (drop 1 (wire m @ r)) = msg_Key m"
    and "drop 33 (wire m @ r) = PutUint32 (word_of_nat (length (msg_Data m))) @ msg_Data m @ r"
    and "\<not> length (wire m @ r) < 34"
  using assms length_wire [OF assms] by (simp_all add: wire_def wf_Message_def is_key_def)

lemma tcp_write_wire:
  assumes "wf_Message m" and "msg_Handler m = WriteHandlerType"
    and "Tcp_handler s WriteHandlerType = Some (TCPWriteHandler_HandleMessage (NewTCPWriteHandler p))"
    and "world_ok w" and "p < length (w_writers w)"
    and "Tcp_OnTraffic s w (Inr (wire m @ r)) = Ret (w', rs, a)"
  shows "rs = [[0]] \<and> world_view p w' = (world_view p w)
    (msg_Key m \<mapsto> PutUint32 (word_of_nat (length (msg_Data m))) @ msg_Data m @ r)"
proof -
  have cons: "wire m @ r = WriteHandlerType # tl (wire m @ r)" by (simp add: wire_def assms(2))
  have h: "TCPWriteHandler_HandleMessage (NewTCPWriteHandler p) w (wire m @ r) = Ret (w', rs)"
    using tcpkv.serve_write [OF assms(3-5), of "tl (wire m @ r)"] assms(6) cons by metis
  show ?thesis
    using tcph.wh_effect(4,5) [OF assms(4,5) h]
    unfolding wire_parts(1,2) [OF assms(1)] if_not_P [OF wire_parts(3) [OF assms(1)]] by blast
qed

text \<open>
  C27. The same encoded write stores different values by different transports: over TCP the value
  is the data with its four length bytes in front, over QUIC it is the data alone. A value
  written through one of them is therefore not read back as written through the other.
\<close>

theorem stored_value_depends_on_transport:
  assumes "encodable m" and "msg_Handler m = WriteHandlerType"
    and "Tcp_handler s WriteHandlerType = Some (TCPWriteHandler_HandleMessage (NewTCPWriteHandler p))"
    and "quic_kv p sq" and "world_ok w" and "p < length (w_writers w)"
    and "Tcp_OnTraffic s w (Inr (wire m)) = Ret (w1, rs, a)"
    and "handleStream sq w st [(wire m, None)] = Ret (w2, st2, e)" and "st_results st = []"
  shows "world_view p w1 (msg_Key m) =
      Some (PutUint32 (word_of_nat (length (msg_Data m))) @ msg_Data m) \<and>
    world_view p w2 (msg_Key m) = Some (msg_Data m) \<and> world_view p w1 \<noteq> world_view p w2"
proof -
  have wf: "wf_Message m" using assms(1) by (simp add: encodable_def)
  have v1: "world_view p w1 (msg_Key m) =
      Some (PutUint32 (word_of_nat (length (msg_Data m))) @ msg_Data m)"
    using tcp_write_wire [OF wf assms(2,3,5,6), of "[]"] assms(7) by simp
  have "world_view p w2 = quic_spec (world_view p w) m"
    using handleStream_messages [OF assms(4-6,9), of "[(m, [])]" w2 st2 e] assms(1,2,8)
    by (simp add: is_action_def)
  then have v2: "world_view p w2 (msg_Key m) = Some (msg_Data m)"
    by (simp add: quic_spec_def assms(2))
  have "length (PutUint32 (word_of_nat (length (msg_Data m))) @ msg_Data m) \<noteq> length (msg_Data m)" by simp
  then have "world_view p w1 (msg_Key m) \<noteq> world_view p w2 (msg_Key m)"
    unfolding v1 v2 by (metis option.inject)
  then show ?thesis using v1 v2 by metis
qed

lemma sample_wire: "wire sample_msg = WriteHandlerType # sample_key @ [0, 0, 0, 1, 9]"
  by (simp add: wire_def PutUint32_def)

lemma sample_tcp_write_any:
  "Tcp_OnTraffic sample_tcp sample_world (Inr (WriteHandlerType # sample_key @ v)) =
     (if v = [] then Ret (sample_world, [[1]], ActNone)
      else Ret (\<lparr>w_db = mem_db None [], w_writers = [sample_queued v]\<rparr>, [[0]], ActNone))"
proof -
  have h: "Tcp_handler sample_tcp WriteHandlerType =
      Some (TCPWriteHandler_HandleMessage (NewTCPWriteHandler 0))"
    by (simp add: sample_tcp_handler go_simps)
  show ?thesis
  proof (cases v)
    case Nil
    then show ?thesis
      using tcp.serve_handler [OF _ h, of sample_world "sample_key @ v"]
        tcph.wh_short [of "WriteHandlerType # sample_key @ v" 0 sample_world]
      by (simp add: is_action_def)
  next
    case (Cons b bs)
    then show ?thesis
      using tcp.serve_handler [OF _ h, of sample_world "sample_key @ v"]
        tcph.wh_long [of "WriteHandlerType # sample_key @ v" 0 sample_world]
      by (simp add: is_action_def sample_BufferWrite)
  qed
qed

theorem stored_value_depends_on_transport_witness:
  "world_view 0 \<lparr>w_db = mem_db None [], w_writers = [sample_queued [0, 0, 0, 1, 9]]\<rparr> \<noteq>
   world_view 0 \<lparr>w_db = mem_db None [], w_writers = [sample_queued [9]]\<rparr>"
proof -
  have h: "Tcp_handler sample_tcp WriteHandlerType =
      Some (TCPWriteHandler_HandleMessage (NewTCPWriteHandler 0))"
    by (simp add: sample_tcp_handler go_simps)
  have t: "Tcp_OnTraffic sample_tcp sample_world (Inr (wire sample_msg)) =
      Ret (\<lparr>w_db = mem_db None [], w_writers = [sample_queued [0, 0, 0, 1, 9]]\<rparr>, [[0]], ActNone)"
    unfolding sample_wire by (simp add: sample_tcp_write_any del: append_Cons)
  show ?thesis
    using stored_value_depends_on_transport [OF sample_msg_encodable _ h sample_quic_kv sample_world_ok _ t
        sample_handleStream [of "[]", unfolded append_Nil2]] by simp
qed

text \<open>
  TCP frames are not delimited: when two encoded writes reach the server in one read, they are
  taken as one. There is a single success reply, the second message becomes part of the first
  one's value, and no other key changes.
\<close>

theorem tcp_pipelined_writes_merge:
  assumes "wf_Message m" and "msg_Handler m = WriteHandlerType"
    and "Tcp_handler s WriteHandlerType = Some (TCPWriteHandler_HandleMessage (NewTCPWriteHandler p))"
    and "world_ok w" and "p < length (w_writers w)"
    and "Tcp_OnTraffic s w (Inr (wire m @ wire m')) = Ret (w', rs, a)"
  shows "rs = [[0]] \<and> world_view p w' = (world_view p w)
    (msg_Key m \<mapsto> PutUint32 (word_of_nat (length (msg_Data m))) @ msg_Data m @ wire m')"
  by (rule tcp_write_wire [OF assms])

theorem tcp_pipelined_writes_merge_witness:
  "world_view 0 \<lparr>w_db = mem_db None [], w_writers = [sample_queued ([0, 0, 0, 1, 9] @ wire sample_msg)]\<rparr>
     sample_key = Some ([0, 0, 0, 1, 9] @ wire sample_msg)"
proof -
  have h: "Tcp_handler sample_tcp WriteHandlerType =
      Some (TCPWriteHandler_HandleMessage (NewTCPWriteHandler 0))"
    by (simp add: sample_tcp_handler go_simps)
  have wf: "wf_Message sample_msg" using sample_msg_encodable by (simp add: encodable_def)
  have t: "Tcp_OnTraffic sample_tcp sample_world (Inr (wire sample_msg @ wire sample_msg)) =
      Ret (\<lparr>w_db = mem_db None [], w_writers = [sample_queued ([0, 0, 0, 1, 9] @ wire sample_msg)]\<rparr>,
        [[0]], ActNone)"
    using sample_tcp_write_any [of "[0, 0, 0, 1, 9] @ wire sample_msg"]
    by (simp add: sample_wire)
  show ?thesis
    using tcp_pipelined_writes_merge [OF wf _ h sample_world_ok _ t]
    by (simp add: PutUint32_def)
qed

text \<open>
  A boot signal that comes after the start timed out is never received: the callback of the
  TCP, UDP and Unix socket servers then blocks the event loop on the unbuffered channel, while
  the dummy server's buffered channel takes the signal.
\<close>

theorem late_boot_blocks:
  "(case Tcp_Start st TimedOut of Ret (r, s) \<Rightarrow> Tcp_OnBoot False s eng = Blocked | _ \<Rightarrow> False) \<and>
   (case Udp_Start su TimedOut of Ret (r, s) \<Rightarrow> Udp_OnInitComplete False s = Blocked | _ \<Rightarrow> False) \<and>
   (case Uds_Start sx TimedOut of Ret (r, s) \<Rightarrow> Uds_OnInitComplete False s = Blocked | _ \<Rightarrow> False) \<and>
   (case Dummy_Start sd TimedOut of Ret (r, s) \<Rightarrow> returns (Dummy_OnInitComplete False s) | _ \<Rightarrow> False)"
  by (simp add: Tcp_Start_def Tcp_OnBoot_def Udp_Start_def Udp_OnInitComplete_def Uds_Start_def
      Uds_OnInitComplete_def Dummy_Start_def Dummy_OnInitComplete_def chan_defs Let_def)

end
